(* ===== verification/Prelude.thy ===== *)
theory Prelude
  imports Main "HOL-Library.Word" "HOL-Library.Multiset"
begin

text \<open>
  The vocabulary shared by every component of the development.

  \<^item> Go's \<^verbatim>\<open>int\<close>, \<^verbatim>\<open>int64\<close> and \<^verbatim>\<open>time.Duration\<close> (64 bits on the two release targets, linux/amd64
    and linux/arm64) are HOL integers; every arithmetic operation of the source that can leave
    the 64-bit range is followed by \<open>wrap64\<close>, Go's two's complement wrap-around.
  \<^item> \<^verbatim>\<open>uint8\<close>, \<^verbatim>\<open>uint16\<close>, \<^verbatim>\<open>uint32\<close> and \<^verbatim>\<open>uint64\<close> are words of that width.
  \<^item> A Go string is its byte sequence, a \<open>char list\<close>; a \<^verbatim>\<open>[]byte\<close> is a list of 8-bit words.
  \<^item> A result pair \<^verbatim>\<open>(T, error)\<close> is a sum, \<open>Inl\<close> the error, chained by \<open>rbind\<close> the way the source
    chains \<^verbatim>\<open>if err != nil { return }\<close>.
  \<^item> The locales \<open>codec\<close> (an encoder with its decoder) and \<open>transition_system\<close> (a start
    predicate, steps and an invariant) are the contracts that several components provide.
\<close>

named_theorems go_arith \<open>facts on 64-bit wrap-around\<close>
named_theorems rbind_rules \<open>facts on chained results\<close>

type_synonym byte = "8 word"
type_synonym bytes = "byte list"
type_synonym goint = int

section \<open>64-bit integers\<close>

definition in_int64 :: "int \<Rightarrow> bool" where
  "in_int64 x \<longleftrightarrow> - (2 ^ 63) \<le> x \<and> x < 2 ^ 63"

definition wrap64 :: "int \<Rightarrow> int" where
  "wrap64 x = (x + 2 ^ 63) mod 2 ^ 64 - 2 ^ 63"

definition MaxInt :: int where
  "MaxInt = 2 ^ 63 - 1"

definition MinInt :: int where
  "MinInt = - (2 ^ 63)"

lemma wrap64_in_range [simp, go_arith]: "in_int64 (wrap64 x)"
  by (simp add: wrap64_def in_int64_def)

lemma wrap64_id [simp, go_arith]: "in_int64 x \<Longrightarrow> wrap64 x = x"
  by (simp add: wrap64_def in_int64_def)

lemma wrap64_idem [simp, go_arith]: "wrap64 (wrap64 x) = wrap64 x"
  by simp

lemma in_int64_0 [simp]: "in_int64 0"
  by (simp add: in_int64_def)

lemma wrap64_0 [simp]: "wrap64 0 = 0"
  by simp

lemma in_int64_between [go_arith]: "in_int64 a \<Longrightarrow> in_int64 b \<Longrightarrow> a \<le> x \<Longrightarrow> x \<le> b \<Longrightarrow> in_int64 x"
  by (simp add: in_int64_def)

lemma wrap64_add_left: "wrap64 (wrap64 a + b) = wrap64 (a + b)"
proof -
  have "(wrap64 a + b + 2 ^ 63) mod 2 ^ 64 = ((a + 2 ^ 63) mod 2 ^ 64 + b) mod 2 ^ 64"
    by (simp add: wrap64_def)
  also have "\<dots> = (a + b + 2 ^ 63) mod 2 ^ 64"
    by (simp add: mod_simps algebra_simps)
  finally show ?thesis
    by (simp add: wrap64_def)
qed

lemma wrap64_overflow: "2 ^ 63 \<le> x \<Longrightarrow> x < 2 ^ 64 + 2 ^ 63 \<Longrightarrow> wrap64 x = x - 2 ^ 64"
proof -
  assume h: "2 ^ 63 \<le> x" "x < 2 ^ 64 + 2 ^ 63"
  have "(x + 2 ^ 63) mod 2 ^ 64 = (x + 2 ^ 63 - 2 ^ 64) mod 2 ^ 64"
    by (simp only: mod_diff_right_eq [symmetric] mod_self diff_zero)
  also have "\<dots> = x + 2 ^ 63 - 2 ^ 64"
    using h by (intro mod_pos_pos_trivial) simp_all
  finally show ?thesis
    by (simp add: wrap64_def)
qed

text \<open>Conversions \<^verbatim>\<open>uint8(x)\<close>, \<^verbatim>\<open>uint16(x)\<close>, \<^verbatim>\<open>uint32(x)\<close> of an \<^verbatim>\<open>int\<close> keep the low bits.\<close>

abbreviation to_uint8 :: "int \<Rightarrow> 8 word" where
  "to_uint8 \<equiv> word_of_int"

abbreviation to_uint16 :: "int \<Rightarrow> 16 word" where
  "to_uint16 \<equiv> word_of_int"

abbreviation to_uint32 :: "int \<Rightarrow> 32 word" where
  "to_uint32 \<equiv> word_of_int"

lemma uint_to_uint16: "0 \<le> n \<Longrightarrow> n < 65536 \<Longrightarrow> uint (to_uint16 n) = n"
  by (simp add: uint_word_of_int)

section \<open>Results\<close>

fun rbind :: "'e + 'a \<Rightarrow> ('a \<Rightarrow> 'e + 'b) \<Rightarrow> 'e + 'b" where
  "rbind (Inl e) f = Inl e"
| "rbind (Inr x) f = f x"

definition guard_err :: "bool \<Rightarrow> 'e \<Rightarrow> 'e + unit" where
  "guard_err fails e = (if fails then Inl e else Inr ())"

lemma rbind_eq_Inr [rbind_rules]: "rbind r f = Inr y \<longleftrightarrow> (\<exists>x. r = Inr x \<and> f x = Inr y)"
  by (cases r) auto

lemma rbind_eq_Inl [rbind_rules]:
  "rbind r f = Inl e \<longleftrightarrow> r = Inl e \<or> (\<exists>x. r = Inr x \<and> f x = Inl e)"
  by (cases r) auto

lemma guard_err_Inr [simp, rbind_rules]: "guard_err b e = Inr u \<longleftrightarrow> \<not> b"
  by (simp add: guard_err_def)

lemma guard_err_Inl [simp, rbind_rules]: "guard_err b e = Inl e' \<longleftrightarrow> b \<and> e' = e"
  by (auto simp: guard_err_def)

lemma rbind_guard [simp]: "rbind (guard_err b e) f = (if b then Inl e else f ())"
  by (simp add: guard_err_def)

section \<open>Contracts\<close>

text \<open>
  An encoder and its decoder. \<open>wf\<close> says which values the encoder is meant for; the decoder
  may accept more than the encoder writes.
\<close>

locale codec =
  fixes enc :: "'a \<Rightarrow> 'b"
    and dec :: "'b \<Rightarrow> 'e + 'a"
    and wf :: "'a \<Rightarrow> bool"
  assumes dec_enc: "wf x \<Longrightarrow> dec (enc x) = Inr x"
begin

lemma enc_inject: "wf x \<Longrightarrow> wf y \<Longrightarrow> enc x = enc y \<longleftrightarrow> x = y"
  using dec_enc by (metis sum.inject(2))

lemma enc_inj_on: "inj_on enc {x. wf x}"
  by (rule inj_onI) (simp add: enc_inject)

lemma dec_enc_map: "list_all wf xs \<Longrightarrow> map dec (map enc xs) = map Inr xs"
  by (induction xs) (simp_all add: dec_enc)

end

text \<open>
  A system that starts in a state satisfying \<open>start\<close>, moves by \<open>step\<close> under a label and keeps
  an invariant. Runs are lists of labels; a component's safety properties are facts about
  every state that a run reaches.
\<close>

locale transition_system =
  fixes start :: "'s \<Rightarrow> bool"
    and step :: "'s \<Rightarrow> 'l \<Rightarrow> 's \<Rightarrow> bool"
    and inv :: "'s \<Rightarrow> bool"
  assumes inv_start: "start s \<Longrightarrow> inv s"
    and inv_step: "inv s \<Longrightarrow> step s l t \<Longrightarrow> inv t"
begin

inductive run :: "'s \<Rightarrow> 'l list \<Rightarrow> 's \<Rightarrow> bool" where
  run_nil: "run s [] s"
| run_cons: "step s l t \<Longrightarrow> run t ls u \<Longrightarrow> run s (l # ls) u"

lemma run_inv: "run s ls t \<Longrightarrow> inv s \<Longrightarrow> inv t"
  by (induction rule: run.induct) (auto intro: inv_step)

lemma reach_inv: "start s \<Longrightarrow> run s ls t \<Longrightarrow> inv t"
  using inv_start run_inv by blast

lemma run_append: "run s ls t \<Longrightarrow> run t ms u \<Longrightarrow> run s (ls @ ms) u"
  by (induction rule: run.induct) (auto intro: run.intros)

end

section \<open>Lists\<close>

text \<open>A nested loop that appends \<open>f x\<close> for every \<open>x\<close> keeps an order that its two levels keep.\<close>

lemma sorted_wrt_concat_map:
  assumes "sorted_wrt Q xs"
    and "\<And>x. x \<in> set xs \<Longrightarrow> sorted_wrt P (f x)"
    and "\<And>x y a b. Q x y \<Longrightarrow> a \<in> set (f x) \<Longrightarrow> b \<in> set (f y) \<Longrightarrow> P a b"
  shows "sorted_wrt P (concat (map f xs))"
  using assms(1,2)
proof (induction xs)
  case (Cons x xs)
  then show ?case
    using assms(3) by (fastforce simp: sorted_wrt_append)
qed simp

lemma length_concat_map_const:
  "(\<And>x. x \<in> set xs \<Longrightarrow> length (f x) = n) \<Longrightarrow> length (concat (map f xs)) = length xs * n"
  by (induction xs) simp_all

end
