(* ===== verification/GoText.thy ===== *)
theory GoText
  imports Prelude
begin

text \<open>
  The part of Go's \<^verbatim>\<open>strconv\<close>, \<^verbatim>\<open>strings\<close> and \<^verbatim>\<open>fmt\<close> that the program calls: decimal printing
  (\<^verbatim>\<open>%d\<close>), \<^verbatim>\<open>strconv.Atoi\<close> with its syntax and range errors, \<^verbatim>\<open>strings.Split\<close> on a one-byte
  separator, \<^verbatim>\<open>strings.Contains\<close> of one byte and \<^verbatim>\<open>strings.TrimSpace\<close> over UTF-8 bytes.
\<close>

section \<open>Decimal printing\<close>

definition digit_char :: "nat \<Rightarrow> char" where
  "digit_char d = char_of (48 + d)"

fun show_nat :: "nat \<Rightarrow> string" where
  "show_nat n = (if n < 10 then [digit_char n] else show_nat (n div 10) @ [digit_char (n mod 10)])"

declare show_nat.simps [simp del]

definition show_int :: "int \<Rightarrow> string" where
  "show_int n = (if n < 0 then CHR ''-'' # show_nat (nat (- n)) else show_nat (nat n))"

section \<open>strconv.Atoi\<close>

datatype num_error = ErrSyntax | ErrRange

definition digit_val :: "char \<Rightarrow> nat option" where
  "digit_val c = (let k = of_char c in if 48 \<le> k \<and> k \<le> (57::nat) then Some (k - 48) else None)"

text \<open>\<^verbatim>\<open>ParseUint\<close>: the running value is checked before every multiplication and every addition.\<close>

definition uint_cutoff :: nat where
  "uint_cutoff = (2 ^ 64 - 1) div 10 + 1"

fun parse_uint_loop :: "nat \<Rightarrow> string \<Rightarrow> num_error + nat" where
  "parse_uint_loop n [] = Inr n"
| "parse_uint_loop n (c # cs) =
     (case digit_val c of
        None \<Rightarrow> Inl ErrSyntax
      | Some d \<Rightarrow>
          if uint_cutoff \<le> n then Inl ErrRange
          else if 2 ^ 64 \<le> n * 10 + d then Inl ErrRange
          else parse_uint_loop (n * 10 + d) cs)"

definition parse_uint :: "string \<Rightarrow> num_error + nat" where
  "parse_uint s = (if s = [] then Inl ErrSyntax else parse_uint_loop 0 s)"

definition strip_sign :: "string \<Rightarrow> bool \<times> string" where
  "strip_sign s = (case s of
       [] \<Rightarrow> (False, [])
     | c # cs \<Rightarrow> if c = CHR ''+'' then (False, cs) else if c = CHR ''-'' then (True, cs) else (False, s))"

definition Atoi :: "string \<Rightarrow> num_error + int" where
  "Atoi s =
     (if s = [] then Inl ErrSyntax
      else case strip_sign s of (neg, ds) \<Rightarrow>
        rbind (parse_uint ds) (\<lambda>un.
          if \<not> neg \<and> 2 ^ 63 \<le> un then Inl ErrRange
          else if neg \<and> 2 ^ 63 < un then Inl ErrRange
          else Inr (if neg then - int un else int un)))"

section \<open>strings\<close>

fun split_on :: "char \<Rightarrow> string \<Rightarrow> string list" where
  "split_on sep [] = [[]]"
| "split_on sep (c # cs) =
     (if c = sep then [] # split_on sep cs
      else case split_on sep cs of [] \<Rightarrow> [[c]] | w # ws \<Rightarrow> (c # w) # ws)"

fun join_with :: "string \<Rightarrow> string list \<Rightarrow> string" where
  "join_with sep [] = []"
| "join_with sep [w] = w"
| "join_with sep (w # v # ws) = w @ sep @ join_with sep (v # ws)"

definition contains_char :: "char \<Rightarrow> string \<Rightarrow> bool" where
  "contains_char c s = (c \<in> set s)"

text \<open>
  The UTF-8 encodings of the code points for which \<^verbatim>\<open>unicode.IsSpace\<close> holds: the six ASCII
  blanks, U+0085, U+00A0, U+1680, U+2000 to U+200A, U+2028, U+2029, U+202F, U+205F, U+3000.
\<close>

definition space_encodings :: "string list" where
  "space_encodings =
     [[CHR 0x09], [CHR 0x0A], [CHR 0x0B], [CHR 0x0C], [CHR 0x0D], [CHR 0x20],
      [CHR 0xC2, CHR 0x85], [CHR 0xC2, CHR 0xA0], [CHR 0xE1, CHR 0x9A, CHR 0x80],
      [CHR 0xE2, CHR 0x80, CHR 0x80], [CHR 0xE2, CHR 0x80, CHR 0x81],
      [CHR 0xE2, CHR 0x80, CHR 0x82], [CHR 0xE2, CHR 0x80, CHR 0x83],
      [CHR 0xE2, CHR 0x80, CHR 0x84], [CHR 0xE2, CHR 0x80, CHR 0x85],
      [CHR 0xE2, CHR 0x80, CHR 0x86], [CHR 0xE2, CHR 0x80, CHR 0x87],
      [CHR 0xE2, CHR 0x80, CHR 0x88], [CHR 0xE2, CHR 0x80, CHR 0x89],
      [CHR 0xE2, CHR 0x80, CHR 0x8A], [CHR 0xE2, CHR 0x80, CHR 0xA8],
      [CHR 0xE2, CHR 0x80, CHR 0xA9], [CHR 0xE2, CHR 0x80, CHR 0xAF],
      [CHR 0xE2, CHR 0x81, CHR 0x9F], [CHR 0xE3, CHR 0x80, CHR 0x80]]"

definition starts_with :: "string \<Rightarrow> string \<Rightarrow> bool" where
  "starts_with p s \<longleftrightarrow> p \<noteq> [] \<and> take (length p) s = p"

lemma starts_with_shorter: "starts_with p s \<Longrightarrow> length (drop (length p) s) < length s"
  by (cases s) (auto simp: starts_with_def)

function strip_front :: "string list \<Rightarrow> string \<Rightarrow> string" where
  "strip_front ps s =
     (case find (\<lambda>p. starts_with p s) ps of
        None \<Rightarrow> s
      | Some p \<Rightarrow> strip_front ps (drop (length p) s))"
  by pat_completeness auto
termination
  by (relation "measure (\<lambda>(ps, s). length s)")
    (auto simp: find_Some_iff starts_with_shorter simp del: length_drop)

declare strip_front.simps [simp del]

definition TrimSpace :: "string \<Rightarrow> string" where
  "TrimSpace s =
     rev (strip_front (map rev space_encodings) (rev (strip_front space_encodings s)))"

section \<open>Digits\<close>

lemma digit_val_digit_char [simp]: "d < 10 \<Longrightarrow> digit_val (digit_char d) = Some d"
  by (simp add: digit_val_def digit_char_def Let_def)

lemma digit_val_bound: "digit_val c = Some d \<Longrightarrow> d < 10"
  by (auto simp: digit_val_def Let_def split: if_splits)

lemma digit_char_not_space: "digit_val c = Some d \<Longrightarrow> p \<in> set space_encodings \<Longrightarrow> c \<notin> set p"
  by (auto simp: space_encodings_def digit_val_def Let_def split: if_splits)

definition all_digits :: "string \<Rightarrow> bool" where
  "all_digits s = list_all (\<lambda>c. digit_val c \<noteq> None) s"

lemma all_digits_append [simp]: "all_digits (s @ t) \<longleftrightarrow> all_digits s \<and> all_digits t"
  by (simp add: all_digits_def)

lemma show_nat_nonempty [simp]: "show_nat n \<noteq> []"
  by (subst show_nat.simps) simp

lemma show_nat_digits [simp]: "all_digits (show_nat n)"
proof (induction n rule: show_nat.induct)
  case (1 n)
  then show ?case
    by (subst show_nat.simps) (simp add: all_digits_def)
qed

lemma all_digits_not_in: "all_digits s \<Longrightarrow> digit_val c = None \<Longrightarrow> c \<notin> set s"
  by (auto simp: all_digits_def list_all_iff)

lemma digit_val_punct [simp]:
  "digit_val (CHR ''-'') = None" "digit_val (CHR ''+'') = None" "digit_val (CHR '','') = None"
  "digit_val (CHR ''.'') = None" "digit_val (CHR '':'') = None"
  "digit_val (CHR ''['') = None" "digit_val (CHR '']'') = None"
  by (simp_all add: digit_val_def Let_def)

section \<open>Atoi inverts the printer\<close>

lemma parse_uint_loop_append:
  "parse_uint_loop n (s @ t) = rbind (parse_uint_loop n s) (\<lambda>m. parse_uint_loop m t)"
  by (induction n s rule: parse_uint_loop.induct) (auto split: option.splits)

lemma parse_uint_loop_show_nat:
  "n < 2 ^ 64 \<Longrightarrow> parse_uint_loop 0 (show_nat n) = Inr n"
proof (induction n rule: show_nat.induct)
  case (1 n)
  show ?case
  proof (cases "n < 10")
    case True
    then show ?thesis
      by (subst show_nat.simps) (simp add: uint_cutoff_def)
  next
    case False
    with 1 have ih: "parse_uint_loop 0 (show_nat (n div 10)) = Inr (n div 10)"
      by simp
    have "n div 10 < uint_cutoff"
      using "1.prems" by (simp add: uint_cutoff_def)
    with False ih "1.prems" show ?thesis
      by (subst show_nat.simps) (simp add: parse_uint_loop_append)
  qed
qed

lemma strip_sign_digits: "all_digits s \<Longrightarrow> s \<noteq> [] \<Longrightarrow> strip_sign s = (False, s)"
  by (cases s) (auto simp: strip_sign_def all_digits_def)

lemma Atoi_show_int [simp]: "in_int64 n \<Longrightarrow> Atoi (show_int n) = Inr n"
proof (cases "n < 0")
  case True
  assume "in_int64 n"
  then have b: "nat (- n) \<le> 2 ^ 63"
    by (simp add: in_int64_def nat_le_iff)
  have ss: "strip_sign (CHR ''-'' # show_nat (nat (- n))) = (True, show_nat (nat (- n)))"
    by (simp add: strip_sign_def)
  have "parse_uint (show_nat (nat (- n))) = Inr (nat (- n))"
    using b by (simp add: parse_uint_def parse_uint_loop_show_nat)
  with True b ss show ?thesis
    by (simp add: Atoi_def show_int_def)
next
  case False
  assume "in_int64 n"
  then have b: "nat n < 2 ^ 63"
    using False by (simp add: in_int64_def)
  have "parse_uint (show_nat (nat n)) = Inr (nat n)"
    using b by (simp add: parse_uint_def parse_uint_loop_show_nat)
  with False b show ?thesis
    by (simp add: Atoi_def show_int_def strip_sign_digits)
qed

lemma parse_uint_loop_bound: "parse_uint_loop n s = Inr m \<Longrightarrow> n < 2 ^ 64 \<Longrightarrow> m < 2 ^ 64"
  by (induction n s rule: parse_uint_loop.induct) (auto split: option.splits if_splits)

lemma Atoi_in_range: "Atoi s = Inr n \<Longrightarrow> in_int64 n"
  by (auto simp: Atoi_def in_int64_def rbind_eq_Inr split: if_splits prod.splits)

interpretation decimal: codec show_int Atoi in_int64
  by unfold_locales simp

section \<open>Splitting and trimming\<close>

lemma split_on_nonempty [simp]: "split_on c s \<noteq> []"
  by (induction s) (auto split: list.splits)

lemma join_split_on: "join_with [c] (split_on c s) = s"
proof (induction s)
  case (Cons d s)
  then show ?case
    by (cases "split_on c s") (auto, (metis join_with.simps(2,3) append_Cons list.exhaust)+)
qed simp

lemma split_on_none: "c \<notin> set s \<Longrightarrow> split_on c s = [s]"
  by (induction s) auto

lemma split_on_append: "c \<notin> set s \<Longrightarrow> split_on c (s @ c # t) = s # split_on c t"
  by (induction s) auto

lemma split_on_parts: "w \<in> set (split_on c s) \<Longrightarrow> c \<notin> set w"
  by (induction s arbitrary: w) (auto split: list.splits if_splits)

lemma strip_front_id: "(\<And>p. p \<in> set ps \<Longrightarrow> \<not> starts_with p s) \<Longrightarrow> strip_front ps s = s"
  by (subst strip_front.simps) (auto simp: find_None_iff split: option.splits dest: find_Some_iff [THEN iffD1] )

lemma starts_with_hd: "starts_with p s \<Longrightarrow> \<exists>c q t. p = c # q \<and> s = c # t"
  by (cases p; cases s) (auto simp: starts_with_def)

lemma TrimSpace_digit_ends:
  assumes "s \<noteq> []" "digit_val (hd s) = Some a" "digit_val (last s) = Some b"
  shows "TrimSpace s = s"
proof -
  have front: "\<not> starts_with p s" if "p \<in> set space_encodings" for p
    using that assms(2) starts_with_hd [of p s] digit_char_not_space [of "hd s" _ p] by auto
  have rear: "\<not> starts_with p (rev s)" if p: "p \<in> set (map rev space_encodings)" for p
  proof
    assume "starts_with p (rev s)"
    then obtain q where "p = last s # q"
      using starts_with_hd assms(1) by (metis hd_rev list.sel(1))
    moreover obtain p' where "p' \<in> set space_encodings" "p = rev p'"
      using p by auto
    ultimately have "last s \<in> set p'"
      by (metis list.set_intros(1) set_rev)
    with \<open>p' \<in> set space_encodings\<close> show False
      using digit_char_not_space [OF assms(3)] by blast
  qed
  show ?thesis
    unfolding TrimSpace_def using front rear by (simp add: strip_front_id del: set_map)
qed

lemma show_nat_ends:
  "\<exists>a. digit_val (hd (show_nat n)) = Some a" "\<exists>b. digit_val (last (show_nat n)) = Some b"
  using show_nat_digits [of n] hd_in_set [OF show_nat_nonempty [of n]]
    last_in_set [OF show_nat_nonempty [of n]]
  by (auto simp: all_digits_def list_all_iff)

lemma show_int_nonneg: "0 \<le> n \<Longrightarrow> show_int n = show_nat (nat n)"
  by (simp add: show_int_def)

end
