(* ===== verification/Protocol.thy ===== *)
theory Protocol
  imports GoText
begin

text \<open>
  \<^verbatim>\<open>internal/protocol/types.go\<close> (enumerations) and \<^verbatim>\<open>internal/protocol/state_machine.go\<close>.

  \<^verbatim>\<open>Direction\<close>, \<^verbatim>\<open>Family\<close> and \<^verbatim>\<open>ErrorCode\<close> are Go \<^verbatim>\<open>int\<close>s that a peer's JSON message can set to any
  value, so they stay integers with named constants. \<^verbatim>\<open>SessionState\<close> values are only ever
  the named constants, so it is a datatype.
\<close>

section \<open>Enumerations\<close>

type_synonym Direction = int
type_synonym Family = int
type_synonym ErrorCode = int

definition DirectionUplink :: Direction where [simp]: "DirectionUplink = 0"
definition DirectionDownlink :: Direction where [simp]: "DirectionDownlink = 1"
definition DirectionBoth :: Direction where [simp]: "DirectionBoth = 2"

definition Direction_String :: "Direction \<Rightarrow> string" where
  "Direction_String d =
     (if d = DirectionUplink then ''uplink''
      else if d = DirectionDownlink then ''downlink''
      else if d = DirectionBoth then ''both''
      else ''unknown'')"

text \<open>The error value carries the rejected text, as the message of the source quotes it.\<close>

definition ParseDirection :: "string \<Rightarrow> string + Direction" where
  "ParseDirection s =
     (if s = ''uplink'' \<or> s = ''up'' then Inr DirectionUplink
      else if s = ''downlink'' \<or> s = ''down'' then Inr DirectionDownlink
      else if s = ''both'' then Inr DirectionBoth
      else Inl s)"

definition FamilyIPv4 :: Family where [simp]: "FamilyIPv4 = 0"
definition FamilyIPv6 :: Family where [simp]: "FamilyIPv6 = 1"

definition Family_String :: "Family \<Rightarrow> string" where
  "Family_String f =
     (if f = FamilyIPv4 then ''ipv4'' else if f = FamilyIPv6 then ''ipv6'' else ''unknown'')"

definition ParseFamily :: "string \<Rightarrow> string + Family" where
  "ParseFamily s =
     (if s = ''ipv4'' \<or> s = ''4'' then Inr FamilyIPv4
      else if s = ''ipv6'' \<or> s = ''6'' then Inr FamilyIPv6
      else Inl s)"

definition ErrNone :: ErrorCode where [simp]: "ErrNone = 0"
definition ErrBusy :: ErrorCode where [simp]: "ErrBusy = 1"
definition ErrInvalidRequest :: ErrorCode where [simp]: "ErrInvalidRequest = 2"
definition ErrInternalError :: ErrorCode where [simp]: "ErrInternalError = 3"
definition ErrTimeout :: ErrorCode where [simp]: "ErrTimeout = 4"
definition ErrCancelled :: ErrorCode where [simp]: "ErrCancelled = 5"
definition ErrSessionNotFound :: ErrorCode where [simp]: "ErrSessionNotFound = 6"

definition ErrorCode_String :: "ErrorCode \<Rightarrow> string" where
  "ErrorCode_String e =
     (if e = ErrNone then ''none''
      else if e = ErrBusy then ''busy''
      else if e = ErrInvalidRequest then ''invalid_request''
      else if e = ErrInternalError then ''internal_error''
      else if e = ErrTimeout then ''timeout''
      else if e = ErrCancelled then ''cancelled''
      else if e = ErrSessionNotFound then ''session_not_found''
      else ''unknown'')"

definition ValidateDirection :: "Direction \<Rightarrow> bool" where
  "ValidateDirection d \<longleftrightarrow> 0 \<le> d \<and> d \<le> DirectionBoth"

definition ValidateFamily :: "Family \<Rightarrow> bool" where
  "ValidateFamily f \<longleftrightarrow> 0 \<le> f \<and> f \<le> FamilyIPv6"

definition ValidateErrorCode :: "ErrorCode \<Rightarrow> bool" where
  "ValidateErrorCode e \<longleftrightarrow> 0 \<le> e \<and> e \<le> ErrSessionNotFound"

section \<open>Session states\<close>

datatype SessionState =
    StateIdle | StatePreparing | StateReady | StateRunning
  | StateCollecting | StateCompleted | StateFailed | StateCancelled

fun SessionState_String :: "SessionState \<Rightarrow> string" where
  "SessionState_String StateIdle = ''idle''"
| "SessionState_String StatePreparing = ''preparing''"
| "SessionState_String StateReady = ''ready''"
| "SessionState_String StateRunning = ''running''"
| "SessionState_String StateCollecting = ''collecting''"
| "SessionState_String StateCompleted = ''completed''"
| "SessionState_String StateFailed = ''failed''"
| "SessionState_String StateCancelled = ''cancelled''"

definition transitions :: "(SessionState \<times> (SessionState \<times> bool) list) list" where
  "transitions =
     [(StateIdle, [(StatePreparing, True)]),
      (StatePreparing, [(StateReady, True), (StateCancelled, True), (StateFailed, True)]),
      (StateReady, [(StateRunning, True), (StateCancelled, True)]),
      (StateRunning, [(StateCollecting, True), (StateCancelled, True)]),
      (StateCollecting, [(StateCompleted, True), (StateFailed, True)]),
      (StateCompleted, [(StateIdle, True)]),
      (StateFailed, [(StateIdle, True)]),
      (StateCancelled, [(StateIdle, True)])]"

text \<open>Indexing a Go map at an absent key gives the zero value, here false.\<close>

definition canTransition :: "SessionState \<Rightarrow> SessionState \<Rightarrow> bool" where
  "canTransition from to =
     (case map_of transitions from of
        Some m \<Rightarrow> (case map_of m to of Some b \<Rightarrow> b | None \<Rightarrow> False)
      | None \<Rightarrow> False)"

datatype invalidTransition = invalidTransition (it_from: SessionState) (it_to: SessionState)

definition invalidTransition_Error :: "invalidTransition \<Rightarrow> string" where
  "invalidTransition_Error e =
     ''invalid transition: '' @ SessionState_String (it_from e) @ '' -> '' @
     SessionState_String (it_to e)"

definition Transition :: "SessionState \<Rightarrow> SessionState \<Rightarrow> invalidTransition + unit" where
  "Transition from to =
     (if \<not> canTransition from to then Inl (invalidTransition from to) else Inr ())"

definition IsTerminal :: "SessionState \<Rightarrow> bool" where
  "IsTerminal s \<longleftrightarrow> s = StateCompleted \<or> s = StateFailed \<or> s = StateCancelled"

definition IsActive :: "SessionState \<Rightarrow> bool" where
  "IsActive s \<longleftrightarrow> s \<noteq> StateIdle \<and> \<not> IsTerminal s"

definition ResetAllowed :: "SessionState \<Rightarrow> bool" where
  "ResetAllowed s \<longleftrightarrow> s = StateCompleted \<or> s = StateFailed \<or> s = StateCancelled"

section \<open>Printing and parsing the enumerations\<close>

lemma parse_direction_string: "ValidateDirection d \<Longrightarrow> ParseDirection (Direction_String d) = Inr d"
proof -
  assume "ValidateDirection d"
  then have "d = 0 \<or> d = 1 \<or> d = 2"
    by (auto simp: ValidateDirection_def)
  then show ?thesis
    by (auto simp: ParseDirection_def Direction_String_def)
qed

lemma parse_family_string: "ValidateFamily f \<Longrightarrow> ParseFamily (Family_String f) = Inr f"
proof -
  assume "ValidateFamily f"
  then have "f = 0 \<or> f = 1"
    by (auto simp: ValidateFamily_def)
  then show ?thesis
    by (auto simp: ParseFamily_def Family_String_def)
qed

interpretation direction_text: codec Direction_String ParseDirection ValidateDirection
  by unfold_locales (rule parse_direction_string)

interpretation family_text: codec Family_String ParseFamily ValidateFamily
  by unfold_locales (rule parse_family_string)

lemma ParseDirection_valid: "ParseDirection s = Inr d \<Longrightarrow> ValidateDirection d"
  by (auto simp: ParseDirection_def ValidateDirection_def split: if_splits)

text \<open>
  Printing a direction or a family and parsing the text gives the value back, parsing only ever
  yields valid values, and a valid value is never printed as the text \<^verbatim>\<open>unknown\<close>.
\<close>

lemma enum_text_roundtrip:
  "(ValidateDirection d \<longrightarrow> ParseDirection (Direction_String d) = Inr d) \<and>
   (ValidateFamily f \<longrightarrow> ParseFamily (Family_String f) = Inr f) \<and>
   (ParseDirection s = Inr d' \<longrightarrow> ValidateDirection d') \<and>
   (ParseFamily s = Inr f' \<longrightarrow> ValidateFamily f') \<and>
   (Direction_String d = ''unknown'' \<longleftrightarrow> \<not> ValidateDirection d) \<and>
   (Family_String f = ''unknown'' \<longleftrightarrow> \<not> ValidateFamily f)"
proof (intro conjI impI)
  show "ParseFamily s = Inr f' \<Longrightarrow> ValidateFamily f'"
    by (auto simp: ParseFamily_def ValidateFamily_def split: if_splits)
  show "Direction_String d = ''unknown'' \<longleftrightarrow> \<not> ValidateDirection d"
    by (auto simp: Direction_String_def ValidateDirection_def)
  show "Family_String f = ''unknown'' \<longleftrightarrow> \<not> ValidateFamily f"
    by (auto simp: Family_String_def ValidateFamily_def)
qed (simp_all add: parse_direction_string parse_family_string ParseDirection_valid)

section \<open>The transition relation\<close>

lemma canTransition_cases:
  "canTransition s t \<longleftrightarrow>
     (s, t) \<in> {(StateIdle, StatePreparing),
       (StatePreparing, StateReady), (StatePreparing, StateCancelled), (StatePreparing, StateFailed),
       (StateReady, StateRunning), (StateReady, StateCancelled),
       (StateRunning, StateCollecting), (StateRunning, StateCancelled),
       (StateCollecting, StateCompleted), (StateCollecting, StateFailed),
       (StateCompleted, StateIdle), (StateFailed, StateIdle), (StateCancelled, StateIdle)}"
  by (cases s; cases t) (simp_all add: canTransition_def transitions_def)

lemmas state_class_defs = IsTerminal_def IsActive_def ResetAllowed_def

text \<open>How far a state is along the life of one session.\<close>

fun state_rank :: "SessionState \<Rightarrow> nat" where
  "state_rank StateIdle = 0"
| "state_rank StatePreparing = 1"
| "state_rank StateReady = 2"
| "state_rank StateRunning = 3"
| "state_rank StateCollecting = 4"
| "state_rank _ = 5"

lemma transition_rank: "canTransition s t \<Longrightarrow> t \<noteq> StateIdle \<Longrightarrow> state_rank s < state_rank t"
  by (cases s; cases t) (simp_all add: canTransition_def transitions_def)

lemma state_rank_le: "state_rank s \<le> 5"
  by (cases s) simp_all

fun transition_path :: "SessionState \<Rightarrow> SessionState list \<Rightarrow> bool" where
  "transition_path s [] = True"
| "transition_path s (t # ts) = (Transition s t = Inr () \<and> transition_path t ts)"

lemma Transition_ok: "Transition s t = Inr () \<longleftrightarrow> canTransition s t"
  by (simp add: Transition_def)

lemma transition_path_rank:
  "transition_path s ts \<Longrightarrow> StateIdle \<notin> set ts \<Longrightarrow> state_rank s + length ts \<le> 5"
proof (induction ts arbitrary: s)
  case Nil
  then show ?case by (simp add: state_rank_le)
next
  case (Cons t ts)
  then have "state_rank s < state_rank t" "state_rank t + length ts \<le> 5"
    by (auto simp: Transition_ok intro: transition_rank)
  then show ?case by simp
qed

text \<open>
  A session's life is bounded: from any state, a sequence of accepted transitions that is not
  reset to idle has at most five members, so the state machine has no cycle that avoids
  \<^verbatim>\<open>StateIdle\<close>; and from idle the only way on is to preparing.
\<close>

lemma lifecycle_bounded:
  assumes "transition_path s ts" and "StateIdle \<notin> set ts"
  shows "state_rank s + length ts \<le> 5 \<and> (s = StateIdle \<and> ts \<noteq> [] \<longrightarrow> hd ts = StatePreparing)"
proof -
  have "s = StateIdle \<Longrightarrow> ts \<noteq> [] \<Longrightarrow> hd ts = StatePreparing"
    using assms(1) by (cases ts) (auto simp: Transition_ok canTransition_cases)
  with transition_path_rank [OF assms] show ?thesis by blast
qed

text \<open>
  The three classifications of a state agree with the transition table: exactly the terminal
  states may be reset, and reset is their only move; every state is idle, active or terminal and
  only one of them; and the active states are those one accepted transition can end.
\<close>

lemma state_classes_agree:
  "(ResetAllowed s \<longleftrightarrow> canTransition s StateIdle) \<and>
   (IsTerminal s \<longleftrightarrow> {t. Transition s t = Inr ()} = {StateIdle}) \<and>
   ((s = StateIdle) \<noteq> (IsActive s \<noteq> IsTerminal s)) \<and>
   (IsActive s \<longleftrightarrow> (\<exists>t. IsTerminal t \<and> Transition s t = Inr ()))"
  by (cases s) (auto simp: state_class_defs Transition_ok canTransition_cases)

end
