(* ===== verification/ProbeHeader.thy ===== *)
theory ProbeHeader
  imports Protocol
begin

text \<open>
  \<^verbatim>\<open>internal/protocol/probe_header.go\<close>: the 48-byte header of a UDP probe, its big-endian
  encoding (\<^verbatim>\<open>encoding/binary\<close>), its decoder and its validation. The two blank fields of the
  struct are never written or read and have no counterpart in the record; the bytes they
  would occupy stay zero in the encoding.
\<close>

unbundle bit_operations_syntax

section \<open>Big-endian fields\<close>

definition PutUint16 :: "16 word \<Rightarrow> bytes" where
  "PutUint16 v = [ucast (drop_bit 8 v), ucast v]"

definition PutUint32 :: "32 word \<Rightarrow> bytes" where
  "PutUint32 v = [ucast (drop_bit 24 v), ucast (drop_bit 16 v), ucast (drop_bit 8 v), ucast v]"

definition PutUint64 :: "64 word \<Rightarrow> bytes" where
  "PutUint64 v =
     [ucast (drop_bit 56 v), ucast (drop_bit 48 v), ucast (drop_bit 40 v), ucast (drop_bit 32 v),
      ucast (drop_bit 24 v), ucast (drop_bit 16 v), ucast (drop_bit 8 v), ucast v]"

definition Uint16 :: "bytes \<Rightarrow> 16 word" where
  "Uint16 b = ucast (b ! 1) OR push_bit 8 (ucast (b ! 0))"

definition Uint32 :: "bytes \<Rightarrow> 32 word" where
  "Uint32 b =
     ucast (b ! 3) OR push_bit 8 (ucast (b ! 2)) OR push_bit 16 (ucast (b ! 1)) OR
     push_bit 24 (ucast (b ! 0))"

definition Uint64 :: "bytes \<Rightarrow> 64 word" where
  "Uint64 b =
     ucast (b ! 7) OR push_bit 8 (ucast (b ! 6)) OR push_bit 16 (ucast (b ! 5)) OR
     push_bit 24 (ucast (b ! 4)) OR push_bit 32 (ucast (b ! 3)) OR push_bit 40 (ucast (b ! 2)) OR
     push_bit 48 (ucast (b ! 1)) OR push_bit 56 (ucast (b ! 0))"

text \<open>\<open>slice lo hi b\<close> is \<^verbatim>\<open>b[lo:hi]\<close>; \<open>put_at off bs buf\<close> writes \<open>bs\<close> into \<open>buf\<close> from \<open>off\<close> on.\<close>

definition slice :: "nat \<Rightarrow> nat \<Rightarrow> 'a list \<Rightarrow> 'a list" where
  "slice lo hi b = take (hi - lo) (drop lo b)"

fun put_at :: "nat \<Rightarrow> 'a list \<Rightarrow> 'a list \<Rightarrow> 'a list" where
  "put_at off [] buf = buf"
| "put_at off (b # bs) buf = put_at (off + 1) bs (buf[off := b])"

section \<open>The header\<close>

definition ProbeHeaderVersion :: "8 word" where
  "ProbeHeaderVersion = 1"

definition ProbeHeaderSize :: nat where
  "ProbeHeaderSize = 48"

record ProbeHeader =
  ph_Version :: "8 word"
  ph_SessionID :: "32 word"
  ph_TestID :: "32 word"
  ph_Direction :: "8 word"
  ph_Family :: "8 word"
  ph_UDPPort :: "16 word"
  ph_PayloadSize :: "16 word"
  ph_Sequence :: "32 word"
  ph_SendUnixNano :: goint

definition zero_ProbeHeader :: ProbeHeader where
  "zero_ProbeHeader = \<lparr>ph_Version = 0, ph_SessionID = 0, ph_TestID = 0, ph_Direction = 0,
     ph_Family = 0, ph_UDPPort = 0, ph_PayloadSize = 0, ph_Sequence = 0, ph_SendUnixNano = 0\<rparr>"

datatype header_error =
    NilHeader
  | BufferTooShort nat nat
  | VersionMismatch "8 word" "8 word"
  | InvalidDirection "8 word"
  | InvalidFamily "8 word"

definition ProbeHeader_String :: "ProbeHeader \<Rightarrow> string" where
  "ProbeHeader_String h =
     ''ProbeHeader{v='' @ show_int (uint (ph_Version h)) @
     '' session='' @ show_int (uint (ph_SessionID h)) @
     '' test='' @ show_int (uint (ph_TestID h)) @
     '' dir='' @ Direction_String (uint (ph_Direction h)) @
     '' fam='' @ Family_String (uint (ph_Family h)) @
     '' port='' @ show_int (uint (ph_UDPPort h)) @
     '' size='' @ show_int (uint (ph_PayloadSize h)) @
     '' seq='' @ show_int (uint (ph_Sequence h)) @
     '' nano='' @ show_int (ph_SendUnixNano h) @ ''}''"

text \<open>The receiver of the method is a pointer: \<open>None\<close> is nil.\<close>

definition MarshalBinary :: "ProbeHeader option \<Rightarrow> header_error + bytes" where
  "MarshalBinary p =
     (case p of
        None \<Rightarrow> Inl NilHeader
      | Some h \<Rightarrow>
          let buf = replicate ProbeHeaderSize 0;
              buf = put_at 0 [ph_Version h] buf;
              buf = put_at 4 (PutUint32 (ph_SessionID h)) buf;
              buf = put_at 8 (PutUint32 (ph_TestID h)) buf;
              buf = put_at 12 [ph_Direction h] buf;
              buf = put_at 13 [ph_Family h] buf;
              buf = put_at 14 (PutUint16 (ph_UDPPort h)) buf;
              buf = put_at 16 (PutUint16 (ph_PayloadSize h)) buf;
              buf = put_at 18 (PutUint32 (ph_Sequence h)) buf;
              buf = put_at 22 (PutUint64 (word_of_int (ph_SendUnixNano h))) buf
          in Inr buf)"

definition UnmarshalBinary :: "ProbeHeader \<Rightarrow> bytes \<Rightarrow> header_error + ProbeHeader" where
  "UnmarshalBinary h data =
     (if length data < ProbeHeaderSize then Inl (BufferTooShort (length data) ProbeHeaderSize)
      else Inr (h\<lparr>ph_Version := data ! 0,
                  ph_SessionID := Uint32 (slice 4 8 data),
                  ph_TestID := Uint32 (slice 8 12 data),
                  ph_Direction := data ! 12,
                  ph_Family := data ! 13,
                  ph_UDPPort := Uint16 (slice 14 16 data),
                  ph_PayloadSize := Uint16 (slice 16 18 data),
                  ph_Sequence := Uint32 (slice 18 22 data),
                  ph_SendUnixNano := sint (Uint64 (slice 22 30 data))\<rparr>))"

text \<open>\<open>now\<close> is the value \<^verbatim>\<open>time.Now().UnixNano()\<close> returns at the call.\<close>

definition SetFromParams ::
  "goint \<Rightarrow> ProbeHeader \<Rightarrow> 32 word \<Rightarrow> 32 word \<Rightarrow> Direction \<Rightarrow> Family \<Rightarrow> 16 word \<Rightarrow> 16 word \<Rightarrow> 32 word \<Rightarrow> ProbeHeader"
where
  "SetFromParams now h sessionID testID dir fam port payloadSize seq =
     h\<lparr>ph_Version := ProbeHeaderVersion,
       ph_SessionID := sessionID,
       ph_TestID := testID,
       ph_Direction := to_uint8 dir,
       ph_Family := to_uint8 fam,
       ph_UDPPort := port,
       ph_PayloadSize := payloadSize,
       ph_Sequence := seq,
       ph_SendUnixNano := now\<rparr>"

definition Header_Validate :: "ProbeHeader \<Rightarrow> header_error + unit" where
  "Header_Validate h =
     rbind (guard_err (ph_Version h \<noteq> ProbeHeaderVersion)
              (VersionMismatch (ph_Version h) ProbeHeaderVersion)) (\<lambda>_.
     rbind (guard_err (ph_Direction h \<noteq> to_uint8 DirectionUplink \<and> ph_Direction h \<noteq> to_uint8 DirectionDownlink)
              (InvalidDirection (ph_Direction h))) (\<lambda>_.
     guard_err (ph_Family h \<noteq> to_uint8 FamilyIPv4 \<and> ph_Family h \<noteq> to_uint8 FamilyIPv6)
       (InvalidFamily (ph_Family h))))"

section \<open>Field round trips\<close>

lemma low_byte: "ucast (ucast v :: byte) = take_bit 8 (v :: 'a::len word)"
  by (rule bit_word_eqI) (auto simp: bit_simps)

lemma next_byte:
  fixes v :: "'a::len word"
  shows "take_bit k v OR push_bit k (take_bit 8 (drop_bit k v)) = take_bit (k + 8) v"
proof (rule bit_word_eqI)
  fix n assume "n < LENGTH('a)"
  then show "bit (take_bit k v OR push_bit k (take_bit 8 (drop_bit k v))) n =
      bit (take_bit (k + 8) v) n"
    by (cases "n < k") (auto simp: bit_simps)
qed

lemmas join_bytes = low_byte next_byte [of 8] next_byte [of 16] next_byte [of 24] next_byte [of 32]
  next_byte [of 40] next_byte [of 48] next_byte [of 56]

lemma take_bit_word_full: "LENGTH('a) \<le> k \<Longrightarrow> take_bit k (v :: 'a::len word) = v"
  by (rule bit_word_eqI) (auto simp: bit_simps)

lemma Uint16_Put [simp]: "Uint16 (PutUint16 v) = v"
  by (simp add: Uint16_def PutUint16_def join_bytes take_bit_word_full)

lemma Uint32_Put [simp]: "Uint32 (PutUint32 v) = v"
  by (simp add: Uint32_def PutUint32_def join_bytes take_bit_word_full or.assoc [symmetric])

lemma Uint64_Put [simp]: "Uint64 (PutUint64 v) = v"
  by (simp add: Uint64_def PutUint64_def join_bytes take_bit_word_full or.assoc [symmetric])

lemma byte_bit_beyond [simp]: "8 \<le> k \<Longrightarrow> \<not> bit (b :: byte) (k + n)"
  by (simp add: impossible_bit)

lemma PutUint16_Uint16: "PutUint16 (Uint16 [a, b]) = [a, b]"
  by (auto simp: Uint16_def PutUint16_def intro!: bit_word_eqI) (auto simp: bit_simps)

lemma PutUint32_Uint32: "PutUint32 (Uint32 [a, b, c, d]) = [a, b, c, d]"
  by (auto simp: Uint32_def PutUint32_def intro!: bit_word_eqI) (auto simp: bit_simps)

lemma PutUint64_Uint64:
  "PutUint64 (Uint64 [a, b, c, d, e, f, g, h]) = [a, b, c, d, e, f, g, h]"
  by (auto simp: Uint64_def PutUint64_def intro!: bit_word_eqI) (auto simp: bit_simps)

section \<open>The encoding of a header\<close>

lemma length_Put [simp]:
  "length (PutUint16 v) = 2" "length (PutUint32 w) = 4" "length (PutUint64 x) = 8"
  by (simp_all add: PutUint16_def PutUint32_def PutUint64_def)

definition header_bytes :: "ProbeHeader \<Rightarrow> bytes" where
  "header_bytes h =
     [ph_Version h, 0, 0, 0] @ PutUint32 (ph_SessionID h) @ PutUint32 (ph_TestID h) @
     [ph_Direction h, ph_Family h] @ PutUint16 (ph_UDPPort h) @ PutUint16 (ph_PayloadSize h) @
     PutUint32 (ph_Sequence h) @ PutUint64 (word_of_int (ph_SendUnixNano h)) @ replicate 18 0"

lemma zero_buffers:
  "replicate 48 (0 :: byte) =
     [0, 0, 0, 0, 0, 0, 0, 0, 0, 0, 0, 0, 0, 0, 0, 0, 0, 0, 0, 0, 0, 0, 0, 0,
      0, 0, 0, 0, 0, 0, 0, 0, 0, 0, 0, 0, 0, 0, 0, 0, 0, 0, 0, 0, 0, 0, 0, 0]"
  "replicate 18 (0 :: byte) = [0, 0, 0, 0, 0, 0, 0, 0, 0, 0, 0, 0, 0, 0, 0, 0, 0, 0]"
  by (simp_all add: numeral_eq_Suc)

lemma list_update_numeral: "(x # xs)[numeral k := y] = x # xs[pred_numeral k := y]"
  by (simp add: numeral_eq_Suc)

lemma Marshal_Some: "MarshalBinary (Some h) = Inr (header_bytes h)"
  by (simp add: MarshalBinary_def header_bytes_def ProbeHeaderSize_def zero_buffers
      PutUint16_def PutUint32_def PutUint64_def list_update_numeral)

lemma length_header_bytes [simp]: "length (header_bytes h) = ProbeHeaderSize"
  by (simp add: header_bytes_def ProbeHeaderSize_def)

definition wf_header :: "ProbeHeader \<Rightarrow> bool" where
  "wf_header h = in_int64 (ph_SendUnixNano h)"

lemma sint_word_of_int64: "in_int64 n \<Longrightarrow> sint (word_of_int n :: 64 word) = n"
  by (simp add: sint_sbintrunc' in_int64_def signed_take_bit_int_eq_self)

lemma header_fields:
  "(header_bytes h @ p) ! 0 = ph_Version h"
  "slice 4 8 (header_bytes h @ p) = PutUint32 (ph_SessionID h)"
  "slice 8 12 (header_bytes h @ p) = PutUint32 (ph_TestID h)"
  "(header_bytes h @ p) ! 12 = ph_Direction h"
  "(header_bytes h @ p) ! 13 = ph_Family h"
  "slice 14 16 (header_bytes h @ p) = PutUint16 (ph_UDPPort h)"
  "slice 16 18 (header_bytes h @ p) = PutUint16 (ph_PayloadSize h)"
  "slice 18 22 (header_bytes h @ p) = PutUint32 (ph_Sequence h)"
  "slice 22 30 (header_bytes h @ p) = PutUint64 (word_of_int (ph_SendUnixNano h))"
  by (simp_all add: header_bytes_def slice_def PutUint16_def PutUint32_def PutUint64_def)

lemma Unmarshal_header_bytes:
  "wf_header h \<Longrightarrow> UnmarshalBinary h0 (header_bytes h @ p) = Inr h"
  by (cases h, cases h0)
    (simp add: UnmarshalBinary_def header_fields sint_word_of_int64 wf_header_def)

section \<open>Decoding any buffer\<close>

lemma length_slice [simp]: "hi \<le> length b \<Longrightarrow> length (slice lo hi b) = hi - lo"
  by (simp add: slice_def)

lemma slice_split: "lo \<le> mid \<Longrightarrow> mid \<le> hi \<Longrightarrow> slice lo hi b = slice lo mid b @ slice mid hi b"
  using take_add [of "mid - lo" "hi - mid" "drop lo b"] by (simp add: slice_def)

lemma slice_one: "n < length b \<Longrightarrow> slice n (n + 1) b = [b ! n]"
  by (simp add: slice_def take_Suc_conv_app_nth)

lemma Put_Uint_slices:
  "length b = 2 \<Longrightarrow> PutUint16 (Uint16 b) = b"
  "length b = 4 \<Longrightarrow> PutUint32 (Uint32 b) = b"
  "length b = 8 \<Longrightarrow> PutUint64 (Uint64 b) = b"
  by (auto simp: length_Suc_conv numeral_eq_Suc
      PutUint16_Uint16 PutUint32_Uint32 PutUint64_Uint64)

lemma header_bytes_decoded:
  assumes "ProbeHeaderSize \<le> length data" and "UnmarshalBinary h0 data = Inr h"
  shows "header_bytes h = [data ! 0, 0, 0, 0] @ slice 4 30 data @ replicate 18 0"
proof -
  have len: "48 \<le> length data"
    using assms(1) by (simp add: ProbeHeaderSize_def)
  have "slice 4 30 data = slice 4 8 data @ slice 8 12 data @ [data ! 12, data ! 13] @
      slice 14 16 data @ slice 16 18 data @ slice 18 22 data @ slice 22 30 data"
    using len slice_one [of 12 data] slice_one [of 13 data]
    by (simp add: slice_split [of 4 8 30] slice_split [of 8 12 30] slice_split [of 12 13 30]
        slice_split [of 13 14 30] slice_split [of 14 16 30] slice_split [of 16 18 30]
        slice_split [of 18 22 30])
  with assms len show ?thesis
    by (auto simp: UnmarshalBinary_def header_bytes_def Put_Uint_slices)
qed

lemma Unmarshal_wf: "UnmarshalBinary h0 data = Inr h \<Longrightarrow> wf_header h"
  using sint_ge [of "Uint64 (slice 22 30 data)"] sint_lt [of "Uint64 (slice 22 30 data)"]
  by (auto simp: UnmarshalBinary_def wf_header_def in_int64_def split: if_splits)

interpretation probe_header:
  codec "\<lambda>h. header_bytes h @ payload" "UnmarshalBinary zero_ProbeHeader" wf_header for payload
  by unfold_locales (rule Unmarshal_header_bytes)

section \<open>Validation\<close>

lemma Header_Validate_ok:
  "Header_Validate h = Inr () \<longleftrightarrow>
     ph_Version h = ProbeHeaderVersion \<and> ph_Direction h \<in> {0, 1} \<and> ph_Family h \<in> {0, 1}"
  by (auto simp: Header_Validate_def)

section \<open>Properties\<close>

text \<open>
  C12: a probe header survives the wire: encoding a header gives exactly 48 bytes, and decoding
  those bytes, whatever payload follows them and whatever the target struct held before,
  gives the header back.
\<close>

theorem probe_header_roundtrip:
  assumes "wf_header h"
  shows "\<exists>b. MarshalBinary (Some h) = Inr b \<and> length b = ProbeHeaderSize \<and>
      UnmarshalBinary h0 (b @ payload) = Inr h"
  using assms by (simp add: Marshal_Some Unmarshal_header_bytes)

theorem probe_header_roundtrip_witness:
  "\<exists>b. MarshalBinary (Some (zero_ProbeHeader\<lparr>ph_SendUnixNano := -5, ph_Sequence := 7\<rparr>)) = Inr b \<and>
     length b = ProbeHeaderSize \<and>
     UnmarshalBinary zero_ProbeHeader (b @ [1, 2]) =
       Inr (zero_ProbeHeader\<lparr>ph_SendUnixNano := -5, ph_Sequence := 7\<rparr>)"
  by (rule probe_header_roundtrip) (simp add: wf_header_def in_int64_def)

text \<open>
  Decoding is total on buffers of at least 48 bytes and fails with the length error on shorter
  ones; encoding what was decoded reproduces the buffer's field bytes (0 and 4 to 29), with the
  reserved bytes set to zero.
\<close>

lemma probe_header_decode_encode:
  "if length data < ProbeHeaderSize
   then UnmarshalBinary h0 data = Inl (BufferTooShort (length data) ProbeHeaderSize)
   else \<exists>h. UnmarshalBinary h0 data = Inr h \<and> wf_header h \<and>
      MarshalBinary (Some h) = Inr ([data ! 0, 0, 0, 0] @ slice 4 30 data @ replicate 18 0)"
proof (cases "length data < ProbeHeaderSize")
  case True
  then show ?thesis by (simp add: UnmarshalBinary_def)
next
  case False
  then obtain h where h: "UnmarshalBinary h0 data = Inr h"
    by (simp add: UnmarshalBinary_def)
  with False show ?thesis
    using header_bytes_decoded [of data h0 h] Unmarshal_wf [OF h] by (simp add: Marshal_Some)
qed

text \<open>
  A header filled by \<^verbatim>\<open>SetFromParams\<close> passes \<^verbatim>\<open>Validate\<close> exactly when the low bytes of the direction
  and the family are those of uplink or downlink and of IPv4 or IPv6, and the first failing
  check decides the error: in particular a sweep direction \<^verbatim>\<open>both\<close> never produces a valid probe.
\<close>

lemma set_from_params_validate:
  "Header_Validate (SetFromParams now h sid tid dir fam port psize seq) =
     (if dir mod 256 \<noteq> 0 \<and> dir mod 256 \<noteq> 1 then Inl (InvalidDirection (to_uint8 dir))
      else if fam mod 256 \<noteq> 0 \<and> fam mod 256 \<noteq> 1 then Inl (InvalidFamily (to_uint8 fam))
      else Inr ())"
proof -
  have eq: "(to_uint8 n = to_uint8 k) = (n mod 256 = k mod 256)" for n k :: int
    by (simp add: word_of_int_eq_iff take_bit_eq_mod)
  show ?thesis
    using eq [of _ 0] eq [of _ 1]
    by (auto simp: Header_Validate_def SetFromParams_def guard_err_def)
qed

end
