(* ===== verification/NetAddr.thy ===== *)
theory NetAddr
  imports GoText
begin

text \<open>
  The address functions of Go's \<^verbatim>\<open>net\<close> package that the program calls on user input and on
  addresses it builds itself: \<^verbatim>\<open>net.ParseIP\<close> with \<^verbatim>\<open>IP.To4\<close> and \<^verbatim>\<open>IP.To16\<close>, \<^verbatim>\<open>net.SplitHostPort\<close> and
  \<^verbatim>\<open>net.JoinHostPort\<close>. An \<^verbatim>\<open>IP\<close> is its byte slice; \<^verbatim>\<open>net.ParseIP\<close> returns the 16-byte form.
\<close>

section \<open>ParseIP\<close>

text \<open>
  The scan of a dotted quad. \<open>atstart\<close> says that the previous byte was a dot or that there is
  none; \<open>val\<close> and \<open>digLen\<close> are the current octet and its number of digits, \<open>fs\<close> the finished octets.
\<close>

fun ipv4_loop :: "bool \<Rightarrow> nat \<Rightarrow> nat \<Rightarrow> nat list \<Rightarrow> string \<Rightarrow> nat list option" where
  "ipv4_loop atstart val digLen fs [] = (if length fs < 3 then None else Some (fs @ [val]))"
| "ipv4_loop atstart val digLen fs (c # cs) =
     (case digit_val c of
        Some d \<Rightarrow>
          if digLen = 1 \<and> val = 0 then None
          else if 255 < val * 10 + d then None
          else ipv4_loop False (val * 10 + d) (digLen + 1) fs cs
      | None \<Rightarrow>
          if c = CHR ''.'' then
            (if atstart \<or> cs = [] then None
             else if length fs = 3 then None
             else ipv4_loop True 0 0 (fs @ [val]) cs)
          else None)"

definition parseIPv4Fields :: "string \<Rightarrow> nat list option" where
  "parseIPv4Fields s = ipv4_loop True 0 0 [] s"

definition hex_val :: "char \<Rightarrow> nat option" where
  "hex_val c =
     (let k = of_char c :: nat in
      if 48 \<le> k \<and> k \<le> 57 then Some (k - 48)
      else if 97 \<le> k \<and> k \<le> 102 then Some (k - 97 + 10)
      else if 65 \<le> k \<and> k \<le> 70 then Some (k - 65 + 10)
      else None)"

text \<open>One hexadecimal group: number of digits, value and the rest, or failure.\<close>

fun hex_group :: "nat \<Rightarrow> nat \<Rightarrow> string \<Rightarrow> (nat \<times> nat \<times> string) option" where
  "hex_group off acc [] = Some (off, acc, [])"
| "hex_group off acc (c # cs) =
     (case hex_val c of
        None \<Rightarrow> Some (off, acc, c # cs)
      | Some d \<Rightarrow>
          if 3 < off then None
          else if 65535 < acc * 16 + d then None
          else hex_group (off + 1) (acc * 16 + d) cs)"

function ipv6_loop :: "nat list \<Rightarrow> nat option \<Rightarrow> string \<Rightarrow> (nat list \<times> nat option \<times> string) option" where
  "ipv6_loop ip ell s =
     (if 16 \<le> length ip then Some (ip, ell, s)
      else case hex_group 0 0 s of
        None \<Rightarrow> None
      | Some (off, acc, r) \<Rightarrow>
          if off = 0 then None
          else if r \<noteq> [] \<and> hd r = CHR ''.'' then
            (if ell = None \<and> length ip \<noteq> 12 then None
             else if 16 < length ip + 4 then None
             else case parseIPv4Fields s of
               None \<Rightarrow> None
             | Some fs \<Rightarrow> Some (ip @ fs, ell, []))
          else
            let ip' = ip @ [acc div 256, acc mod 256] in
            case r of
              [] \<Rightarrow> Some (ip', ell, [])
            | c # r1 \<Rightarrow>
                if c \<noteq> CHR '':'' then None
                else if r1 = [] then None
                else if hd r1 = CHR '':'' then
                  (if ell \<noteq> None then None
                   else if tl r1 = [] then Some (ip', Some (length ip'), [])
                   else ipv6_loop ip' (Some (length ip')) (tl r1))
                else ipv6_loop ip' ell r1)"
  by pat_completeness auto
termination
  by (relation "measure (\<lambda>(ip, ell, s). 16 - length ip)") auto

declare ipv6_loop.simps [simp del]

text \<open>
  A zone (\<^verbatim>\<open>%\<close>) makes \<^verbatim>\<open>net.ParseIP\<close> fail whatever follows it, so it is refused at once.
\<close>

definition parseIPv6 :: "string \<Rightarrow> nat list option" where
  "parseIPv6 inp =
     (if CHR ''%'' \<in> set inp then None
      else
        let lead = (take 2 inp = ''::'');
            ell0 = (if lead then Some 0 else None);
            s = (if lead then drop 2 inp else inp)
        in if lead \<and> s = [] then Some (replicate 16 0)
           else case ipv6_loop [] ell0 s of
             None \<Rightarrow> None
           | Some (ip, ell, rest) \<Rightarrow>
               if rest \<noteq> [] then None
               else if length ip < 16 then
                 (case ell of
                    None \<Rightarrow> None
                  | Some e \<Rightarrow> Some (take e ip @ replicate (16 - length ip) 0 @ drop e ip))
               else if ell \<noteq> None then None
               else Some ip)"

definition v4InV6Prefix :: bytes where
  "v4InV6Prefix = replicate 10 0 @ [255, 255]"

definition ParseIP :: "string \<Rightarrow> bytes option" where
  "ParseIP s =
     (case find (\<lambda>c. c = CHR ''.'' \<or> c = CHR '':'' \<or> c = CHR ''%'') s of
        None \<Rightarrow> None
      | Some c \<Rightarrow>
          if c = CHR ''.'' then map_option (\<lambda>fs. v4InV6Prefix @ map of_nat fs) (parseIPv4Fields s)
          else if c = CHR '':'' then map_option (map of_nat) (parseIPv6 s)
          else None)"

definition To4 :: "bytes \<Rightarrow> bytes option" where
  "To4 ip =
     (if length ip = 4 then Some ip
      else if length ip = 16 \<and> take 12 ip = v4InV6Prefix then Some (drop 12 ip)
      else None)"

definition To16 :: "bytes \<Rightarrow> bytes option" where
  "To16 ip =
     (if length ip = 4 then Some (v4InV6Prefix @ ip)
      else if length ip = 16 then Some ip
      else None)"

section \<open>SplitHostPort and JoinHostPort\<close>

datatype addr_error =
    MissingPort | TooManyColons | MissingBracket | UnexpectedOpen | UnexpectedClose

definition index_of :: "char \<Rightarrow> string \<Rightarrow> nat option" where
  "index_of c s = (let k = length (takeWhile (\<lambda>x. x \<noteq> c) s) in if k < length s then Some k else None)"

definition last_index_of :: "char \<Rightarrow> string \<Rightarrow> nat option" where
  "last_index_of c s = map_option (\<lambda>k. length s - 1 - k) (index_of c (rev s))"

definition check_brackets :: "string \<Rightarrow> nat \<Rightarrow> nat \<Rightarrow> nat \<Rightarrow> string \<Rightarrow> addr_error + string \<times> string" where
  "check_brackets hp i j k host =
     (if CHR ''['' \<in> set (drop j hp) then Inl UnexpectedOpen
      else if CHR '']'' \<in> set (drop k hp) then Inl UnexpectedClose
      else Inr (host, drop (i + 1) hp))"

definition SplitHostPort :: "string \<Rightarrow> addr_error + string \<times> string" where
  "SplitHostPort hp =
     (case last_index_of CHR '':'' hp of
        None \<Rightarrow> Inl MissingPort
      | Some i \<Rightarrow>
          if hp ! 0 = CHR ''['' then
            (case index_of CHR '']'' hp of
               None \<Rightarrow> Inl MissingBracket
             | Some e \<Rightarrow>
                 if e + 1 = length hp then Inl MissingPort
                 else if e + 1 = i then check_brackets hp i 1 (e + 1) (take (e - 1) (drop 1 hp))
                 else if hp ! (e + 1) = CHR '':'' then Inl TooManyColons
                 else Inl MissingPort)
          else
            let host = take i hp in
            if CHR '':'' \<in> set host then Inl TooManyColons
            else check_brackets hp i 0 0 host)"

definition JoinHostPort :: "string \<Rightarrow> string \<Rightarrow> string" where
  "JoinHostPort host port =
     (if CHR '':'' \<in> set host then ''['' @ host @ '']:'' @ port else host @ '':'' @ port)"

section \<open>IP.String\<close>

definition hex_digit :: "nat \<Rightarrow> char" where
  "hex_digit d = (if d < 10 then char_of (48 + d) else char_of (87 + d))"

fun show_hex :: "nat \<Rightarrow> string" where
  "show_hex n = (if n < 16 then [hex_digit n] else show_hex (n div 16) @ [hex_digit (n mod 16)])"

declare show_hex.simps [simp del]

text \<open>The eight groups of an IPv6 address, and its longest run of at least two zero groups.\<close>

definition ip_group :: "bytes \<Rightarrow> nat \<Rightarrow> nat" where
  "ip_group ip i = unat (ip ! (2 * i)) * 256 + unat (ip ! (2 * i + 1))"

definition zero_run :: "bytes \<Rightarrow> nat \<Rightarrow> nat" where
  "zero_run ip i = i + length (takeWhile (\<lambda>j. ip_group ip j = 0) [i..<8])"

definition longest_zeros :: "bytes \<Rightarrow> nat \<times> nat" where
  "longest_zeros ip =
     fold (\<lambda>i (a, b). let j = zero_run ip i in if 2 \<le> j - i \<and> b - a < j - i then (i, j) else (a, b)) [0..<8] (255, 255)"

function ipv6_text :: "bytes \<Rightarrow> nat \<Rightarrow> nat \<Rightarrow> nat \<Rightarrow> string" where
  "ipv6_text ip zs ze i =
     (if 8 \<le> i then []
      else if i = zs \<and> zs < ze then
        ''::'' @ (if 8 \<le> ze then [] else show_hex (ip_group ip ze) @ ipv6_text ip zs ze (ze + 1))
      else (if 0 < i then '':'' else []) @ show_hex (ip_group ip i) @ ipv6_text ip zs ze (i + 1))"
  by pat_completeness auto
termination
  by (relation "measure (\<lambda>(ip, zs, ze, i). 8 - i)") auto

declare ipv6_text.simps [simp del]

definition hexString :: "bytes \<Rightarrow> string" where
  "hexString b = concat (map (\<lambda>x. [hex_digit (unat x div 16), hex_digit (unat x mod 16)]) b)"

definition IP_String :: "bytes \<Rightarrow> string" where
  "IP_String ip =
     (if ip = [] then ''<nil>''
      else if length ip \<noteq> 4 \<and> length ip \<noteq> 16 then ''?'' @ hexString ip
      else case To4 ip of
        Some p4 \<Rightarrow> show_nat (unat (p4 ! 0)) @ ''.'' @ show_nat (unat (p4 ! 1)) @ ''.'' @
                   show_nat (unat (p4 ! 2)) @ ''.'' @ show_nat (unat (p4 ! 3))
      | None \<Rightarrow> (case longest_zeros ip of (zs, ze) \<Rightarrow> ipv6_text ip zs ze 0))"

section \<open>Dotted quads\<close>

lemma show_nat_byte:
  assumes "n < 256"
  shows "show_nat n =
     (if n < 10 then [digit_char n]
      else if n < 100 then [digit_char (n div 10), digit_char (n mod 10)]
      else [digit_char (n div 100), digit_char (n div 10 mod 10), digit_char (n mod 10)])"
proof -
  have "n div 10 div 10 = n div 100" "(n div 10 < 10) = (n < 100)" "n div 100 < 10"
    using assms by auto
  then show ?thesis
    by (simp add: show_nat.simps [of n] show_nat.simps [of "n div 10"] show_nat.simps [of "n div 100"])
qed

lemma ipv4_loop_octet:
  assumes "n < 256"
  shows "\<exists>k. ipv4_loop True 0 0 fs (show_nat n @ t) = ipv4_loop False n k fs t"
proof -
  have e: "n div 100 * 10 + n div 10 mod 10 = n div 10" "n div 10 * 10 + n mod 10 = n"
    using div_mult_mod_eq [of "n div 10" 10] div_mult2_eq [of n 10 10] div_mult_mod_eq [of n 10]
    by simp_all
  have "n div 100 < 10" "n div 10 mod 10 < 10" "n mod 10 < 10" "n div 10 < 26"
    using assms by auto
  with e assms show ?thesis
    by (auto simp: show_nat_byte)
qed

definition dotted :: "nat \<Rightarrow> nat \<Rightarrow> nat \<Rightarrow> nat \<Rightarrow> string" where
  "dotted a b c d = show_nat a @ ''.'' @ show_nat b @ ''.'' @ show_nat c @ ''.'' @ show_nat d"

lemma ipv4_loop_dot:
  "t \<noteq> [] \<Longrightarrow> length fs < 3 \<Longrightarrow> ipv4_loop False v k fs (CHR ''.'' # t) = ipv4_loop True 0 0 (fs @ [v]) t"
  by simp

lemma parseIPv4Fields_dotted:
  assumes "a < 256" "b < 256" "c < 256" "d < 256"
  shows "parseIPv4Fields (dotted a b c d) = Some [a, b, c, d]"
proof -
  obtain k where 1: "parseIPv4Fields (dotted a b c d) =
      ipv4_loop False a k [] (CHR ''.'' # show_nat b @ ''.'' @ show_nat c @ ''.'' @ show_nat d)"
    using ipv4_loop_octet [OF assms(1), of "[]" "CHR ''.'' # show_nat b @ ''.'' @ show_nat c @ ''.'' @ show_nat d"]
    by (auto simp: parseIPv4Fields_def dotted_def simp del: ipv4_loop.simps)
  obtain k2 where 2: "ipv4_loop True 0 0 [a] (show_nat b @ ''.'' @ show_nat c @ ''.'' @ show_nat d) =
      ipv4_loop False b k2 [a] (CHR ''.'' # show_nat c @ ''.'' @ show_nat d)"
    using ipv4_loop_octet [OF assms(2), of "[a]" "CHR ''.'' # show_nat c @ ''.'' @ show_nat d"]
    by (auto simp del: ipv4_loop.simps)
  obtain k3 where 3: "ipv4_loop True 0 0 [a, b] (show_nat c @ ''.'' @ show_nat d) =
      ipv4_loop False c k3 [a, b] (CHR ''.'' # show_nat d)"
    using ipv4_loop_octet [OF assms(3), of "[a, b]" "CHR ''.'' # show_nat d"]
    by (auto simp del: ipv4_loop.simps)
  obtain k4 where 4: "ipv4_loop True 0 0 [a, b, c] (show_nat d) = ipv4_loop False d k4 [a, b, c] []"
    using ipv4_loop_octet [OF assms(4), of "[a, b, c]" "[]"] by auto
  from 1 2 3 4 show ?thesis
    by (simp add: ipv4_loop_dot del: ipv4_loop.simps(2))
qed

lemma find_append_none: "(\<And>x. x \<in> set xs \<Longrightarrow> \<not> P x) \<Longrightarrow> find P (xs @ ys) = find P ys"
  by (induction xs) auto

lemma ParseIP_dotted:
  assumes "a < 256" "b < 256" "c < 256" "d < 256"
  shows "ParseIP (dotted a b c d) = Some (v4InV6Prefix @ map of_nat [a, b, c, d])"
proof -
  have "x \<noteq> CHR ''.'' \<and> x \<noteq> CHR '':'' \<and> x \<noteq> CHR ''%''" if "x \<in> set (show_nat a)" for x
    using that show_nat_digits [of a]
    by (auto simp: all_digits_def list_all_iff digit_val_def Let_def split: if_splits)
  then have "find (\<lambda>c. c = CHR ''.'' \<or> c = CHR '':'' \<or> c = CHR ''%'') (dotted a b c d) = Some CHR ''.''"
    unfolding dotted_def by (subst find_append_none) auto
  with parseIPv4Fields_dotted [OF assms] show ?thesis
    by (simp add: ParseIP_def)
qed

lemma ipv4_loop_length: "ipv4_loop st v k fs s = Some r \<Longrightarrow> length fs \<le> 3 \<Longrightarrow> length r = 4"
  by (induction st v k fs s rule: ipv4_loop.induct) (auto split: option.splits if_splits)

lemma ipv6_loop_length: "ipv6_loop ip ell s = Some (ip', ell', r) \<Longrightarrow> even (length ip) \<Longrightarrow>
    length ip \<le> 16 \<Longrightarrow> length ip' \<le> 16"
proof (induction ip ell s rule: ipv6_loop.induct)
  case (1 ip ell s)
  show ?case
  proof (cases "16 \<le> length ip")
    case True
    with 1 show ?thesis by (simp add: ipv6_loop.simps)
  next
    case False
    then have len: "length ip \<le> 14"
      using "1.prems"(2) by presburger
    obtain off acc r where g: "hex_group 0 0 s = Some (off, acc, r)" and off: "off \<noteq> 0"
      using "1.prems"(1) False by (subst (asm) ipv6_loop.simps) (auto split: option.splits if_splits)
    note unf = "1.prems"(1) [unfolded ipv6_loop.simps [of ip ell s], simplified False g off, simplified]
    show ?thesis
    proof (cases "r \<noteq> [] \<and> hd r = CHR ''.''")
      case True
      with unf off show ?thesis
        by (auto simp: parseIPv4Fields_def dest!: ipv4_loop_length split: option.splits if_splits)
    next
      case nodot: False
      show ?thesis
      proof (cases r)
        case Nil
        with unf off len show ?thesis by auto
      next
        case (Cons c r1)
        with unf off nodot len "1.IH" [OF False g refl refl off _ refl Cons] "1.prems"(2)
        show ?thesis
          by (auto simp: Let_def split: if_splits)
      qed
    qed
  qed
qed

lemma parseIPv6_length: "parseIPv6 s = Some ip \<Longrightarrow> length ip = 16"
  by (auto simp: parseIPv6_def Let_def dest!: ipv6_loop_length split: if_splits option.splits prod.splits)

lemma ParseIP_length: "ParseIP s = Some ip \<Longrightarrow> length ip = 16"
  by (auto simp: ParseIP_def parseIPv4Fields_def v4InV6Prefix_def
      dest!: ipv4_loop_length parseIPv6_length split: option.splits if_splits)

section \<open>Host and port\<close>

lemma index_of_append: "c \<notin> set a \<Longrightarrow> index_of c (a @ c # b) = Some (length a)"
proof -
  assume "c \<notin> set a"
  then have "takeWhile (\<lambda>x. x \<noteq> c) a = a"
    by auto
  then show ?thesis
    by (simp add: index_of_def takeWhile_tail)
qed

lemma index_of_none: "c \<notin> set s \<Longrightarrow> index_of c s = None"
proof -
  assume "c \<notin> set s"
  then have all: "takeWhile (\<lambda>x. x \<noteq> c) s = s"
    by auto
  show ?thesis
    unfolding index_of_def Let_def all by simp
qed

lemma last_index_of_append: "c \<notin> set b \<Longrightarrow> last_index_of c (a @ c # b) = Some (length a)"
  using index_of_append [of c "rev b" "rev a"] by (simp add: last_index_of_def)

definition no_brackets :: "string \<Rightarrow> bool" where
  "no_brackets s \<longleftrightarrow> CHR ''['' \<notin> set s \<and> CHR '']'' \<notin> set s"

definition wf_host_port :: "string \<times> string \<Rightarrow> bool" where
  "wf_host_port hp \<longleftrightarrow> no_brackets (fst hp) \<and> no_brackets (snd hp) \<and> CHR '':'' \<notin> set (snd hp)"

lemma SplitHostPort_bracketed:
  assumes "no_brackets h" "no_brackets p" "CHR '':'' \<notin> set p"
  shows "SplitHostPort (''['' @ h @ '']:'' @ p) = Inr (h, p)"
proof -
  let ?hp = "CHR ''['' # h @ CHR '']'' # CHR '':'' # p"
  have "last_index_of CHR '':'' ?hp = Some (length h + 2)"
    using last_index_of_append [OF assms(3), of "CHR ''['' # h @ [CHR '']'']"] by simp
  moreover have "index_of CHR '']'' ?hp = Some (length h + 1)"
    using index_of_append [of "CHR '']''" "CHR ''['' # h"] assms(1) by (simp add: no_brackets_def)
  ultimately show ?thesis
    using assms by (simp add: SplitHostPort_def check_brackets_def no_brackets_def)
qed

lemma SplitHostPort_plain:
  assumes "no_brackets h" "no_brackets p" "CHR '':'' \<notin> set p" "CHR '':'' \<notin> set h"
  shows "SplitHostPort (h @ '':'' @ p) = Inr (h, p)"
proof -
  have "last_index_of CHR '':'' (h @ CHR '':'' # p) = Some (length h)"
    by (rule last_index_of_append [OF assms(3)])
  moreover have "(h @ CHR '':'' # p) ! 0 \<noteq> CHR ''[''"
    using assms(1) by (cases h) (auto simp: no_brackets_def)
  ultimately show ?thesis
    using assms by (simp add: SplitHostPort_def check_brackets_def no_brackets_def)
qed

lemma Split_Join: "wf_host_port (h, p) \<Longrightarrow> SplitHostPort (JoinHostPort h p) = Inr (h, p)"
  using SplitHostPort_bracketed [of h p] SplitHostPort_plain [of h p]
  by (auto simp: wf_host_port_def JoinHostPort_def)

lemma SplitHostPort_no_colon: "CHR '':'' \<notin> set s \<Longrightarrow> SplitHostPort s = Inl MissingPort"
  by (simp add: SplitHostPort_def last_index_of_def index_of_none)

lemma SplitHostPort_colons:
  assumes "no_brackets s" "s = a @ CHR '':'' # b @ CHR '':'' # p" "CHR '':'' \<notin> set p"
  shows "\<exists>e. SplitHostPort s = Inl e"
proof -
  have "last_index_of CHR '':'' s = Some (length (a @ CHR '':'' # b))"
    using last_index_of_append [OF assms(3), of "a @ CHR '':'' # b"] assms(2) by simp
  moreover have "s ! 0 \<noteq> CHR ''[''"
    using assms(1,2) by (cases a) (auto simp: no_brackets_def)
  ultimately show ?thesis
    using assms(2) by (simp add: SplitHostPort_def)
qed

text \<open>Without brackets, a string splits exactly when it has one colon.\<close>

lemma SplitHostPort_unbracketed:
  assumes "no_brackets s"
  shows "(\<exists>hp. SplitHostPort s = Inr hp) \<longleftrightarrow> count_list s CHR '':'' = 1"
proof (cases "CHR '':'' \<in> set s")
  case True
  then obtain a p where s: "s = a @ CHR '':'' # p" and p: "CHR '':'' \<notin> set p"
    using split_list_last by metis
  have cp: "count_list p CHR '':'' = 0"
    using p by simp
  show ?thesis
  proof (cases "CHR '':'' \<in> set a")
    case True
    then obtain c b where "a = c @ CHR '':'' # b"
      using split_list by metis
    with s p cp assms SplitHostPort_colons [of s c b p] show ?thesis
      by auto
  next
    case False
    with s p cp assms SplitHostPort_plain [of a p] show ?thesis
      by (auto simp: no_brackets_def)
  qed
qed (simp add: SplitHostPort_no_colon)

interpretation host_port: codec "\<lambda>(h, p). JoinHostPort h p" SplitHostPort wf_host_port
  by unfold_locales (auto simp: Split_Join)

text \<open>The text of an address has no brackets.\<close>

lemma no_brackets_Cons [simp]:
  "no_brackets (c # s) \<longleftrightarrow> c \<noteq> CHR ''['' \<and> c \<noteq> CHR '']'' \<and> no_brackets s" "no_brackets []"
  by (auto simp: no_brackets_def)

lemma ipv4_loop_chars: "ipv4_loop st val len fs s = Some gs \<Longrightarrow> no_brackets s"
  by (induction st val len fs s arbitrary: gs rule: ipv4_loop.induct) (auto split: option.splits if_splits)

lemma hex_group_chars: "hex_group off acc s = Some (n, v, r) \<Longrightarrow> no_brackets r \<Longrightarrow> no_brackets s"
  by (induction off acc s rule: hex_group.induct) (auto simp: hex_val_def split: option.splits if_splits)

lemma ipv6_loop_chars: "ipv6_loop ip ell s = Some (ip', ell', []) \<Longrightarrow> no_brackets s"
proof (induction ip ell s rule: ipv6_loop.induct)
  case (1 ip ell s)
  from "1.prems" show ?case
    using hex_group_chars [of 0 0 s] "1.IH"
    by (subst (asm) ipv6_loop.simps)
      (fastforce simp: Let_def parseIPv4Fields_def neq_Nil_conv split: if_splits option.splits list.splits prod.splits
        dest: ipv4_loop_chars)
qed

lemma ParseIP_no_brackets: "ParseIP s = Some ip \<Longrightarrow> no_brackets s"
proof -
  have v6: "no_brackets s" if "parseIPv6 s = Some fs" for fs
  proof (cases "take 2 s = ''::''")
    case True
    then have s: "s = CHR '':'' # CHR '':'' # drop 2 s"
      by (metis append_take_drop_id append_Cons append_Nil)
    have "no_brackets (drop 2 s)"
      using that True ipv6_loop_chars [of "[]" "Some 0" "drop 2 s"]
      by (cases "drop 2 s = []") (auto simp: parseIPv6_def split: if_splits option.splits)
    then have "no_brackets (CHR '':'' # CHR '':'' # drop 2 s)"
      by simp
    then show ?thesis
      unfolding s [symmetric] .
  next
    case False
    then show ?thesis
      using that ipv6_loop_chars [of "[]" None s] by (auto simp: parseIPv6_def split: if_splits option.splits)
  qed
  show "ParseIP s = Some ip \<Longrightarrow> no_brackets s"
    using v6 by (auto simp: ParseIP_def parseIPv4Fields_def split: option.splits if_splits dest: ipv4_loop_chars)
qed

section \<open>The text of an address\<close>

definition plain_char :: "char \<Rightarrow> bool" where
  "plain_char c \<longleftrightarrow> c \<noteq> CHR ''['' \<and> c \<noteq> CHR '']'' \<and> c \<noteq> CHR '':''"

lemma hex_digit_plain: "d < 16 \<Longrightarrow> plain_char (hex_digit d)"
proof -
  have "list_all (\<lambda>d. plain_char (hex_digit d)) [0..<16]"
    by code_simp
  then show "d < 16 \<Longrightarrow> plain_char (hex_digit d)"
    by (simp add: list_all_iff)
qed

lemma show_hex_plain: "list_all plain_char (show_hex n)"
proof (induction n rule: show_hex.induct)
  case (1 n)
  then show ?case
    by (simp add: show_hex.simps [of n] hex_digit_plain)
qed

lemma digits_plain: "all_digits s \<Longrightarrow> list_all plain_char s"
  by (auto simp: all_digits_def list_all_iff plain_char_def digit_val_def Let_def split: if_splits)

lemma show_nat_plain: "list_all plain_char (show_nat n)"
  using show_nat_digits by (rule digits_plain)

lemma show_int_plain: "list_all plain_char (show_int n)"
  by (simp add: show_int_def show_nat_plain) (simp add: plain_char_def)

lemma plain_no_brackets: "list_all plain_char s \<Longrightarrow> no_brackets s \<and> CHR '':'' \<notin> set s"
  by (auto simp: list_all_iff plain_char_def no_brackets_def)

lemma ipv6_text_no_brackets: "no_brackets (ipv6_text ip zs ze i)"
proof (induction ip zs ze i rule: ipv6_text.induct)
  case (1 ip zs ze i)
  then show ?case
    using plain_no_brackets [OF show_hex_plain] by (simp add: ipv6_text.simps [of ip zs ze i] no_brackets_def)
qed

lemma ipv6_text_colon: "CHR '':'' \<in> set (ipv6_text ip zs ze 0)"
proof (cases "zs = 0 \<and> 0 < ze")
  case True
  then show ?thesis
    by (simp add: ipv6_text.simps [of ip 0 ze 0])
next
  case False
  moreover have "CHR '':'' \<in> set (ipv6_text ip zs ze (Suc 0))"
    by (subst ipv6_text.simps) simp
  ultimately show ?thesis
    by (simp add: ipv6_text.simps [of ip zs ze 0])
qed

lemma byte_div_16: "unat (b :: byte) div 16 < 16"
  using unsigned_less [of b, where 'a = nat] by simp

lemma hexString_no_brackets: "no_brackets (hexString b)"
proof -
  have "list_all plain_char (hexString b)"
    by (induction b) (simp_all add: hexString_def hex_digit_plain byte_div_16)
  then show ?thesis
    using plain_no_brackets by blast
qed

lemma IP_String_v4_plain:
  assumes "To4 ip = Some p4"
  shows "list_all plain_char (IP_String ip)"
proof -
  have "ip \<noteq> []" "length ip = 4 \<or> length ip = 16"
    using assms by (auto simp: To4_def split: if_splits)
  then show ?thesis
    using assms by (auto simp: IP_String_def show_nat_plain) (simp_all add: plain_char_def)
qed

lemma IP_String_no_brackets: "no_brackets (IP_String ip)"
proof (cases "To4 ip")
  case None
  then show ?thesis
    using hexString_no_brackets [of ip] ipv6_text_no_brackets
    by (auto simp: IP_String_def no_brackets_def split: prod.split)
next
  case (Some p4)
  then show ?thesis
    using plain_no_brackets [OF IP_String_v4_plain] by blast
qed

lemma IP_String_v6_colon:
  assumes "To4 ip = None" "length ip = 16"
  shows "CHR '':'' \<in> set (IP_String ip)"
  using assms ipv6_text_colon by (auto simp: IP_String_def case_prod_beta)

end
