(* ===== verification/UdpEngine.thy ===== *)
theory UdpEngine
  imports ProbeHeader NetAddr
begin

text \<open>
  \<^verbatim>\<open>internal/udp\<close>: the probe sender, the probe receiver and the packet statistics.

  What the operating system decides is an argument: whether a socket can be created, what an
  address resolves to, whether a write succeeds, what a read returns and what the clock says.
  A run of the sender is the list of its packets and sleeps; a run of a receive loop consumes
  one event per iteration.
\<close>

section \<open>Configuration and results\<close>

record SenderConfig =
  sc_SessionID :: "32 word"
  sc_TestID :: "32 word"
  sc_Direction :: Direction
  sc_Family :: Family
  sc_TargetAddress :: string
  sc_UDPPort :: "16 word"
  sc_PayloadSize :: "16 word"
  sc_PacketCount :: goint
  sc_Interval :: goint

record SenderResult =
  sr_Sent :: goint
  sr_SequenceStart :: "32 word"
  sr_SequenceEnd :: "32 word"
  sr_Duration :: goint

record ReceiverConfig =
  rc_SessionID :: "32 word"
  rc_TestID :: "32 word"
  rc_Direction :: Direction
  rc_Family :: Family
  rc_ReceiveWindow :: goint

record ReceiverResult =
  rr_Received :: goint
  rr_Matched :: goint
  rr_SequenceMin :: "32 word"
  rr_SequenceMax :: "32 word"
  rr_FirstSeq :: "32 word"
  rr_LastSeq :: "32 word"

record TestParams =
  tp_SessionID :: "32 word"
  tp_TestID :: "32 word"
  tp_Direction :: Direction
  tp_Family :: Family
  tp_TargetAddress :: string
  tp_UDPPort :: "16 word"
  tp_PayloadSize :: "16 word"
  tp_PacketCount :: goint
  tp_IntervalMs :: goint

definition Millisecond :: goint where
  "Millisecond = 1000000"

definition IntervalDuration :: "TestParams \<Rightarrow> goint" where
  "IntervalDuration p = wrap64 (tp_IntervalMs p * Millisecond)"

text \<open>The network name both constructors and \<^verbatim>\<open>Send\<close> choose.\<close>

definition udp_network :: "Family \<Rightarrow> string" where
  "udp_network fam = (if fam = FamilyIPv6 then ''udp6'' else ''udp4'')"

section \<open>The sender\<close>

record Sender =
  s_config :: SenderConfig
  s_open :: bool

datatype udp_error =
    SocketFailed
  | ResolveFailed
  | MarshalFailed header_error
  | WriteFailed
  | ReadFailed

text \<open>\<open>listen network address\<close> says whether \<^verbatim>\<open>net.ListenPacket\<close> succeeds.\<close>

definition NewSender :: "(string \<Rightarrow> string \<Rightarrow> bool) \<Rightarrow> SenderConfig \<Rightarrow> udp_error + Sender" where
  "NewSender listen cfg =
     (if listen (udp_network (sc_Family cfg)) '':0''
      then Inr \<lparr>s_config = cfg, s_open = True\<rparr>
      else Inl SocketFailed)"

definition send_address :: "SenderConfig \<Rightarrow> string" where
  "send_address cfg =
     (case SplitHostPort (sc_TargetAddress cfg) of
        Inl _ \<Rightarrow> JoinHostPort (sc_TargetAddress cfg) (show_int (uint (sc_UDPPort cfg)))
      | Inr _ \<Rightarrow> sc_TargetAddress cfg)"

datatype send_event = Packet bytes | Sleep goint

definition fill_header :: "SenderConfig \<Rightarrow> goint \<Rightarrow> 32 word \<Rightarrow> ProbeHeader \<Rightarrow> ProbeHeader" where
  "fill_header cfg now seq h =
     SetFromParams now h (sc_SessionID cfg) (sc_TestID cfg) (sc_Direction cfg) (sc_Family cfg)
       (sc_UDPPort cfg) (sc_PayloadSize cfg) seq"

text \<open>
  The sending loop from index \<open>i\<close>, with \<open>n\<close> iterations left. \<open>clk i\<close> is the clock at the header
  update of iteration \<open>i\<close> and \<open>wr i\<close> says whether its write succeeds. The result is the last
  sequence number or an error, and the events so far.
\<close>

fun send_loop ::
  "SenderConfig \<Rightarrow> (nat \<Rightarrow> goint) \<Rightarrow> (nat \<Rightarrow> bool) \<Rightarrow> nat \<Rightarrow> nat \<Rightarrow> ProbeHeader \<Rightarrow> bytes \<Rightarrow> 32 word \<Rightarrow>
     send_event list \<Rightarrow> (udp_error + 32 word) \<times> send_event list"
where
  "send_loop cfg clk wr i 0 h buf seq out = (Inr seq, out)"
| "send_loop cfg clk wr i (Suc n) h buf seq out =
     (let seq = of_nat i;
          h = fill_header cfg (clk i) seq h
      in case MarshalBinary (Some h) of
           Inl e \<Rightarrow> (Inl (MarshalFailed e), out)
         | Inr headerBytes \<Rightarrow>
             let buf = put_at 0 headerBytes buf in
             if \<not> wr i then (Inl WriteFailed, out)
             else send_loop cfg clk wr (Suc i) n h buf seq
                    (out @ Packet buf # (if int i < sc_PacketCount cfg - 1 then [Sleep (sc_Interval cfg)] else [])))"

text \<open>
  \<open>resolve network address\<close> says whether \<^verbatim>\<open>net.ResolveUDPAddr\<close> succeeds; \<open>t0\<close> is the clock at the first
  header and \<open>elapsed\<close> what \<^verbatim>\<open>time.Since(start)\<close> returns. Every error closes the socket.
\<close>

definition Send ::
  "(string \<Rightarrow> string \<Rightarrow> bool) \<Rightarrow> goint \<Rightarrow> (nat \<Rightarrow> goint) \<Rightarrow> (nat \<Rightarrow> bool) \<Rightarrow> goint \<Rightarrow> Sender \<Rightarrow>
     (udp_error + SenderResult) \<times> send_event list \<times> Sender"
where
  "Send resolve t0 clk wr elapsed s =
     (let cfg = s_config s in
      if \<not> resolve (udp_network (sc_Family cfg)) (send_address cfg)
      then (Inl ResolveFailed, [], s\<lparr>s_open := False\<rparr>)
      else
        let buf = replicate (ProbeHeaderSize + unat (sc_PayloadSize cfg)) 0;
            h = fill_header cfg t0 0 zero_ProbeHeader
        in case MarshalBinary (Some h) of
             Inl e \<Rightarrow> (Inl (MarshalFailed e), [], s\<lparr>s_open := False\<rparr>)
           | Inr headerBytes \<Rightarrow>
               (case send_loop cfg clk wr 0 (nat (sc_PacketCount cfg)) h (put_at 0 headerBytes buf) 0 [] of
                  (Inl e, out) \<Rightarrow> (Inl e, out, s\<lparr>s_open := False\<rparr>)
                | (Inr seq, out) \<Rightarrow>
                    (Inr \<lparr>sr_Sent = sc_PacketCount cfg, sr_SequenceStart = 0, sr_SequenceEnd = seq,
                          sr_Duration = elapsed\<rparr>, out, s)))"

definition Sender_Close :: "Sender \<Rightarrow> Sender" where
  "Sender_Close s = s\<lparr>s_open := False\<rparr>"

section \<open>The receiver\<close>

record receivedPacket =
  rp_seq :: "32 word"
  rp_recvTime :: goint
  rp_header :: ProbeHeader
  rp_matched :: bool

record Receiver =
  r_config :: ReceiverConfig
  r_received :: "receivedPacket list"
  r_open :: bool

definition NewReceiver :: "(string \<Rightarrow> string \<Rightarrow> bool) \<Rightarrow> ReceiverConfig \<Rightarrow> string \<Rightarrow> udp_error + Receiver" where
  "NewReceiver listen cfg bindAddress =
     (if listen (udp_network (rc_Family cfg)) bindAddress
      then Inr \<lparr>r_config = cfg, r_received = [], r_open = True\<rparr>
      else Inl SocketFailed)"

definition matchesExpected :: "ReceiverConfig \<Rightarrow> ProbeHeader \<Rightarrow> bool" where
  "matchesExpected cfg h =
     (if ph_SessionID h \<noteq> rc_SessionID cfg then False
      else if ph_TestID h \<noteq> rc_TestID cfg then False
      else if ph_Direction h \<noteq> to_uint8 (rc_Direction cfg) then False
      else if ph_Family h \<noteq> to_uint8 (rc_Family cfg) then False
      else True)"

text \<open>The read buffer has 65535 bytes; a longer datagram is cut.\<close>

definition read_buffer :: "bytes \<Rightarrow> bytes" where
  "read_buffer d = take 65535 d"

definition record_datagram :: "Receiver \<Rightarrow> bytes \<Rightarrow> goint \<Rightarrow> Receiver" where
  "record_datagram r d now =
     (let buf = read_buffer d in
      if length buf < ProbeHeaderSize then r
      else case UnmarshalBinary zero_ProbeHeader (take ProbeHeaderSize buf) of
        Inl _ \<Rightarrow> r
      | Inr h \<Rightarrow>
          (case Header_Validate h of
             Inl _ \<Rightarrow> r
           | Inr _ \<Rightarrow>
               r\<lparr>r_received := r_received r @
                   [\<lparr>rp_seq = ph_Sequence h, rp_recvTime = now, rp_header = h,
                     rp_matched = matchesExpected (r_config r) h\<rparr>]\<rparr>))"

text \<open>
  What one iteration of a receive loop meets: the quit channel closed, the receive window
  elapsed, a read that timed out, a read that failed, or a datagram with its arrival time.
\<close>

datatype recv_event = QuitClosed | WindowElapsed | ReadTimeout | ReadError | Datagram bytes goint

text \<open>\<open>None\<close> as the outcome says that the loop is still running after these events.\<close>

fun Receive :: "Receiver \<Rightarrow> recv_event list \<Rightarrow> (udp_error + unit) option \<times> Receiver" where
  "Receive r [] = (None, r)"
| "Receive r (QuitClosed # es) = (Some (Inr ()), r)"
| "Receive r (WindowElapsed # es) = Receive r es"
| "Receive r (ReadTimeout # es) = Receive r es"
| "Receive r (ReadError # es) = (Some (Inl ReadFailed), r)"
| "Receive r (Datagram d now # es) = Receive (record_datagram r d now) es"

fun Collect :: "Receiver \<Rightarrow> recv_event list \<Rightarrow> (udp_error + unit) option \<times> Receiver" where
  "Collect r [] = (None, r)"
| "Collect r (QuitClosed # es) = (Some (Inr ()), r)"
| "Collect r (WindowElapsed # es) = (Some (Inr ()), r)"
| "Collect r (ReadTimeout # es) = Collect r es"
| "Collect r (ReadError # es) = (Some (Inl ReadFailed), r)"
| "Collect r (Datagram d now # es) = Collect (record_datagram r d now) es"

definition Receiver_Close :: "Receiver \<Rightarrow> Receiver" where
  "Receiver_Close r = r\<lparr>r_open := False\<rparr>"

section \<open>Statistics\<close>

definition zero_ReceiverResult :: ReceiverResult where
  "zero_ReceiverResult = \<lparr>rr_Received = 0, rr_Matched = 0, rr_SequenceMin = 0, rr_SequenceMax = 0,
     rr_FirstSeq = 0, rr_LastSeq = 0\<rparr>"

fun count_packets :: "receivedPacket list \<Rightarrow> ReceiverResult \<Rightarrow> 32 word list \<Rightarrow> ReceiverResult \<times> 32 word list" where
  "count_packets [] res seqs = (res, seqs)"
| "count_packets (p # ps) res seqs =
     (let res = res\<lparr>rr_Received := wrap64 (rr_Received res + 1)\<rparr> in
      if rp_matched p
      then count_packets ps (res\<lparr>rr_Matched := wrap64 (rr_Matched res + 1)\<rparr>) (seqs @ [rp_seq p])
      else count_packets ps res seqs)"

fun min_max_loop :: "32 word list \<Rightarrow> 32 word \<Rightarrow> 32 word \<Rightarrow> 32 word \<times> 32 word" where
  "min_max_loop [] mn mx = (mn, mx)"
| "min_max_loop (s # ss) mn mx =
     min_max_loop ss (if s < mn then s else mn) (if mx < s then s else mx)"

definition Result :: "Receiver \<Rightarrow> ReceiverResult" where
  "Result r =
     (if r_received r = [] then zero_ReceiverResult
      else case count_packets (r_received r) zero_ReceiverResult [] of
        (res, matchedSeqs) \<Rightarrow>
          (case matchedSeqs of
             [] \<Rightarrow> res
           | s0 # rest \<Rightarrow>
               (case min_max_loop rest s0 s0 of
                  (mn, mx) \<Rightarrow>
                    res\<lparr>rr_FirstSeq := s0, rr_LastSeq := last matchedSeqs,
                        rr_SequenceMin := mn, rr_SequenceMax := mx\<rparr>)))"

section \<open>What the sender writes\<close>

lemma put_at_eq:
  "off + length bs \<le> length buf \<Longrightarrow> put_at off bs buf = take off buf @ bs @ drop (off + length bs) buf"
proof (induction off bs buf rule: put_at.induct)
  case (2 off b bs buf)
  then have "off < length buf" by simp
  then have "take (Suc off) (buf[off := b]) = take off buf @ [b]"
    by (simp add: take_Suc_conv_app_nth)
  with 2 show ?case by simp
qed simp

lemma put_header_first:
  "put_at 0 (header_bytes h) (replicate (ProbeHeaderSize + p) 0) = header_bytes h @ replicate p 0"
  by (simp add: put_at_eq)

lemma put_header_again: "put_at 0 (header_bytes h') (header_bytes h @ pay) = header_bytes h' @ pay"
  by (simp add: put_at_eq)

text \<open>The probe of sequence number \<open>k\<close>: its header, then the zero payload.\<close>

definition probe_header_of :: "SenderConfig \<Rightarrow> goint \<Rightarrow> nat \<Rightarrow> ProbeHeader" where
  "probe_header_of cfg now k = fill_header cfg now (of_nat k) zero_ProbeHeader"

definition probe :: "SenderConfig \<Rightarrow> (nat \<Rightarrow> goint) \<Rightarrow> nat \<Rightarrow> bytes" where
  "probe cfg clk k = header_bytes (probe_header_of cfg (clk k) k) @ replicate (unat (sc_PayloadSize cfg)) 0"

lemma fill_header_any: "fill_header cfg now seq h = fill_header cfg now seq zero_ProbeHeader"
  by (cases h) (simp add: fill_header_def SetFromParams_def zero_ProbeHeader_def)

lemma length_probe: "length (probe cfg clk k) = 48 + unat (sc_PayloadSize cfg)"
  by (simp add: probe_def ProbeHeaderSize_def)

fun packets_of :: "send_event list \<Rightarrow> bytes list" where
  "packets_of [] = []"
| "packets_of (Packet b # es) = b # packets_of es"
| "packets_of (Sleep d # es) = packets_of es"

fun sleeps_of :: "send_event list \<Rightarrow> goint list" where
  "sleeps_of [] = []"
| "sleeps_of (Packet b # es) = sleeps_of es"
| "sleeps_of (Sleep d # es) = d # sleeps_of es"

lemma packets_of_append [simp]: "packets_of (xs @ ys) = packets_of xs @ packets_of ys"
  by (induction xs rule: packets_of.induct) simp_all

lemma sleeps_of_append [simp]: "sleeps_of (xs @ ys) = sleeps_of xs @ sleeps_of ys"
  by (induction xs rule: sleeps_of.induct) simp_all

definition step_events :: "SenderConfig \<Rightarrow> (nat \<Rightarrow> goint) \<Rightarrow> nat \<Rightarrow> send_event list" where
  "step_events cfg clk k =
     Packet (probe cfg clk k) # (if int k < sc_PacketCount cfg - 1 then [Sleep (sc_Interval cfg)] else [])"

definition events_upto :: "SenderConfig \<Rightarrow> (nat \<Rightarrow> goint) \<Rightarrow> nat \<Rightarrow> nat \<Rightarrow> send_event list" where
  "events_upto cfg clk i j = concat (map (step_events cfg clk) [i..<j])"

lemma events_upto_Cons: "i < j \<Longrightarrow> events_upto cfg clk i j = step_events cfg clk i @ events_upto cfg clk (Suc i) j"
  by (simp add: events_upto_def upt_conv_Cons)

lemma packets_of_events: "packets_of (events_upto cfg clk i j) = map (probe cfg clk) [i..<j]"
proof -
  have "packets_of (concat (map (step_events cfg clk) ks)) = map (probe cfg clk) ks" for ks
    by (induction ks) (simp_all add: step_events_def)
  then show ?thesis by (simp add: events_upto_def)
qed

lemma sleeps_of_events:
  assumes "int n = sc_PacketCount cfg"
  shows "sleeps_of (events_upto cfg clk 0 n) = replicate (n - 1) (sc_Interval cfg)"
proof -
  have a: "sleeps_of (concat (map (step_events cfg clk) ks)) = replicate (length ks) (sc_Interval cfg)"
    if "\<forall>k\<in>set ks. int k < sc_PacketCount cfg - 1" for ks
    using that by (induction ks) (simp_all add: step_events_def)
  show ?thesis
  proof (cases n)
    case (Suc m)
    have "events_upto cfg clk 0 n = concat (map (step_events cfg clk) [0..<m]) @ step_events cfg clk m"
      by (simp add: events_upto_def Suc)
    then show ?thesis
      using a [of "[0..<m]"] assms Suc by (simp add: step_events_def)
  qed (simp add: events_upto_def)
qed

text \<open>One iteration that succeeds, in terms of the probe.\<close>

lemma send_loop_step:
  assumes "wr i" and "\<exists>h'. buf = header_bytes h' @ replicate (unat (sc_PayloadSize cfg)) 0"
  shows "send_loop cfg clk wr i (Suc n) h buf seq out =
     send_loop cfg clk wr (Suc i) n (probe_header_of cfg (clk i) i) (probe cfg clk i) (of_nat i)
       (out @ step_events cfg clk i)"
  using assms fill_header_any [of cfg "clk i" "of_nat i" h]
  by (auto simp: Let_def Marshal_Some put_header_again probe_def probe_header_of_def step_events_def)

lemma probe_shape: "\<exists>h'. probe cfg clk i = header_bytes h' @ replicate (unat (sc_PayloadSize cfg)) 0"
  by (auto simp: probe_def)

lemma send_loop_ok:
  assumes "\<forall>k. i \<le> k \<and> k < i + n \<longrightarrow> wr k"
    and "\<exists>h'. buf = header_bytes h' @ replicate (unat (sc_PayloadSize cfg)) 0"
  shows "send_loop cfg clk wr i n h buf seq out =
     (Inr (if n = 0 then seq else of_nat (i + n - 1)), out @ events_upto cfg clk i (i + n))"
  using assms
proof (induction n arbitrary: i h buf seq out)
  case 0
  then show ?case by (simp add: events_upto_def)
next
  case (Suc n)
  then show ?case
    using Suc.IH [of "Suc i" "probe cfg clk i" "probe_header_of cfg (clk i) i" "of_nat i"]
    by (simp add: send_loop_step probe_shape events_upto_Cons del: send_loop.simps)
qed

lemma send_loop_fails:
  assumes "i \<le> k" "k < i + n" "\<not> wr k" "\<forall>j. i \<le> j \<and> j < k \<longrightarrow> wr j"
    and "\<exists>h'. buf = header_bytes h' @ replicate (unat (sc_PayloadSize cfg)) 0"
  shows "send_loop cfg clk wr i n h buf seq out = (Inl WriteFailed, out @ events_upto cfg clk i k)"
  using assms
proof (induction n arbitrary: i h buf seq out)
  case (Suc n)
  show ?case
  proof (cases "i = k")
    case True
    with Suc.prems show ?thesis
      by (auto simp: Let_def Marshal_Some events_upto_def)
  next
    case False
    with Suc.prems have wr: "wr i" and ik: "Suc i \<le> k" "i < k" by auto
    have "send_loop cfg clk wr i (Suc n) h buf seq out =
        send_loop cfg clk wr (Suc i) n (probe_header_of cfg (clk i) i) (probe cfg clk i) (of_nat i)
          (out @ step_events cfg clk i)"
      using wr Suc.prems(5) by (intro send_loop_step)
    also have "\<dots> = (Inl WriteFailed, (out @ step_events cfg clk i) @ events_upto cfg clk (Suc i) k)"
      using Suc.prems ik by (intro Suc.IH probe_shape) auto
    finally show ?thesis
      using ik by (simp add: events_upto_Cons)
  qed
qed simp

section \<open>What the receiver records\<close>

text \<open>The entry a datagram leaves, if it leaves one.\<close>

definition accept :: "ReceiverConfig \<Rightarrow> bytes \<Rightarrow> goint \<Rightarrow> receivedPacket option" where
  "accept cfg d now =
     (if length d < ProbeHeaderSize then None
      else case UnmarshalBinary zero_ProbeHeader (take ProbeHeaderSize d) of
        Inl _ \<Rightarrow> None
      | Inr h \<Rightarrow>
          if Header_Validate h = Inr ()
          then Some \<lparr>rp_seq = ph_Sequence h, rp_recvTime = now, rp_header = h, rp_matched = matchesExpected cfg h\<rparr>
          else None)"

definition option_list :: "'a option \<Rightarrow> 'a list" where
  "option_list p = (case p of None \<Rightarrow> [] | Some x \<Rightarrow> [x])"

lemma record_datagram_eq:
  "record_datagram r d now = r\<lparr>r_received := r_received r @ option_list (accept (r_config r) d now)\<rparr>"
proof -
  have len: "length (read_buffer d) < ProbeHeaderSize \<longleftrightarrow> length d < ProbeHeaderSize"
    by (auto simp: read_buffer_def ProbeHeaderSize_def)
  have tk: "take ProbeHeaderSize (read_buffer d) = take ProbeHeaderSize d"
    by (simp add: read_buffer_def ProbeHeaderSize_def min_def)
  show ?thesis
    by (simp add: record_datagram_def accept_def option_list_def Let_def len tk
        split: sum.split)
qed

definition datagrams :: "(bytes \<times> goint) list \<Rightarrow> recv_event list" where
  "datagrams ds = map (\<lambda>(d, t). Datagram d t) ds"

definition recorded :: "ReceiverConfig \<Rightarrow> (bytes \<times> goint) list \<Rightarrow> receivedPacket list" where
  "recorded cfg ds = concat (map (\<lambda>(d, t). option_list (accept cfg d t)) ds)"

text \<open>The datagrams that the loop reads before it ends.\<close>

fun read_before_exit :: "recv_event list \<Rightarrow> (bytes \<times> goint) list" where
  "read_before_exit [] = []"
| "read_before_exit (QuitClosed # es) = []"
| "read_before_exit (ReadError # es) = []"
| "read_before_exit (WindowElapsed # es) = read_before_exit es"
| "read_before_exit (ReadTimeout # es) = read_before_exit es"
| "read_before_exit (Datagram d t # es) = (d, t) # read_before_exit es"

lemma Receive_state:
  "snd (Receive r es) = r\<lparr>r_received := r_received r @ recorded (r_config r) (read_before_exit es)\<rparr>"
  by (induction r es rule: Receive.induct) (simp_all add: recorded_def record_datagram_eq)

lemma Receive_outcome:
  "fst (Receive r es) =
     (case dropWhile (\<lambda>e. e \<noteq> QuitClosed \<and> e \<noteq> ReadError) es of
        [] \<Rightarrow> None
      | e # _ \<Rightarrow> Some (if e = QuitClosed then Inr () else Inl ReadFailed))"
  by (induction r es rule: Receive.induct) simp_all

lemma Collect_Receive: "WindowElapsed \<notin> set es \<Longrightarrow> Collect r es = Receive r es"
  by (induction r es rule: Collect.induct) simp_all

lemma Collect_window: "WindowElapsed \<notin> set es \<Longrightarrow> Collect r (es @ WindowElapsed # fs) = Collect r (es @ QuitClosed # gs)"
  by (induction r es rule: Collect.induct) simp_all

lemma read_before_exit_datagrams [simp]:
  "read_before_exit (datagrams ds @ es) = ds @ read_before_exit es"
  by (induction ds) (auto simp: datagrams_def)

lemma accept_Some:
  assumes "accept cfg d t = Some p"
  shows "Header_Validate (rp_header p) = Inr ()" "rp_matched p = matchesExpected cfg (rp_header p)"
    "UnmarshalBinary zero_ProbeHeader (take ProbeHeaderSize d) = Inr (rp_header p)"
  using assms by (auto simp: accept_def split: sum.splits if_splits)

lemma set_option_list [simp]: "set (option_list p) = set_option p"
  by (cases p) (simp_all add: option_list_def)

lemma in_recorded: "p \<in> set (recorded cfg ds) \<longleftrightarrow> (\<exists>(d, t) \<in> set ds. accept cfg d t = Some p)"
  by (simp add: recorded_def case_prod_beta)

section \<open>Counting\<close>

lemma count_packets_eq:
  "in_int64 (rr_Received res) \<Longrightarrow> in_int64 (rr_Matched res) \<Longrightarrow>
   count_packets ps res seqs =
     (res\<lparr>rr_Received := wrap64 (rr_Received res + int (length ps)),
          rr_Matched := wrap64 (rr_Matched res + int (length (filter rp_matched ps)))\<rparr>,
      seqs @ map rp_seq (filter rp_matched ps))"
proof (induction ps res seqs rule: count_packets.induct)
  case (2 p ps res seqs)
  then show ?case
    by (simp add: Let_def wrap64_add_left add.assoc)
qed simp

lemma min_max_loop_eq: "min_max_loop ss mn mx = (fold min ss mn, fold max ss mx)"
proof (induction ss mn mx rule: min_max_loop.induct)
  case (2 s ss mn mx)
  have "(if s < mn then s else mn) = min s mn" "(if mx < s then s else mx) = max s mx"
    by (auto simp: min_def max_def)
  with 2 show ?case by simp
qed simp

definition matched_seqs :: "Receiver \<Rightarrow> 32 word list" where
  "matched_seqs r = map rp_seq (filter rp_matched (r_received r))"

lemma Result_counts:
  assumes "int (length (r_received r)) < 2 ^ 63"
  shows "rr_Received (Result r) = int (length (r_received r))"
    "rr_Matched (Result r) = int (length (filter rp_matched (r_received r)))"
proof -
  have m: "int (length (filter rp_matched (r_received r))) < 2 ^ 63"
    using assms length_filter_le [of rp_matched "r_received r"] by linarith
  show "rr_Received (Result r) = int (length (r_received r))"
    "rr_Matched (Result r) = int (length (filter rp_matched (r_received r)))"
    using assms m
    by (simp_all add: Result_def zero_ReceiverResult_def count_packets_eq in_int64_def
        split: list.splits prod.splits)
qed

lemma Result_seqs:
  assumes "matched_seqs r \<noteq> []"
  shows "rr_SequenceMin (Result r) = Min (set (matched_seqs r))"
    "rr_SequenceMax (Result r) = Max (set (matched_seqs r))"
    "rr_FirstSeq (Result r) = hd (matched_seqs r)"
    "rr_LastSeq (Result r) = last (matched_seqs r)"
proof -
  obtain s0 rest where ms: "matched_seqs r = s0 # rest"
    using assms by (cases "matched_seqs r") auto
  then have ne: "r_received r \<noteq> []"
    by (auto simp: matched_seqs_def)
  obtain res where res: "count_packets (r_received r) zero_ReceiverResult [] = (res, s0 # rest)"
    using ms by (simp add: count_packets_eq zero_ReceiverResult_def matched_seqs_def)
  show "rr_SequenceMin (Result r) = Min (set (matched_seqs r))"
    "rr_SequenceMax (Result r) = Max (set (matched_seqs r))"
    using ne by (simp_all add: Result_def ms res min_max_loop_eq Min.set_eq_fold Max.set_eq_fold del: list.set)
  show "rr_FirstSeq (Result r) = hd (matched_seqs r)"
    "rr_LastSeq (Result r) = last (matched_seqs r)"
    using ne by (simp_all add: Result_def ms res min_max_loop_eq)
qed

section \<open>Properties\<close>

lemma Send_resolved:
  assumes "resolve (udp_network (sc_Family (s_config s))) (send_address (s_config s))"
  shows "Send resolve t0 clk wr elapsed s =
     (case send_loop (s_config s) clk wr 0 (nat (sc_PacketCount (s_config s)))
             (fill_header (s_config s) t0 0 zero_ProbeHeader) (probe (s_config s) (\<lambda>_. t0) 0) 0 [] of
        (Inl e, out) \<Rightarrow> (Inl e, out, s\<lparr>s_open := False\<rparr>)
      | (Inr seq, out) \<Rightarrow>
          (Inr \<lparr>sr_Sent = sc_PacketCount (s_config s), sr_SequenceStart = 0, sr_SequenceEnd = seq,
                sr_Duration = elapsed\<rparr>, out, s))"
  using assms
  by (simp add: Send_def Let_def Marshal_Some put_header_first probe_def probe_header_of_def)

lemma Send_ok:
  assumes "resolve (udp_network (sc_Family (s_config s))) (send_address (s_config s))"
    and "sc_PacketCount (s_config s) = int n" and "0 < n" and "\<forall>k < n. wr k"
  shows "Send resolve t0 clk wr elapsed s =
     (Inr \<lparr>sr_Sent = int n, sr_SequenceStart = 0, sr_SequenceEnd = of_nat (n - 1), sr_Duration = elapsed\<rparr>,
      events_upto (s_config s) clk 0 n, s)"
  using assms by (simp add: Send_resolved send_loop_ok probe_shape)


definition sample_sender :: Sender where
  "sample_sender = \<lparr>s_config = \<lparr>sc_SessionID = 7, sc_TestID = 1, sc_Direction = DirectionUplink,
      sc_Family = FamilyIPv6, sc_TargetAddress = ''::1'', sc_UDPPort = 9, sc_PayloadSize = 4,
      sc_PacketCount = 3, sc_Interval = 20\<rparr>, s_open = True\<rparr>"

lemma show_int_9: "show_int 9 = ''9''"
  by code_simp


text \<open>
  C37: when the k-th write fails, \<^verbatim>\<open>Send\<close> returns the write error after emitting exactly the first k
  probes, and closes the socket; when the target does not resolve, it emits nothing and closes
  the socket.
\<close>

theorem send_failure_closes:
  assumes "k < nat (sc_PacketCount (s_config s))" and "\<not> wr k" and "\<forall>j < k. wr j"
  shows "if resolve (udp_network (sc_Family (s_config s))) (send_address (s_config s))
    then \<exists>events. Send resolve t0 clk wr elapsed s = (Inl WriteFailed, events, s\<lparr>s_open := False\<rparr>) \<and>
           packets_of events = map (probe (s_config s) clk) [0..<k]
    else Send resolve t0 clk wr elapsed s = (Inl ResolveFailed, [], s\<lparr>s_open := False\<rparr>)"
proof (cases "resolve (udp_network (sc_Family (s_config s))) (send_address (s_config s))")
  case True
  with assms show ?thesis
    by (simp add: Send_resolved send_loop_fails [of 0 k] probe_shape packets_of_events)
qed (simp add: Send_def)

theorem send_failure_closes_witness:
  "\<exists>events. Send (\<lambda>n a. True) 5 int (\<lambda>k. k < 2) 60 sample_sender =
       (Inl WriteFailed, events, sample_sender\<lparr>s_open := False\<rparr>) \<and> length (packets_of events) = 2"
proof -
  have "2 < nat (sc_PacketCount (s_config sample_sender))"
    by (simp add: sample_sender_def)
  then show ?thesis
    using send_failure_closes [of 2 sample_sender "\<lambda>k. k < 2" "\<lambda>n a. True" 5 int 60] by fastforce
qed

text \<open>
  The address that \<^verbatim>\<open>Send\<close> resolves: a target written without brackets is used as it is when it
  contains exactly one colon; otherwise (a host name, an IPv4 or a bare IPv6 address) it is
  completed with the configured UDP port, in a form that splits back into exactly that target
  and that port.
\<close>

lemma send_address_target:
  assumes "no_brackets (sc_TargetAddress cfg)"
  shows "if count_list (sc_TargetAddress cfg) CHR '':'' = 1 then send_address cfg = sc_TargetAddress cfg
    else SplitHostPort (send_address cfg) = Inr (sc_TargetAddress cfg, show_int (uint (sc_UDPPort cfg)))"
proof (cases "count_list (sc_TargetAddress cfg) CHR '':'' = 1")
  case True
  with SplitHostPort_unbracketed [OF assms] show ?thesis
    by (auto simp: send_address_def)
next
  case False
  with SplitHostPort_unbracketed [OF assms]
  have "\<nexists>hp. SplitHostPort (sc_TargetAddress cfg) = Inr hp"
    by simp
  then obtain e where "SplitHostPort (sc_TargetAddress cfg) = Inl e"
    by (cases "SplitHostPort (sc_TargetAddress cfg)") auto
  moreover have "wf_host_port (sc_TargetAddress cfg, show_int (uint (sc_UDPPort cfg)))"
    using assms show_nat_digits [of "nat (uint (sc_UDPPort cfg))"]
    by (auto simp: wf_host_port_def no_brackets_def show_int_nonneg all_digits_def list_all_iff digit_val_def
        Let_def split: if_splits)
  ultimately show ?thesis
    using False by (simp add: send_address_def Split_Join)
qed

text \<open>
  \<^verbatim>\<open>Collect\<close> is \<^verbatim>\<open>Receive\<close> with the elapsed receive window taken as a second quit signal: for every
  sequence of loop iterations the two return the same result and leave the same receiver.
\<close>

lemma collect_is_windowed_receive:
  "Collect r es = Receive r (map (\<lambda>e. if e = WindowElapsed then QuitClosed else e) es)"
  by (induction r es rule: Collect.induct) simp_all

text \<open>
  What reaches a receiver: a probe of a sender's run, by its index, or any other datagram.
\<close>

datatype arrival = Probe nat goint | Foreign bytes goint

fun arrival_datagram :: "SenderConfig \<Rightarrow> (nat \<Rightarrow> goint) \<Rightarrow> arrival \<Rightarrow> bytes \<times> goint" where
  "arrival_datagram cfg clk (Probe k t) = (probe cfg clk k, t)"
| "arrival_datagram cfg clk (Foreign d t) = (d, t)"

fun probes_in :: "arrival list \<Rightarrow> nat list" where
  "probes_in [] = []"
| "probes_in (Probe k t # as) = k # probes_in as"
| "probes_in (Foreign d t # as) = probes_in as"

definition configs_agree :: "SenderConfig \<Rightarrow> ReceiverConfig \<Rightarrow> bool" where
  "configs_agree s r \<longleftrightarrow> sc_SessionID s = rc_SessionID r \<and> sc_TestID s = rc_TestID r \<and>
     sc_Direction s = rc_Direction r \<and> sc_Family s = rc_Family r \<and>
     sc_Direction s \<in> {DirectionUplink, DirectionDownlink} \<and> sc_Family s \<in> {FamilyIPv4, FamilyIPv6}"

text \<open>A foreign datagram is not a probe of the receiver's test: one of the identifying fields differs.\<close>

fun foreign_ok :: "ReceiverConfig \<Rightarrow> arrival \<Rightarrow> bool" where
  "foreign_ok cfg (Probe k t) = True"
| "foreign_ok cfg (Foreign d t) =
     (case UnmarshalBinary zero_ProbeHeader (take ProbeHeaderSize d) of
        Inl _ \<Rightarrow> True
      | Inr h \<Rightarrow> ph_SessionID h \<noteq> rc_SessionID cfg \<or> ph_TestID h \<noteq> rc_TestID cfg \<or>
          ph_Direction h \<noteq> to_uint8 (rc_Direction cfg) \<or> ph_Family h \<noteq> to_uint8 (rc_Family cfg) \<or>
          ph_Version h \<noteq> ProbeHeaderVersion)"

lemma accept_probe:
  assumes "configs_agree s r" and "in_int64 (clk k)"
  shows "accept r (probe s clk k) t =
     Some \<lparr>rp_seq = of_nat k, rp_recvTime = t, rp_header = probe_header_of s (clk k) k, rp_matched = True\<rparr>"
proof -
  let ?h = "probe_header_of s (clk k) k"
  have wf: "wf_header ?h"
    using assms(2) by (simp add: wf_header_def probe_header_of_def fill_header_def SetFromParams_def)
  have "take ProbeHeaderSize (probe s clk k) = header_bytes ?h"
    by (simp add: probe_def)
  moreover have "UnmarshalBinary zero_ProbeHeader (header_bytes ?h) = Inr ?h"
    using Unmarshal_header_bytes [OF wf, of _ "[]"] by simp
  moreover have "Header_Validate ?h = Inr ()" "matchesExpected r ?h" "ph_Sequence ?h = of_nat k"
    using assms(1)
    by (auto simp: Header_Validate_ok probe_header_of_def fill_header_def SetFromParams_def configs_agree_def
        matchesExpected_def)
  ultimately show ?thesis
    by (simp add: accept_def length_probe ProbeHeaderSize_def)
qed

lemma accept_foreign: "foreign_ok r (Foreign d t) \<Longrightarrow> filter rp_matched (option_list (accept r d t)) = []"
  by (auto simp: accept_def option_list_def matchesExpected_def Header_Validate_ok split: sum.splits)

lemma matched_recorded:
  assumes "configs_agree s r" and "\<forall>k. in_int64 (clk k)" and "\<forall>a \<in> set as. foreign_ok r a"
  shows "map rp_seq (filter rp_matched (recorded r (map (arrival_datagram s clk) as))) = map of_nat (probes_in as)"
  using assms(3)
proof (induction as)
  case (Cons a as)
  have "map rp_seq (filter rp_matched (recorded r (map (arrival_datagram s clk) (a # as)))) =
      map rp_seq (filter rp_matched (recorded r [arrival_datagram s clk a])) @ map of_nat (probes_in as)"
    using Cons by (simp add: recorded_def)
  also have "map rp_seq (filter rp_matched (recorded r [arrival_datagram s clk a])) = map of_nat (probes_in [a])"
    using Cons.prems accept_foreign assms(1,2)
    by (cases a) (simp_all add: recorded_def accept_probe option_list_def del: foreign_ok.simps)
  finally show ?case
    by (cases a) simp_all
qed (simp add: recorded_def)

lemma length_recorded: "length (recorded cfg ds) \<le> length ds"
  by (induction ds) (auto simp: recorded_def option_list_def split: option.splits)

text \<open>
  C8: the measurement is exact. A receiver whose session, test, direction and family are those of
  the sender counts as matched exactly the sender's probes that arrive before the loop ends, in
  whatever order, with repetitions, and mixed with any foreign datagrams, time-outs and probes
  of other tests; the sequence statistics are the minimum, maximum, first and last of their
  sequence numbers.
\<close>

theorem receiver_counts_probes:
  assumes "configs_agree scfg (r_config r)" and "\<forall>k. in_int64 (clk k)"
    and "r_received r = []"
    and "read_before_exit es = map (arrival_datagram scfg clk) as"
    and "\<forall>a \<in> set as. foreign_ok (r_config r) a" and "int (length as) < 2 ^ 63"
  shows "rr_Matched (Result (snd (Receive r es))) = int (length (probes_in as)) \<and>
    rr_Matched (Result (snd (Receive r es))) \<le> rr_Received (Result (snd (Receive r es))) \<and>
    rr_Received (Result (snd (Receive r es))) \<le> int (length as) \<and>
    (probes_in as \<noteq> [] \<longrightarrow>
       rr_SequenceMin (Result (snd (Receive r es))) = Min (of_nat ` set (probes_in as)) \<and>
       rr_SequenceMax (Result (snd (Receive r es))) = Max (of_nat ` set (probes_in as)) \<and>
       rr_FirstSeq (Result (snd (Receive r es))) = of_nat (hd (probes_in as)) \<and>
       rr_LastSeq (Result (snd (Receive r es))) = of_nat (last (probes_in as)))"
proof -
  let ?r = "snd (Receive r es)"
  have rec: "r_received ?r = recorded (r_config r) (map (arrival_datagram scfg clk) as)"
    using assms(3,4) by (simp add: Receive_state)
  have len: "int (length (r_received ?r)) \<le> int (length as)"
    using length_recorded [of "r_config r" "map (arrival_datagram scfg clk) as"] rec by simp
  have seqs: "matched_seqs ?r = map of_nat (probes_in as)"
    using matched_recorded [OF assms(1,2,5)] by (simp add: matched_seqs_def rec)
  then have "length (filter rp_matched (r_received ?r)) = length (probes_in as)"
    by (metis length_map matched_seqs_def)
  then show ?thesis
    using Result_counts [of ?r] Result_seqs [of ?r] length_filter_le [of rp_matched "r_received ?r"] len assms(6)
    by (simp add: seqs hd_map last_map)
qed

definition sample_receiver :: Receiver where
  "sample_receiver = \<lparr>r_config = \<lparr>rc_SessionID = 7, rc_TestID = 1, rc_Direction = DirectionUplink,
      rc_Family = FamilyIPv6, rc_ReceiveWindow = 100\<rparr>, r_received = [], r_open = True\<rparr>"

theorem receiver_counts_probes_witness:
  "rr_Matched (Result (snd (Receive sample_receiver
     [Datagram (probe (s_config sample_sender) (\<lambda>_. 5) 2) 8, ReadTimeout, Datagram [1, 2, 3] 9,
      Datagram (probe (s_config sample_sender) (\<lambda>_. 5) 0) 8, QuitClosed,
      Datagram (probe (s_config sample_sender) (\<lambda>_. 5) 1) 8]))) = 2"
  using receiver_counts_probes [of "s_config sample_sender" sample_receiver "\<lambda>_. 5"
      "[Datagram (probe (s_config sample_sender) (\<lambda>_. 5) 2) 8, ReadTimeout, Datagram [1, 2, 3] 9,
      Datagram (probe (s_config sample_sender) (\<lambda>_. 5) 0) 8, QuitClosed,
      Datagram (probe (s_config sample_sender) (\<lambda>_. 5) 1) 8]"
      "[Probe 2 8, Foreign [1, 2, 3] 9, Probe 0 8]"]
  by (simp add: sample_sender_def sample_receiver_def configs_agree_def in_int64_def UnmarshalBinary_def
      ProbeHeaderSize_def)

end
