(* ===== verification/GoFloat.thy ===== *)
theory GoFloat
  imports GoText Complex_Main "HOL-Library.Log_Nat"
begin

text \<open>
  Go's \<^verbatim>\<open>float64\<close> as far as the program computes with it: quotients and products of numbers
  converted from \<^verbatim>\<open>int\<close>, and of the constants 100, 1.1 and powers of ten. A value is a sign and a rational
  magnitude, so that a negative zero keeps its sign; every operation rounds the exact
  result to 53 significant bits, ties to even, as IEEE 754 binary64 does. All intermediate
  magnitudes of the program are zero or lie between \<open>2\<^sup>-\<^sup>6\<^sup>5\<close> and \<open>2\<^sup>7\<^sup>1\<close>, far from the
  subnormal and the overflow range, so no exponent limit is modelled; no operation divides by
  zero.
\<close>

section \<open>Rounding\<close>

abbreviation pow2 :: "int \<Rightarrow> rat" where
  "pow2 e \<equiv> 2 powi e"

text \<open>The binary exponent: \<open>2\<^sup>e \<le> x < 2\<^sup>e\<^sup>+\<^sup>1\<close>.\<close>

definition expo :: "rat \<Rightarrow> int" where
  "expo x =
     (let (a, b) = quotient_of x;
          e = int (floorlog 2 (nat a)) - int (floorlog 2 (nat b))
      in if pow2 e \<le> x then e else e - 1)"

text \<open>Round to the nearest integer, ties to even.\<close>

definition rne :: "rat \<Rightarrow> int" where
  "rne y =
     (let f = \<lfloor>y\<rfloor>; d = y - of_int f
      in if d < 1 / 2 then f else if 1 / 2 < d then f + 1 else if even f then f else f + 1)"

definition round53 :: "rat \<Rightarrow> rat" where
  "round53 x = (if x = 0 then 0 else let u = pow2 (expo x - 52) in of_int (rne (x / u)) * u)"

section \<open>Values and operations\<close>

datatype f64 = F64 (f_neg: bool) (f_mag: rat)

definition f_val :: "f64 \<Rightarrow> rat" where
  "f_val x = (if f_neg x then - f_mag x else f_mag x)"

definition f64_of_int :: "int \<Rightarrow> f64" where
  "f64_of_int n = F64 (n < 0) (round53 (of_int \<bar>n\<bar>))"

definition f64_const :: "rat \<Rightarrow> f64" where
  "f64_const q = F64 (q < 0) (round53 \<bar>q\<bar>)"

definition f64_div :: "f64 \<Rightarrow> f64 \<Rightarrow> f64" where
  "f64_div x y = F64 (f_neg x \<noteq> f_neg y) (round53 (f_mag x / f_mag y))"

definition f64_mul :: "f64 \<Rightarrow> f64 \<Rightarrow> f64" where
  "f64_mul x y = F64 (f_neg x \<noteq> f_neg y) (round53 (f_mag x * f_mag y))"

definition f64_ge :: "f64 \<Rightarrow> f64 \<Rightarrow> bool" where
  "f64_ge x y \<longleftrightarrow> f_val y \<le> f_val x"

text \<open>
  Conversion to \<^verbatim>\<open>int64\<close> truncates towards zero; where the truncated value is not an \<^verbatim>\<open>int64\<close>,
  Go leaves the result to the implementation, which is the argument \<open>oor\<close>.
\<close>

definition int64_of_f64 :: "(f64 \<Rightarrow> int) \<Rightarrow> f64 \<Rightarrow> int" where
  "int64_of_f64 oor x =
     (let t = (if f_neg x then - \<lfloor>f_mag x\<rfloor> else \<lfloor>f_mag x\<rfloor>)
      in if in_int64 t then t else wrap64 (oor x))"

text \<open>\<^verbatim>\<open>fmt\<close>'s \<^verbatim>\<open>%.1f\<close>: the exact value rounded to one decimal, ties to even.\<close>

definition fmt_1f :: "f64 \<Rightarrow> string" where
  "fmt_1f x =
     (let t = nat (rne (f_mag x * 10))
      in (if f_neg x then ''-'' else []) @ show_nat (t div 10) @ ''.'' @ show_nat (t mod 10))"

section \<open>The exponent\<close>

lemma pow2_pos [simp]: "0 < pow2 e"
  by simp

lemma pow2_add: "pow2 (i + j) = pow2 i * pow2 j"
  by (simp add: power_int_add)

lemma pow2_mono: "i \<le> j \<Longrightarrow> pow2 i \<le> pow2 j"
  by (simp add: power_int_increasing)

lemma pow2_less_imp: "pow2 i < pow2 j \<Longrightarrow> i < j"
  using pow2_mono [of j i] by (cases "i < j") (auto simp: not_less)

lemma floorlog_rat:
  assumes "0 < (n :: nat)"
  shows "pow2 (int (floorlog 2 n) - 1) \<le> of_nat n" "of_nat n < pow2 (int (floorlog 2 n))"
proof -
  have b: "2 ^ (floorlog 2 n - 1) \<le> n" "n < 2 ^ floorlog 2 n"
    using floorlog_bounds [OF assms, of 2] by auto
  have "floorlog 2 n \<noteq> 0"
    using assms by (simp add: floorlog_def)
  then have "int (floorlog 2 n) - 1 = int (floorlog 2 n - 1)"
    by simp
  moreover have "(2 :: rat) ^ (floorlog 2 n - 1) \<le> of_nat n"
    using b(1) by (metis of_nat_le_iff of_nat_numeral of_nat_power)
  ultimately show "pow2 (int (floorlog 2 n) - 1) \<le> of_nat n"
    by (simp del: of_nat_diff)
  show "of_nat n < pow2 (int (floorlog 2 n))"
    using b(2) by simp
qed

lemma expo_bounds:
  assumes "0 < x"
  shows "pow2 (expo x) \<le> x" "x < pow2 (expo x + 1)"
proof -
  obtain a b where q: "quotient_of x = (a, b)" by fastforce
  have b: "0 < b"
    using q by (rule quotient_of_denom_pos)
  have x: "x = of_int a / of_int b"
    using q by (rule quotient_of_div)
  with assms b have a: "0 < a"
    by (simp add: zero_less_divide_iff)
  define i j where "i = int (floorlog 2 (nat a))" and "j = int (floorlog 2 (nat b))"
  have ai: "pow2 (i - 1) \<le> of_int a" "of_int a < pow2 i"
    using floorlog_rat [of "nat a"] a by (simp_all add: i_def)
  have bj: "pow2 (j - 1) \<le> of_int b" "of_int b < pow2 j"
    using floorlog_rat [of "nat b"] b by (simp_all add: j_def)
  have up: "x < pow2 (i - j + 1)"
  proof -
    have "of_int a < pow2 (i - j + 1) * pow2 (j - 1)"
      using ai(2) by (simp flip: pow2_add)
    also have "\<dots> \<le> pow2 (i - j + 1) * of_int b"
      using bj(1) by (simp add: mult_left_mono)
    finally show ?thesis
      using b by (simp add: x divide_less_eq)
  qed
  have lo: "pow2 (i - j - 1) \<le> x"
  proof -
    have "pow2 (i - j - 1) * of_int b \<le> pow2 (i - j - 1) * pow2 j"
      using bj(2) by (simp add: mult_left_mono)
    also have "\<dots> \<le> of_int a"
      using ai(1) by (simp flip: pow2_add)
    finally show ?thesis
      using b by (simp add: x le_divide_eq)
  qed
  show "pow2 (expo x) \<le> x" "x < pow2 (expo x + 1)"
    using up lo by (auto simp: expo_def q i_def j_def Let_def)
qed

lemma expo_unique:
  assumes "pow2 e \<le> x" "x < pow2 (e + 1)"
  shows "expo x = e"
proof -
  have x: "0 < x"
    using assms(1) pow2_pos less_le_trans by blast
  have "pow2 e < pow2 (expo x + 1)" "pow2 (expo x) < pow2 (e + 1)"
    using expo_bounds [OF x] assms by linarith+
  then have "e < expo x + 1" "expo x < e + 1"
    by (blast dest: pow2_less_imp)+
  then show ?thesis by simp
qed

section \<open>Rounding to an integer\<close>

lemma rne_of_int [simp]: "rne (of_int n) = n"
  by (simp add: rne_def)

lemma rne_error: "\<bar>of_int (rne y) - y\<bar> \<le> 1 / 2"
proof -
  have "of_int \<lfloor>y\<rfloor> \<le> y" "y < of_int \<lfloor>y\<rfloor> + 1"
    by linarith+
  then show ?thesis
    unfolding rne_def Let_def abs_le_iff by (simp split: if_split) linarith
qed

lemma rne_mono: "x \<le> y \<Longrightarrow> rne x \<le> rne y"
proof (cases "\<lfloor>x\<rfloor> = \<lfloor>y\<rfloor>")
  case True
  assume "x \<le> y"
  with True show ?thesis
    by (auto simp: rne_def Let_def)
next
  case False
  assume "x \<le> y"
  then have "\<lfloor>x\<rfloor> \<le> \<lfloor>y\<rfloor>"
    by (rule floor_mono)
  with False have "\<lfloor>x\<rfloor> + 1 \<le> \<lfloor>y\<rfloor>"
    by simp
  moreover have "rne x \<le> \<lfloor>x\<rfloor> + 1" "\<lfloor>y\<rfloor> \<le> rne y"
    by (auto simp: rne_def Let_def)
  ultimately show ?thesis by linarith
qed

lemma rne_le_int: "x \<le> of_int n \<Longrightarrow> rne x \<le> n"
  using rne_mono [of x "of_int n"] by simp

lemma rne_ge_int: "of_int n \<le> x \<Longrightarrow> n \<le> rne x"
  using rne_mono [of "of_int n" x] by simp

lemma rne_unique: "\<bar>y - of_int n\<bar> < 1 / 2 \<Longrightarrow> rne y = n"
proof -
  assume "\<bar>y - of_int n\<bar> < 1 / 2"
  then have "\<bar>of_int (rne y) - (of_int n :: rat)\<bar> < 1"
    using rne_error [of y] by linarith
  then have "\<bar>rne y - n\<bar> < 1"
    by (metis of_int_1_less_iff of_int_abs of_int_diff of_int_less_1_iff)
  then show ?thesis by simp
qed

section \<open>Rounding to 53 bits\<close>

lemma round53_0 [simp]: "round53 0 = 0"
  by (simp add: round53_def)

lemma round53_unit:
  "0 < x \<Longrightarrow> round53 x = of_int (rne (x / pow2 (expo x - 52))) * pow2 (expo x - 52)"
  by (simp add: round53_def Let_def)

lemma pow2_52: "pow2 (e - 52) * 4503599627370496 = pow2 e"
  using pow2_add [of "e - 52" 52] by simp

lemma scaled_bounds:
  assumes "0 < x"
  shows "of_int 4503599627370496 \<le> x / pow2 (expo x - 52)"
    "x / pow2 (expo x - 52) \<le> of_int 9007199254740992"
proof -
  have "pow2 (expo x + 1) = pow2 (expo x - 52) * 9007199254740992"
    using pow2_52 [of "expo x"] pow2_add [of "expo x" 1] by simp
  with expo_bounds [OF assms] pow2_52 [of "expo x"]
  show "of_int 4503599627370496 \<le> x / pow2 (expo x - 52)"
    "x / pow2 (expo x - 52) \<le> of_int 9007199254740992"
    by (simp_all add: le_divide_eq divide_le_eq mult.commute)
qed

lemma round53_binade:
  assumes "0 < x"
  shows "pow2 (expo x) \<le> round53 x" "round53 x \<le> pow2 (expo x + 1)"
proof -
  let ?u = "pow2 (expo x - 52)"
  have "4503599627370496 \<le> rne (x / ?u)" "rne (x / ?u) \<le> 9007199254740992"
    using scaled_bounds [OF assms] by (blast intro: rne_ge_int rne_le_int)+
  then have lo: "of_int 4503599627370496 * ?u \<le> of_int (rne (x / ?u)) * ?u"
    and hi: "of_int (rne (x / ?u)) * ?u \<le> of_int 9007199254740992 * ?u"
    by (simp_all only: mult_right_mono of_int_le_iff less_imp_le pow2_pos)
  have el: "of_int 4503599627370496 * ?u = pow2 (expo x)"
    using pow2_52 [of "expo x"] by (simp add: mult.commute)
  have eh: "of_int 9007199254740992 * ?u = pow2 (expo x + 1)"
    using pow2_52 [of "expo x"] pow2_add [of "expo x" 1] by simp
  show "pow2 (expo x) \<le> round53 x"
    using lo unfolding el round53_unit [OF assms] .
  show "round53 x \<le> pow2 (expo x + 1)"
    using hi unfolding eh round53_unit [OF assms] .
qed

lemma round53_nonneg: "0 \<le> x \<Longrightarrow> 0 \<le> round53 x"
  using round53_binade(1) [of x] less_le_trans [OF pow2_pos [of "expo x"]]
  by (cases "x = 0") (auto intro: less_imp_le)

lemma round53_mono:
  assumes "0 \<le> x" "x \<le> y"
  shows "round53 x \<le> round53 y"
proof (cases "x = 0")
  case True
  with assms show ?thesis by (simp add: round53_nonneg)
next
  case False
  with assms have pos: "0 < x" "0 < y" by simp_all
  show ?thesis
  proof (cases "expo x = expo y")
    case True
    have "rne (x / pow2 (expo y - 52)) \<le> rne (y / pow2 (expo y - 52))"
      using assms by (intro rne_mono) (simp add: divide_right_mono)
    then show ?thesis
      by (simp add: round53_unit pos True mult_right_mono)
  next
    case False
    have "pow2 (expo x) < pow2 (expo y + 1)"
      using expo_bounds [OF pos(1)] expo_bounds [OF pos(2)] assms(2) by linarith
    then have "expo x + 1 \<le> expo y"
      using False pow2_less_imp by fastforce
    then show ?thesis
      using round53_binade [OF pos(1)] round53_binade [OF pos(2)] pow2_mono by (meson order.trans)
  qed
qed

text \<open>The relative error of one rounding is at most \<open>2\<^sup>-\<^sup>5\<^sup>3\<close>.\<close>

lemma round53_error:
  assumes "0 \<le> x"
  shows "\<bar>round53 x - x\<bar> \<le> x / 9007199254740992"
proof (cases "x = 0")
  case False
  with assms have pos: "0 < x" by simp
  let ?u = "pow2 (expo x - 52)"
  have "round53 x - x = (of_int (rne (x / ?u)) - x / ?u) * ?u"
    by (simp add: round53_unit [OF pos] algebra_simps)
  then have "\<bar>round53 x - x\<bar> = \<bar>of_int (rne (x / ?u)) - x / ?u\<bar> * ?u"
    by (simp add: abs_mult)
  also have "\<dots> \<le> 1 / 2 * ?u"
    by (intro mult_right_mono rne_error) simp
  also have "\<dots> \<le> x / 9007199254740992"
    using expo_bounds(1) [OF pos] pow2_52 [of "expo x"] by simp
  finally show ?thesis .
qed simp

lemma round53_upper: "0 \<le> x \<Longrightarrow> round53 x \<le> x * (9007199254740993 / 9007199254740992)"
  using round53_error [of x] by (simp add: abs_if field_simps split: if_splits)

lemma round53_of_int:
  assumes "0 \<le> n" "n \<le> 9007199254740992"
  shows "round53 (of_int n) = of_int n"
proof (cases "n = 0")
  case False
  with assms have pos: "0 < (of_int n :: rat)" by simp
  let ?e = "expo (of_int n)"
  have "pow2 ?e \<le> pow2 53"
    using expo_bounds(1) [OF pos] assms by (auto intro: order.trans)
  then have e: "?e \<le> 53"
    using power_int_le_imp_le_exp [of "2 :: rat" ?e 53] by simp
  show ?thesis
  proof (cases "?e \<le> 52")
    case True
    then obtain k where k: "?e - 52 = - int k"
      by (metis diff_le_0_iff_le nonpos_int_cases)
    have "of_int n / pow2 (?e - 52) = of_int (n * 2 ^ k)"
      unfolding k by (simp add: power_int_minus divide_inverse)
    then have "rne (of_int n / pow2 (?e - 52)) = n * 2 ^ k"
      by (metis rne_of_int)
    then show ?thesis
      unfolding round53_unit [OF pos] k by (simp add: power_int_minus)
  next
    case False
    with e have "?e = 53" by simp
    with expo_bounds(1) [OF pos] assms have "n = 9007199254740992"
      by simp
    then show ?thesis
      using round53_unit [OF pos] \<open>?e = 53\<close> rne_of_int [of "4503599627370496"] by simp
  qed
qed simp

lemma round53_numeral [simp]:
  "numeral k \<le> (9007199254740992 :: int) \<Longrightarrow> round53 (numeral k) = numeral k"
  using round53_of_int [of "numeral k"] by simp

lemma round53_1 [simp]: "round53 1 = 1"
  using round53_of_int [of 1] by simp

lemma f64_of_int_small:
  "\<bar>n\<bar> \<le> 9007199254740992 \<Longrightarrow> f64_of_int n = F64 (n < 0) (of_int \<bar>n\<bar>)"
  using round53_of_int [of "\<bar>n\<bar>"] by (simp add: f64_of_int_def)

text \<open>A rounding decided by numerals.\<close>

lemma round53_eqI:
  assumes "pow2 e \<le> x" "x < pow2 (e + 1)" "\<bar>x / pow2 (e - 52) - of_int n\<bar> < 1 / 2"
  shows "round53 x = of_int n * pow2 (e - 52)"
proof -
  have "0 < x"
    using assms(1) pow2_pos [of e] by linarith
  then show ?thesis
    using expo_unique [OF assms(1,2)] rne_unique [OF assms(3)] by (simp add: round53_unit)
qed

lemma round53_int_scaled:
  assumes "4503599627370496 \<le> n" "n \<le> 9007199254740992"
  shows "round53 (of_int n * pow2 k) = of_int n * pow2 k"
proof (cases "n = 9007199254740992")
  case True
  have e: "of_int n * pow2 k = pow2 (k + 53)"
    using True by (simp add: pow2_add)
  have "round53 (pow2 (k + 53)) = of_int 4503599627370496 * pow2 (k + 53 - 52)"
    by (rule round53_eqI) (simp_all add: pow2_add power_int_diff)
  then show ?thesis
    by (simp add: e pow2_add power_int_diff)
next
  case False
  then have n: "(4503599627370496 :: rat) \<le> of_int n" "of_int n < (9007199254740992 :: rat)"
    using assms by linarith+
  have "round53 (of_int n * pow2 k) = of_int n * pow2 (k + 52 - 52)"
    by (rule round53_eqI) (use n in \<open>simp_all add: pow2_add\<close>)
  then show ?thesis
    by simp
qed

lemma round53_idem [simp]: "0 \<le> x \<Longrightarrow> round53 (round53 x) = round53 x"
proof (cases "x = 0")
  case False
  assume "0 \<le> x"
  with False have x: "0 < x"
    by simp
  have "4503599627370496 \<le> rne (x / pow2 (expo x - 52))" "rne (x / pow2 (expo x - 52)) \<le> 9007199254740992"
    using rne_ge_int [OF scaled_bounds(1) [OF x]] rne_le_int [OF scaled_bounds(2) [OF x]] by simp_all
  from round53_int_scaled [OF this] show ?thesis
    by (simp add: round53_unit [OF x])
qed simp

end
