(* ===== verification/Messages.thy ===== *)
theory Messages
  imports Protocol GoFloat
begin

text \<open>
  The control messages of \<^verbatim>\<open>internal/protocol/types.go\<close> and their JSON envelope.

  A message struct extends \<^verbatim>\<open>BaseMessage\<close>, which the source embeds, so its record extends the record
  of the base. A JSON text is represented by its syntax tree, in the order of the text and with
  repeated keys; \<open>Marshal\<close> and \<open>Unmarshal\<close> follow the rules of \<^verbatim>\<open>encoding/json\<close> for the field types that
  occur: keys match exactly or else up to case, later keys win, unknown keys and null are
  ignored, and a value of the wrong type is an error.
\<close>

section \<open>Message types\<close>

type_synonym MessageType = int

definition MsgTypeHello :: MessageType where [simp]: "MsgTypeHello = 0"
definition MsgTypePrepare :: MessageType where [simp]: "MsgTypePrepare = 1"
definition MsgTypeStart :: MessageType where [simp]: "MsgTypeStart = 2"
definition MsgTypeSendComplete :: MessageType where [simp]: "MsgTypeSendComplete = 3"
definition MsgTypeFetchResult :: MessageType where [simp]: "MsgTypeFetchResult = 4"
definition MsgTypeCancel :: MessageType where [simp]: "MsgTypeCancel = 5"
definition MsgTypeReady :: MessageType where [simp]: "MsgTypeReady = 6"
definition MsgTypeResult :: MessageType where [simp]: "MsgTypeResult = 7"
definition MsgTypeBusy :: MessageType where [simp]: "MsgTypeBusy = 8"
definition MsgTypeInvalidRequest :: MessageType where [simp]: "MsgTypeInvalidRequest = 9"
definition MsgTypeInternalError :: MessageType where [simp]: "MsgTypeInternalError = 10"

definition MessageType_String :: "MessageType \<Rightarrow> string" where
  "MessageType_String m =
     (if m = MsgTypeHello then ''hello''
      else if m = MsgTypePrepare then ''prepare''
      else if m = MsgTypeReady then ''ready''
      else if m = MsgTypeStart then ''start''
      else if m = MsgTypeSendComplete then ''send_complete''
      else if m = MsgTypeFetchResult then ''fetch_result''
      else if m = MsgTypeResult then ''result''
      else if m = MsgTypeCancel then ''cancel''
      else if m = MsgTypeBusy then ''busy''
      else if m = MsgTypeInvalidRequest then ''invalid_request''
      else if m = MsgTypeInternalError then ''internal_error''
      else ''unknown'')"

definition ProtocolVersion :: goint where [simp]: "ProtocolVersion = 1"

section \<open>Messages\<close>

record BaseMessage =
  bm_Version :: goint
  bm_Type :: MessageType
  bm_SessionID :: string
  bm_TestID :: string
  bm_Sequence :: goint
  bm_Timestamp :: goint

record Hello = BaseMessage +
  h_ClientVersion :: goint
  h_Capability :: "string list"

record Prepare = BaseMessage +
  p_Direction :: Direction
  p_Family :: Family
  p_UDPPort :: goint
  p_PayloadSize :: goint
  p_PacketCount :: goint
  p_IntervalMs :: goint
  p_ClientReceivePort :: goint

type_synonym Start = BaseMessage
type_synonym SendComplete = BaseMessage
type_synonym FetchResult = BaseMessage

record Cancel = BaseMessage +
  c_Reason :: string

record Ready = BaseMessage +
  rd_ServerPort :: goint

record ResultMsg = BaseMessage +
  rm_Sent :: goint
  rm_Received :: goint
  rm_LossRate :: f64
  rm_CriticalSize :: goint

record Busy = BaseMessage +
  b_CurrentSession :: string

record ErrorMsg = BaseMessage +
  e_Code :: ErrorCode
  e_Message :: string

text \<open>\<^verbatim>\<open>InvalidRequest\<close> and \<^verbatim>\<open>InternalError\<close> have the same fields.\<close>

type_synonym InvalidRequest = ErrorMsg
type_synonym InternalError = ErrorMsg

text \<open>The dynamic types that \<^verbatim>\<open>any\<close> holds where the source passes messages.\<close>

datatype message =
    Hello Hello | Prepare Prepare | Start Start | SendComplete SendComplete
  | FetchResult FetchResult | Cancel Cancel | Ready Ready | Result ResultMsg | Busy Busy
  | InvalidRequest InvalidRequest | InternalError InternalError

fun base_of :: "message \<Rightarrow> BaseMessage" where
  "base_of (Hello m) = BaseMessage.truncate m"
| "base_of (Prepare m) = BaseMessage.truncate m"
| "base_of (Start m) = m"
| "base_of (SendComplete m) = m"
| "base_of (FetchResult m) = m"
| "base_of (Cancel m) = BaseMessage.truncate m"
| "base_of (Ready m) = BaseMessage.truncate m"
| "base_of (Result m) = BaseMessage.truncate m"
| "base_of (Busy m) = BaseMessage.truncate m"
| "base_of (InvalidRequest m) = BaseMessage.truncate m"
| "base_of (InternalError m) = BaseMessage.truncate m"

text \<open>The base that every message literal of the source writes; the other fields are zero.\<close>

definition new_base :: "MessageType \<Rightarrow> string \<Rightarrow> BaseMessage" where
  "new_base t sid = \<lparr>bm_Version = ProtocolVersion, bm_Type = t, bm_SessionID = sid, bm_TestID = [],
     bm_Sequence = 0, bm_Timestamp = 0\<rparr>"

section \<open>JSON\<close>

datatype json =
    JNull
  | JBool bool
  | JInt int
  | JFloat f64
  | JStr string
  | JArr "json list"
  | JObj "(string \<times> json) list"

datatype json_error = SyntaxError | TypeError | UnknownType MessageType

text \<open>Marshalling: a field with \<^verbatim>\<open>omitempty\<close> is left out when it has its zero value.\<close>

definition int_field :: "string \<Rightarrow> goint \<Rightarrow> (string \<times> json) list" where
  "int_field k n = [(k, JInt n)]"

definition str_field :: "string \<Rightarrow> string \<Rightarrow> (string \<times> json) list" where
  "str_field k s = [(k, JStr s)]"

text \<open>A float with an integral value below \<open>10\<^sup>2\<^sup>1\<close> is printed as an integer literal.\<close>

definition float_field :: "string \<Rightarrow> f64 \<Rightarrow> (string \<times> json) list" where
  "float_field k x =
     [(k, if f_mag x = of_int \<lfloor>f_mag x\<rfloor> \<and> f_mag x < 10 ^ 21 \<and> x \<noteq> F64 True 0
          then JInt (if f_neg x then - \<lfloor>f_mag x\<rfloor> else \<lfloor>f_mag x\<rfloor>) else JFloat x)]"

definition omit_int :: "string \<Rightarrow> goint \<Rightarrow> (string \<times> json) list" where
  "omit_int k n = (if n = 0 then [] else [(k, JInt n)])"

definition omit_str :: "string \<Rightarrow> string \<Rightarrow> (string \<times> json) list" where
  "omit_str k s = (if s = [] then [] else [(k, JStr s)])"

definition omit_strs :: "string \<Rightarrow> string list \<Rightarrow> (string \<times> json) list" where
  "omit_strs k ss = (if ss = [] then [] else [(k, JArr (map JStr ss))])"

definition base_fields :: "'a BaseMessage_scheme \<Rightarrow> (string \<times> json) list" where
  "base_fields m =
     int_field ''version'' (bm_Version m) @ int_field ''type'' (bm_Type m) @
     str_field ''session_id'' (bm_SessionID m) @ omit_str ''test_id'' (bm_TestID m) @
     int_field ''seq'' (bm_Sequence m) @ omit_int ''send_unix_nano'' (bm_Timestamp m)"

fun Encode :: "message \<Rightarrow> json" where
  "Encode (Hello m) = JObj (base_fields m @ int_field ''client_version'' (h_ClientVersion m) @
     omit_strs ''capability'' (h_Capability m))"
| "Encode (Prepare m) = JObj (base_fields m @ int_field ''direction'' (p_Direction m) @
     int_field ''family'' (p_Family m) @ int_field ''udp_port'' (p_UDPPort m) @
     int_field ''payload_size'' (p_PayloadSize m) @ int_field ''packet_count'' (p_PacketCount m) @
     int_field ''interval_ms'' (p_IntervalMs m) @ omit_int ''client_receive_port'' (p_ClientReceivePort m))"
| "Encode (Start m) = JObj (base_fields m)"
| "Encode (SendComplete m) = JObj (base_fields m)"
| "Encode (FetchResult m) = JObj (base_fields m)"
| "Encode (Cancel m) = JObj (base_fields m @ omit_str ''reason'' (c_Reason m))"
| "Encode (Ready m) = JObj (base_fields m @ omit_int ''server_port'' (rd_ServerPort m))"
| "Encode (Result m) = JObj (base_fields m @ int_field ''sent'' (rm_Sent m) @
     int_field ''received'' (rm_Received m) @ float_field ''loss_rate'' (rm_LossRate m) @
     omit_int ''critical_size'' (rm_CriticalSize m))"
| "Encode (Busy m) = JObj (base_fields m @ omit_str ''current_session'' (b_CurrentSession m))"
| "Encode (InvalidRequest m) = JObj (base_fields m @ int_field ''code'' (e_Code m) @
     str_field ''message'' (e_Message m))"
| "Encode (InternalError m) = JObj (base_fields m @ int_field ''code'' (e_Code m) @
     str_field ''message'' (e_Message m))"

section \<open>Unmarshalling\<close>

text \<open>
  Case folding of a key. Besides the ASCII letters, the Kelvin sign and the long s (three and two
  bytes in UTF-8) fold to the letters K and S.
\<close>

function fold_key :: "string \<Rightarrow> string" where
  "fold_key [] = []"
| "fold_key (c # s) =
     (if c = CHR 0xE2 \<and> take 2 s = [CHR 0x84, CHR 0xAA] then CHR ''K'' # fold_key (drop 2 s)
      else if c = CHR 0xC5 \<and> take 1 s = [CHR 0xBF] then CHR ''S'' # fold_key (drop 1 s)
      else (if 97 \<le> (of_char c :: nat) \<and> (of_char c :: nat) \<le> 122
            then char_of ((of_char c :: nat) - 32) else c) # fold_key s)"
  by pat_completeness auto
termination
  by (relation "measure length") auto

text \<open>The struct field a key selects: the one of exactly that name, else the first that folds to it.\<close>

definition select_field :: "string list \<Rightarrow> string \<Rightarrow> string option" where
  "select_field names key =
     (if key \<in> set names then Some key else find (\<lambda>n. fold_key n = fold_key key) names)"

text \<open>
  The value that unmarshalling an object leaves in the field \<open>name\<close>: starting from \<open>z\<close>, each entry
  that selects the field stores its value, where \<open>get\<close> reads one value (\<open>None\<close> for a type error).
  Null leaves the field alone.
\<close>

fun read_field :: "string list \<Rightarrow> (json \<Rightarrow> 'v option) \<Rightarrow> string \<Rightarrow> (string \<times> json) list \<Rightarrow> 'v \<Rightarrow> json_error + 'v" where
  "read_field names get name [] z = Inr z"
| "read_field names get name ((k, v) # kvs) z =
     (if select_field names k = Some name \<and> v \<noteq> JNull
      then case get v of None \<Rightarrow> Inl TypeError | Some x \<Rightarrow> read_field names get name kvs x
      else read_field names get name kvs z)"

fun get_int :: "json \<Rightarrow> int option" where
  "get_int (JInt n) = (if in_int64 n then Some n else None)"
| "get_int _ = None"

fun get_float :: "json \<Rightarrow> f64 option" where
  "get_float (JInt n) = Some (f64_of_int n)"
| "get_float (JFloat x) = Some x"
| "get_float _ = None"

fun get_str :: "json \<Rightarrow> string option" where
  "get_str (JStr s) = Some s"
| "get_str _ = None"

fun get_strs :: "json \<Rightarrow> string list option" where
  "get_strs (JArr vs) =
     (if list_all (\<lambda>v. v = JNull \<or> get_str v \<noteq> None) vs
      then Some (map (\<lambda>v. case get_str v of Some s \<Rightarrow> s | None \<Rightarrow> []) vs) else None)"
| "get_strs _ = None"

text \<open>A struct is read from an object; null leaves it zero, anything else is a type error.\<close>

definition entries :: "json \<Rightarrow> json_error + (string \<times> json) list" where
  "entries j = (case j of JObj kvs \<Rightarrow> Inr kvs | JNull \<Rightarrow> Inr [] | _ \<Rightarrow> Inl TypeError)"

definition base_names :: "string list" where
  "base_names = [''version'', ''type'', ''session_id'', ''test_id'', ''seq'', ''send_unix_nano'']"

definition read_base :: "string list \<Rightarrow> (string \<times> json) list \<Rightarrow> json_error + BaseMessage" where
  "read_base names kvs =
     rbind (read_field names get_int ''version'' kvs 0) (\<lambda>version.
     rbind (read_field names get_int ''type'' kvs 0) (\<lambda>type.
     rbind (read_field names get_str ''session_id'' kvs []) (\<lambda>session_id.
     rbind (read_field names get_str ''test_id'' kvs []) (\<lambda>test_id.
     rbind (read_field names get_int ''seq'' kvs 0) (\<lambda>seq.
     rbind (read_field names get_int ''send_unix_nano'' kvs 0) (\<lambda>nano.
     Inr \<lparr>bm_Version = version, bm_Type = type, bm_SessionID = session_id, bm_TestID = test_id,
          bm_Sequence = seq, bm_Timestamp = nano\<rparr>))))))"

definition read_Hello :: "(string \<times> json) list \<Rightarrow> json_error + message" where
  "read_Hello kvs =
     (let names = base_names @ [''client_version'', ''capability''] in
      rbind (read_base names kvs) (\<lambda>b.
      rbind (read_field names get_int ''client_version'' kvs 0) (\<lambda>cv.
      rbind (read_field names get_strs ''capability'' kvs []) (\<lambda>cap.
      Inr (Hello (BaseMessage.extend b (Hello.fields cv cap)))))))"

definition read_Prepare :: "(string \<times> json) list \<Rightarrow> json_error + message" where
  "read_Prepare kvs =
     (let names = base_names @ [''direction'', ''family'', ''udp_port'', ''payload_size'', ''packet_count'',
            ''interval_ms'', ''client_receive_port''] in
      rbind (read_base names kvs) (\<lambda>b.
      rbind (read_field names get_int ''direction'' kvs 0) (\<lambda>dir.
      rbind (read_field names get_int ''family'' kvs 0) (\<lambda>fam.
      rbind (read_field names get_int ''udp_port'' kvs 0) (\<lambda>port.
      rbind (read_field names get_int ''payload_size'' kvs 0) (\<lambda>psize.
      rbind (read_field names get_int ''packet_count'' kvs 0) (\<lambda>count.
      rbind (read_field names get_int ''interval_ms'' kvs 0) (\<lambda>interval.
      rbind (read_field names get_int ''client_receive_port'' kvs 0) (\<lambda>crp.
      Inr (Prepare (BaseMessage.extend b (Prepare.fields dir fam port psize count interval crp))))))))))))"

definition read_plain :: "(BaseMessage \<Rightarrow> message) \<Rightarrow> (string \<times> json) list \<Rightarrow> json_error + message" where
  "read_plain mk kvs = rbind (read_base base_names kvs) (\<lambda>b. Inr (mk b))"

definition read_Cancel :: "(string \<times> json) list \<Rightarrow> json_error + message" where
  "read_Cancel kvs =
     (let names = base_names @ [''reason''] in
      rbind (read_base names kvs) (\<lambda>b.
      rbind (read_field names get_str ''reason'' kvs []) (\<lambda>reason.
      Inr (Cancel (BaseMessage.extend b (Cancel.fields reason))))))"

definition read_Ready :: "(string \<times> json) list \<Rightarrow> json_error + message" where
  "read_Ready kvs =
     (let names = base_names @ [''server_port''] in
      rbind (read_base names kvs) (\<lambda>b.
      rbind (read_field names get_int ''server_port'' kvs 0) (\<lambda>port.
      Inr (Ready (BaseMessage.extend b (Ready.fields port))))))"

definition read_Result :: "(string \<times> json) list \<Rightarrow> json_error + message" where
  "read_Result kvs =
     (let names = base_names @ [''sent'', ''received'', ''loss_rate'', ''critical_size''] in
      rbind (read_base names kvs) (\<lambda>b.
      rbind (read_field names get_int ''sent'' kvs 0) (\<lambda>sent.
      rbind (read_field names get_int ''received'' kvs 0) (\<lambda>received.
      rbind (read_field names get_float ''loss_rate'' kvs (F64 False 0)) (\<lambda>rate.
      rbind (read_field names get_int ''critical_size'' kvs 0) (\<lambda>critical.
      Inr (Result (BaseMessage.extend b (ResultMsg.fields sent received rate critical)))))))))"

definition read_Busy :: "(string \<times> json) list \<Rightarrow> json_error + message" where
  "read_Busy kvs =
     (let names = base_names @ [''current_session''] in
      rbind (read_base names kvs) (\<lambda>b.
      rbind (read_field names get_str ''current_session'' kvs []) (\<lambda>cur.
      Inr (Busy (BaseMessage.extend b (Busy.fields cur))))))"

definition read_Error :: "(ErrorMsg \<Rightarrow> message) \<Rightarrow> (string \<times> json) list \<Rightarrow> json_error + message" where
  "read_Error mk kvs =
     (let names = base_names @ [''code'', ''message''] in
      rbind (read_base names kvs) (\<lambda>b.
      rbind (read_field names get_int ''code'' kvs 0) (\<lambda>code.
      rbind (read_field names get_str ''message'' kvs []) (\<lambda>msg.
      Inr (mk (BaseMessage.extend b (ErrorMsg.fields code msg)))))))"

definition Decode :: "json \<Rightarrow> MessageType \<Rightarrow> json_error + message" where
  "Decode data msgType =
     (if msgType = MsgTypeHello then rbind (entries data) read_Hello
      else if msgType = MsgTypePrepare then rbind (entries data) read_Prepare
      else if msgType = MsgTypeReady then rbind (entries data) read_Ready
      else if msgType = MsgTypeStart then rbind (entries data) (read_plain Start)
      else if msgType = MsgTypeSendComplete then rbind (entries data) (read_plain SendComplete)
      else if msgType = MsgTypeFetchResult then rbind (entries data) (read_plain FetchResult)
      else if msgType = MsgTypeResult then rbind (entries data) read_Result
      else if msgType = MsgTypeCancel then rbind (entries data) read_Cancel
      else if msgType = MsgTypeBusy then rbind (entries data) read_Busy
      else if msgType = MsgTypeInvalidRequest then rbind (entries data) (read_Error InvalidRequest)
      else if msgType = MsgTypeInternalError then rbind (entries data) (read_Error InternalError)
      else Inl (UnknownType msgType))"

section \<open>The envelope\<close>

definition EncodeMessage :: "message \<Rightarrow> MessageType \<Rightarrow> json" where
  "EncodeMessage msg msgType = JObj [(''type'', JInt msgType), (''payload'', Encode msg)]"

text \<open>
  The payload is kept raw, a null included; when it is absent, decoding the empty text fails.
\<close>

fun raw_payload :: "(string \<times> json) list \<Rightarrow> json option \<Rightarrow> json option" where
  "raw_payload [] z = z"
| "raw_payload ((k, v) # kvs) z =
     raw_payload kvs (if select_field [''type'', ''payload''] k = Some ''payload'' then Some v else z)"

definition DecodeEnvelope :: "json \<Rightarrow> json_error + MessageType \<times> message" where
  "DecodeEnvelope data =
     rbind (entries data) (\<lambda>kvs.
     rbind (read_field [''type'', ''payload''] get_int ''type'' kvs 0) (\<lambda>type.
     rbind (case raw_payload kvs None of
              None \<Rightarrow> if 0 \<le> type \<and> type \<le> MsgTypeInternalError then Inl SyntaxError else Inl (UnknownType type)
            | Some payload \<Rightarrow> Decode payload type) (\<lambda>msg.
     Inr (type, msg))))"

section \<open>Round trip\<close>

fun type_of_message :: "message \<Rightarrow> MessageType" where
  "type_of_message (Hello m) = MsgTypeHello"
| "type_of_message (Prepare m) = MsgTypePrepare"
| "type_of_message (Start m) = MsgTypeStart"
| "type_of_message (SendComplete m) = MsgTypeSendComplete"
| "type_of_message (FetchResult m) = MsgTypeFetchResult"
| "type_of_message (Cancel m) = MsgTypeCancel"
| "type_of_message (Ready m) = MsgTypeReady"
| "type_of_message (Result m) = MsgTypeResult"
| "type_of_message (Busy m) = MsgTypeBusy"
| "type_of_message (InvalidRequest m) = MsgTypeInvalidRequest"
| "type_of_message (InternalError m) = MsgTypeInternalError"

definition wf_base :: "'a BaseMessage_scheme \<Rightarrow> bool" where
  "wf_base m \<longleftrightarrow> in_int64 (bm_Version m) \<and> in_int64 (bm_Type m) \<and> in_int64 (bm_Sequence m) \<and> in_int64 (bm_Timestamp m)"

text \<open>The values that the Go types can hold.\<close>

fun wf_message :: "message \<Rightarrow> bool" where
  "wf_message (Hello m) \<longleftrightarrow> wf_base m \<and> in_int64 (h_ClientVersion m)"
| "wf_message (Prepare m) \<longleftrightarrow> wf_base m \<and> in_int64 (p_Direction m) \<and> in_int64 (p_Family m) \<and> in_int64 (p_UDPPort m) \<and>
     in_int64 (p_PayloadSize m) \<and> in_int64 (p_PacketCount m) \<and> in_int64 (p_IntervalMs m) \<and> in_int64 (p_ClientReceivePort m)"
| "wf_message (Cancel m) \<longleftrightarrow> wf_base m"
| "wf_message (Ready m) \<longleftrightarrow> wf_base m \<and> in_int64 (rd_ServerPort m)"
| "wf_message (Result m) \<longleftrightarrow> wf_base m \<and> in_int64 (rm_Sent m) \<and> in_int64 (rm_Received m) \<and>
     in_int64 (rm_CriticalSize m) \<and> 0 \<le> f_mag (rm_LossRate m) \<and> round53 (f_mag (rm_LossRate m)) = f_mag (rm_LossRate m)"
| "wf_message (Busy m) \<longleftrightarrow> wf_base m"
| "wf_message (InvalidRequest m) \<longleftrightarrow> wf_base m \<and> in_int64 (e_Code m)"
| "wf_message (InternalError m) \<longleftrightarrow> wf_base m \<and> in_int64 (e_Code m)"
| "wf_message (Start m) \<longleftrightarrow> wf_base m"
| "wf_message (SendComplete m) \<longleftrightarrow> wf_base m"
| "wf_message (FetchResult m) \<longleftrightarrow> wf_base m"

named_theorems read_rules \<open>reading back one marshalled field\<close>

lemma read_field_append [read_rules]:
  "read_field names get name (xs @ ys) z =
     rbind (read_field names get name xs z) (read_field names get name ys)"
  by (induction names get name xs z rule: read_field.induct) (auto split: option.split)

lemma read_int_field [read_rules]:
  "k \<in> set names \<Longrightarrow> read_field names get name (int_field k n) z =
     (if name = k then case get (JInt n) of None \<Rightarrow> Inl TypeError | Some x \<Rightarrow> Inr x else Inr z)"
  by (auto simp: int_field_def select_field_def split: option.split)

lemma read_str_field [read_rules]:
  "k \<in> set names \<Longrightarrow> read_field names get name (str_field k s) z =
     (if name = k then case get (JStr s) of None \<Rightarrow> Inl TypeError | Some x \<Rightarrow> Inr x else Inr z)"
  by (auto simp: str_field_def select_field_def split: option.split)

lemma read_omit_int:
  "k \<in> set names \<Longrightarrow> read_field names get name (omit_int k n) z =
     (if name = k \<and> n \<noteq> 0 then case get (JInt n) of None \<Rightarrow> Inl TypeError | Some x \<Rightarrow> Inr x else Inr z)"
  by (auto simp: omit_int_def select_field_def split: option.split)

lemma read_omit_str:
  "k \<in> set names \<Longrightarrow> read_field names get name (omit_str k s) z =
     (if name = k \<and> s \<noteq> [] then case get (JStr s) of None \<Rightarrow> Inl TypeError | Some x \<Rightarrow> Inr x else Inr z)"
  by (auto simp: omit_str_def select_field_def split: option.split)

lemma read_omit_strs:
  "k \<in> set names \<Longrightarrow> read_field names get name (omit_strs k ss) z =
     (if name = k \<and> ss \<noteq> [] then case get (JArr (map JStr ss)) of None \<Rightarrow> Inl TypeError | Some x \<Rightarrow> Inr x else Inr z)"
  by (auto simp: omit_strs_def select_field_def split: option.split)

lemma get_strs_map: "get_strs (JArr (map JStr ss)) = Some ss"
  by (simp add: list_all_iff comp_def)

text \<open>An omitted zero value is read back as the zero value the field starts with.\<close>

lemma read_own_omitted [read_rules]:
  "k \<in> set names \<Longrightarrow> in_int64 n \<Longrightarrow> read_field names get_int k (omit_int k n) 0 = Inr n"
  "k \<in> set names \<Longrightarrow> read_field names get_str k (omit_str k s) [] = Inr s"
  "k \<in> set names \<Longrightarrow> read_field names get_strs k (omit_strs k ss) [] = Inr ss"
  by (auto simp: read_omit_int read_omit_str read_omit_strs get_strs_map simp del: get_strs.simps)

lemma read_other_omitted [read_rules]:
  "k \<in> set names \<Longrightarrow> name \<noteq> k \<Longrightarrow> read_field names get name (omit_int k n) z = Inr z"
  "k \<in> set names \<Longrightarrow> name \<noteq> k \<Longrightarrow> read_field names get name (omit_str k s) z = Inr z"
  "k \<in> set names \<Longrightarrow> name \<noteq> k \<Longrightarrow> read_field names get name (omit_strs k ss) z = Inr z"
  by (simp_all add: read_omit_int read_omit_str read_omit_strs)

lemma integral_ge_1: "x = of_int \<lfloor>x\<rfloor> \<Longrightarrow> 0 \<le> x \<Longrightarrow> x \<noteq> 0 \<Longrightarrow> 1 \<le> (x :: rat)"
  by (metis le_neq_trans less_imp_neq of_int_0_less_iff of_int_1_le_iff zless_imp_add1_zle add_0)

lemma get_float_printed:
  assumes "0 \<le> f_mag x" "round53 (f_mag x) = f_mag x"
  shows "get_float (snd (hd (float_field k x))) = Some x"
  using assms by (cases x) (auto simp: float_field_def f64_of_int_def intro: integral_ge_1)

lemma read_float_other [read_rules]:
  "k \<in> set names \<Longrightarrow> name \<noteq> k \<Longrightarrow> read_field names get name (float_field k x) z = Inr z"
  by (simp add: float_field_def select_field_def)

lemma read_float_field:
  assumes "k \<in> set names" "0 \<le> f_mag x" "round53 (f_mag x) = f_mag x"
  shows "read_field names get_float k (float_field k x) z = Inr x"
  using assms(1) get_float_printed [OF assms(2,3), of k]
  by (auto simp: float_field_def select_field_def)

lemmas read_defs = base_names_def base_fields_def read_base_def

text \<open>The fields that a message adds to the base.\<close>

definition own_keys :: "string list \<Rightarrow> (string \<times> json) list \<Rightarrow> bool" where
  "own_keys names kvs = list_all (\<lambda>(k, v). k \<in> set names \<and> k \<notin> set base_names) kvs"

lemma own_keys_fields [read_rules]:
  "own_keys names []"
  "own_keys names (xs @ ys) \<longleftrightarrow> own_keys names xs \<and> own_keys names ys"
  "own_keys names (int_field k n) \<longleftrightarrow> k \<in> set names \<and> k \<notin> set base_names"
  "own_keys names (str_field k s) \<longleftrightarrow> k \<in> set names \<and> k \<notin> set base_names"
  "own_keys names (float_field k x) \<longleftrightarrow> k \<in> set names \<and> k \<notin> set base_names"
  "own_keys names (omit_int k n) \<longleftrightarrow> n = 0 \<or> k \<in> set names \<and> k \<notin> set base_names"
  "own_keys names (omit_str k s) \<longleftrightarrow> s = [] \<or> k \<in> set names \<and> k \<notin> set base_names"
  "own_keys names (omit_strs k ss) \<longleftrightarrow> ss = [] \<or> k \<in> set names \<and> k \<notin> set base_names"
  by (simp_all add: own_keys_def int_field_def str_field_def float_field_def omit_int_def omit_str_def omit_strs_def)

lemma read_base_fields:
  assumes "wf_base m" and "set base_names \<subseteq> set names" and "own_keys names kvs"
  shows "read_base names (base_fields m @ kvs) = Inr (BaseMessage.truncate m)"
proof -
  have skip: "read_field names get name kvs z = Inr z" if "name \<in> set base_names"
    for get :: "json \<Rightarrow> 'v option" and name z
    using assms(3) that by (induction kvs) (auto simp: select_field_def own_keys_def)
  show ?thesis
    using assms(1,2)
    by (cases m)
      (simp add: read_defs read_rules skip wf_base_def BaseMessage.truncate_def)
qed

lemma skip_base:
  assumes "set base_names \<subseteq> set names" and "name \<notin> set base_names"
  shows "read_field names get name (base_fields m) z = Inr z"
  using assms by (simp add: base_names_def base_fields_def read_rules)

lemma read_plain_Encode:
  "wf_base m \<Longrightarrow> read_plain mk (base_fields m) = Inr (mk m)"
  using read_base_fields [of m base_names "[]"]
  by (cases m) (simp add: read_plain_def own_keys_def BaseMessage.truncate_def)

lemmas extend_defs = BaseMessage.extend_def BaseMessage.truncate_def Hello.fields_def Prepare.fields_def
  Cancel.fields_def Ready.fields_def ResultMsg.fields_def Busy.fields_def ErrorMsg.fields_def

lemmas reader_defs = read_Hello_def read_Prepare_def read_Cancel_def read_Ready_def read_Result_def
  read_Busy_def read_Error_def

lemma extend_truncate:
  "BaseMessage.extend (BaseMessage.truncate h) (Hello.fields (h_ClientVersion h) (h_Capability h)) = h"
  "BaseMessage.extend (BaseMessage.truncate p) (Prepare.fields (p_Direction p) (p_Family p) (p_UDPPort p)
     (p_PayloadSize p) (p_PacketCount p) (p_IntervalMs p) (p_ClientReceivePort p)) = p"
  "BaseMessage.extend (BaseMessage.truncate c) (Cancel.fields (c_Reason c)) = c"
  "BaseMessage.extend (BaseMessage.truncate r) (Ready.fields (rd_ServerPort r)) = r"
  "BaseMessage.extend (BaseMessage.truncate t) (ResultMsg.fields (rm_Sent t) (rm_Received t) (rm_LossRate t)
     (rm_CriticalSize t)) = t"
  "BaseMessage.extend (BaseMessage.truncate b) (Busy.fields (b_CurrentSession b)) = b"
  "BaseMessage.extend (BaseMessage.truncate e) (ErrorMsg.fields (e_Code e) (e_Message e)) = e"
  by (simp_all add: extend_defs)

lemma Decode_Encode:
  assumes "wf_message m"
  shows "Decode (Encode m) (type_of_message m) = Inr m"
  using assms
  by (cases m)
    (simp_all add: Decode_def entries_def read_plain_Encode reader_defs Let_def read_base_fields skip_base
      read_float_field read_rules base_names_def extend_truncate get_strs_map del: get_strs.simps)

lemma payload_selected:
  "select_field [''type'', ''payload''] ''type'' = Some ''type''"
  "select_field [''type'', ''payload''] ''payload'' = Some ''payload''"
  by (simp_all add: select_field_def)

lemma DecodeEnvelope_EncodeMessage:
  assumes "in_int64 t"
  shows "DecodeEnvelope (EncodeMessage m t) = rbind (Decode (Encode m) t) (\<lambda>msg. Inr (t, msg))"
  using assms by (simp add: DecodeEnvelope_def EncodeMessage_def entries_def payload_selected)

lemma type_of_message_range: "in_int64 (type_of_message m)"
  by (cases m) (simp_all add: in_int64_def)

interpretation envelope: codec "\<lambda>m. EncodeMessage m (type_of_message m)"
  "\<lambda>j. rbind (DecodeEnvelope j) (\<lambda>(t, m). Inr m)" wf_message
  by unfold_locales
    (simp add: DecodeEnvelope_EncodeMessage [OF type_of_message_range] Decode_Encode)

lemma DecodeEnvelope_type:
  assumes "DecodeEnvelope j = Inr (t, m)"
  shows "type_of_message m = t" "0 \<le> t" "t \<le> MsgTypeInternalError"
proof -
  from assms obtain payload where "Decode payload t = Inr m"
    by (auto simp: DecodeEnvelope_def rbind_rules split: option.splits if_splits)
  then show "type_of_message m = t" "0 \<le> t" "t \<le> MsgTypeInternalError"
    by (auto simp: Decode_def rbind_rules reader_defs read_plain_def Let_def split: if_splits)
qed

section \<open>Properties\<close>



text \<open>
  C32: decoding rejects what it must: an envelope whose type is not one of the eleven message types
  is an error whatever its payload, and a message that decodes has exactly the Go type that the
  envelope's type announces, so the type assertions of the handlers cannot fail.
\<close>

theorem decode_type_matches:
  "case DecodeEnvelope j of
     Inl _ \<Rightarrow> True
   | Inr (t, m) \<Rightarrow> type_of_message m = t \<and> 0 \<le> t \<and> t \<le> MsgTypeInternalError"
  using DecodeEnvelope_type by (auto split: sum.split)

end
