(* ===== verification/Framing.thy ===== *)
theory Framing
  imports ProbeHeader
begin

text \<open>
  Length-prefixed frames on the TCP control connection: \<^verbatim>\<open>readMessage\<close> and \<^verbatim>\<open>writeMessage\<close> of
  \<^verbatim>\<open>internal/control/session.go\<close>, which \<^verbatim>\<open>readMsg\<close> and \<^verbatim>\<open>writeMsg\<close> of \<^verbatim>\<open>client.go\<close> repeat.

  What is still to be read from a connection is the list of segments in which the operating
  system will deliver it, followed by an error; one \<^verbatim>\<open>Read\<close> returns at most one segment and at most
  as many bytes as its buffer holds.
\<close>

section \<open>Reading and writing\<close>

datatype conn_error = EOF | Timeout | OtherError

fun conn_Read :: "nat \<Rightarrow> bytes list \<Rightarrow> conn_error \<Rightarrow> (conn_error + bytes) \<times> bytes list" where
  "conn_Read n [] e = (Inl e, [])"
| "conn_Read n (seg # segs) e =
     (Inr (take n seg), if length seg \<le> n then segs else drop n seg # segs)"

text \<open>The buffer after a read: what was read, then the zeros it was made with.\<close>

definition fill_buffer :: "nat \<Rightarrow> bytes \<Rightarrow> bytes" where
  "fill_buffer n got = got @ replicate (n - length got) 0"

datatype frame_error = ConnError conn_error | InvalidLength int

definition maxFrame :: int where
  "maxFrame = 1024 * 1024"

definition frame_length :: "bytes \<Rightarrow> int" where
  "frame_length b =
     sint (push_bit 24 (ucast (b ! 0) :: 32 word) OR push_bit 16 (ucast (b ! 1)) OR
           push_bit 8 (ucast (b ! 2)) OR ucast (b ! 3))"

definition readMessage :: "bytes list \<Rightarrow> conn_error \<Rightarrow> (frame_error + bytes) \<times> bytes list" where
  "readMessage segs e =
     (case conn_Read 4 segs e of
        (Inl err, segs) \<Rightarrow> (Inl (ConnError err), segs)
      | (Inr got, segs) \<Rightarrow>
          let length = frame_length (fill_buffer 4 got) in
          if length \<le> 0 \<or> maxFrame < length then (Inl (InvalidLength length), segs)
          else case conn_Read (nat length) segs e of
            (Inl err, segs) \<Rightarrow> (Inl (ConnError err), segs)
          | (Inr got, segs) \<Rightarrow> (Inr (fill_buffer (nat length) got), segs))"

text \<open>The two writes of \<^verbatim>\<open>writeMessage\<close>: the length as four bytes, then the data.\<close>

definition length_bytes :: "int \<Rightarrow> bytes" where
  "length_bytes n =
     (let length = word_of_int n :: 32 word
      in [ucast (signed_drop_bit 24 length), ucast (signed_drop_bit 16 length),
          ucast (signed_drop_bit 8 length), ucast length])"

definition writeMessage_writes :: "bytes \<Rightarrow> bytes list" where
  "writeMessage_writes data = [length_bytes (int (length data)), data]"

definition isTimeout :: "frame_error \<Rightarrow> bool" where
  "isTimeout err \<longleftrightarrow> err = ConnError Timeout"

section \<open>Lengths\<close>

lemma length_length_bytes [simp]: "length (length_bytes n) = 4"
  by (simp add: length_bytes_def Let_def)

lemma shifted_byte:
  "k \<le> 24 \<Longrightarrow> (ucast (signed_drop_bit k (w :: 32 word)) :: byte) = ucast (drop_bit k w)"
  by (rule bit_word_eqI) (auto simp: bit_simps bit_signed_drop_bit_iff min_def)

lemma join_length:
  fixes w :: "32 word"
  shows "push_bit 24 (ucast (ucast (signed_drop_bit 24 w) :: byte)) OR push_bit 16 (ucast (ucast (signed_drop_bit 16 w) :: byte)) OR
     push_bit 8 (ucast (ucast (signed_drop_bit 8 w) :: byte)) OR ucast (ucast w :: byte) = w"
proof -
  have "ucast (ucast w :: byte) OR push_bit 8 (ucast (ucast (drop_bit 8 w) :: byte)) OR
      push_bit 16 (ucast (ucast (drop_bit 16 w) :: byte)) OR push_bit 24 (ucast (ucast (drop_bit 24 w) :: byte)) = w"
    by (simp add: join_bytes take_bit_word_full or.assoc [symmetric])
  then show ?thesis
    by (simp only: shifted_byte order.refl or.commute or.left_commute numeral_le_iff semiring_norm)
qed

lemma frame_length_bytes:
  "0 \<le> n \<Longrightarrow> n < 2 ^ 31 \<Longrightarrow> frame_length (length_bytes n) = n"
  by (simp add: frame_length_def length_bytes_def Let_def join_length sint_sbintrunc' signed_take_bit_int_eq_self)

lemma frame_length_wraps:
  assumes "n = int m" "1024 * 1024 < n" "n < 2 ^ 31"
  shows "maxFrame < frame_length (length_bytes n)"
  using assms frame_length_bytes [of n] by (simp add: maxFrame_def)

lemma conn_Read_all: "length seg \<le> n \<Longrightarrow> conn_Read n (seg # segs) e = (Inr seg, segs)"
  by simp

lemma fill_buffer_full [simp]: "fill_buffer (length b) b = b"
  by (simp add: fill_buffer_def)

lemma conn_Read_error: "conn_Read n segs e = (Inl err, segs') \<Longrightarrow> err = e"
  by (cases segs) auto

lemma conn_Read_length: "conn_Read n segs e = (Inr got, segs') \<Longrightarrow> length got \<le> n"
  by (cases segs) auto

text \<open>Reading once the four length bytes have arrived whole.\<close>

lemma readMessage_body:
  assumes "0 < length data" "int (length data) \<le> maxFrame"
    and "conn_Read 4 segs e = (Inr (length_bytes (int (length data))), segs')"
  shows "readMessage segs e =
     (case conn_Read (length data) segs' e of
        (Inl err, segs) \<Rightarrow> (Inl (ConnError err), segs)
      | (Inr got, segs) \<Rightarrow> (Inr (fill_buffer (length data) got), segs))"
proof -
  have "frame_length (length_bytes (int (length data))) = int (length data)"
    using assms(2) by (intro frame_length_bytes) (simp_all add: maxFrame_def)
  moreover have "fill_buffer 4 (length_bytes (int (length data))) = length_bytes (int (length data))"
    using fill_buffer_full [of "length_bytes (int (length data))"] by simp
  ultimately show ?thesis
    using assms by (simp add: readMessage_def Let_def split: prod.split sum.split)
qed

section \<open>Properties\<close>

text \<open>
  C21: a frame of 1 to 1048576 bytes is read back exactly when it is delivered in the segments in
  which it was written, and equally when the two arrive as one segment, even with the beginning
  of the next frames attached: what follows stays unread for the next call.
\<close>

theorem frame_roundtrip:
  assumes "0 < length data" and "int (length data) \<le> maxFrame"
  shows "readMessage (writeMessage_writes data @ rest) e = (Inr data, rest) \<and>
    readMessage ((concat (writeMessage_writes data) @ extra) # rest) e =
      (Inr data, if extra = [] then rest else extra # rest)"
proof
  let ?l = "length_bytes (int (length data))"
  show "readMessage (writeMessage_writes data @ rest) e = (Inr data, rest)"
    using readMessage_body [OF assms, of "writeMessage_writes data @ rest" e "data # rest"]
    by (simp add: writeMessage_writes_def)
  have "conn_Read 4 ((?l @ data @ extra) # rest) e = (Inr ?l, (data @ extra) # rest)"
    using assms(1) by simp
  then show "readMessage ((concat (writeMessage_writes data) @ extra) # rest) e =
      (Inr data, if extra = [] then rest else extra # rest)"
    using readMessage_body [OF assms, of "(?l @ data @ extra) # rest" e "(data @ extra) # rest"]
    by (simp add: writeMessage_writes_def)
qed

theorem frame_roundtrip_witness:
  "readMessage (writeMessage_writes [123, 125] @ [[7]]) EOF = (Inr [123, 125], [[7]])"
  using frame_roundtrip [of "[123, 125]" "[[7]]" EOF "[]"] by (simp add: maxFrame_def)

text \<open>
  C31: a frame whose data reaches the reader in two segments is not read whole: the single \<^verbatim>\<open>Read\<close>
  takes the first part, the buffer keeps zeros in place of the second, and the second part is
  left in the stream, where the next call takes it for a length.
\<close>

theorem split_frame_truncated:
  assumes "0 < k" and "k < length data" and "int (length data) \<le> maxFrame"
  shows "readMessage [length_bytes (int (length data)), take k data, drop k data] e =
    (Inr (take k data @ replicate (length data - k) 0), [drop k data])"
proof -
  have "0 < length data"
    using assms(2) by linarith
  then show ?thesis
    using readMessage_body [of data "[length_bytes (int (length data)), take k data, drop k data]" e
        "[take k data, drop k data]"] assms
    by (simp add: fill_buffer_def)
qed

theorem split_frame_truncated_witness:
  "readMessage [length_bytes 4, [1, 2], [3, 4]] EOF = (Inr [1, 2, 0, 0], [[3, 4]])"
  using split_frame_truncated [of 2 "[1, 2, 3, 4]" EOF] by (simp add: maxFrame_def numeral_eq_Suc)

text \<open>
  The length check bounds what a peer can make the reader allocate: whatever the segments are,
  a message that is returned has at least one and at most 1048576 bytes, and a frame announced
  with a larger (or, as a signed 32-bit number, non-positive) length is rejected before its data
  is read.
\<close>

lemma frame_size_bounded:
  "case readMessage segs e of
     (Inr data, _) \<Rightarrow> 1 \<le> length data \<and> int (length data) \<le> 1048576
   | (Inl (InvalidLength n), _) \<Rightarrow> n \<le> 0 \<or> 1048576 < n
   | (Inl (ConnError err), _) \<Rightarrow> err = e"
proof -
  note one = conn_Read_error and len = conn_Read_length
  obtain r segs' where 1: "conn_Read 4 segs e = (r, segs')" by fastforce
  show ?thesis
  proof (cases r)
    case (Inr got)
    obtain r2 segs2 where 2: "conn_Read (nat (frame_length (fill_buffer 4 got))) segs' e = (r2, segs2)" by fastforce
    then show ?thesis
      using 1 Inr one [of _ segs' e] len [of _ segs' e]
      by (cases r2) (auto simp: readMessage_def Let_def maxFrame_def fill_buffer_def)
  qed (use 1 one [of 4 segs e] in \<open>simp add: readMessage_def\<close>)
qed

end
