(* ===== verification/Client.thy ===== *)
theory Client
  imports UdpEngine Messages Framing "HOL-Library.Sublist"
begin

text \<open>
  \<^verbatim>\<open>internal/control/client.go\<close>: the client side of a test.

  A client operation is a function on \<open>client_io\<close>, which holds what the environment will answer (the
  outcomes of the writes and the responses still to come) and the trace of what the client did.
  Operations are chained by \<open>cbind\<close> the way the source returns at the first error.
\<close>

section \<open>The connection\<close>

text \<open>What the client does, in order: control messages, pauses (in milliseconds), UDP traffic.\<close>

datatype client_event = Wrote message | Slept goint | Probed "send_event list"

record client_io =
  io_serverAddr :: string
  io_sessionID :: string
  io_wr :: "bool list"
  io_in :: "(frame_error + json option) list"
  io_trace :: "client_event list"
  io_open :: bool
  io_udp_open :: bool

datatype client_error =
    WriteErr string
  | RecvErr string
  | Expected string MessageType
  | UnexpectedType
  | SocketErr
  | SendErr udp_error
  | DialErr

type_synonym 'a client = "client_io \<Rightarrow> (client_error + 'a) \<times> client_io"

definition cret :: "'a \<Rightarrow> 'a client" where
  "cret x io = (Inr x, io)"

definition cfail :: "client_error \<Rightarrow> 'a client" where
  "cfail e io = (Inl e, io)"

definition cbind :: "'a client \<Rightarrow> ('a \<Rightarrow> 'b client) \<Rightarrow> 'b client" where
  "cbind m f io = (case m io of (Inl e, io) \<Rightarrow> (Inl e, io) | (Inr x, io) \<Rightarrow> f x io)"

definition log_event :: "client_event \<Rightarrow> client_io \<Rightarrow> client_io" where
  "log_event e io = io\<lparr>io_trace := io_trace io @ [e]\<rparr>"

text \<open>
  A connection to the server: \<open>dial\<close> says which addresses answer, \<open>wrs\<close> and \<open>ins\<close> what becomes of the
  writes and what the server will send.
\<close>

definition NewClientConn ::
  "(string \<Rightarrow> bool) \<Rightarrow> bool list \<Rightarrow> (frame_error + json option) list \<Rightarrow> string \<Rightarrow> client_error + client_io"
where
  "NewClientConn dial wrs ins serverAddr =
     (if dial serverAddr
      then Inr \<lparr>io_serverAddr = serverAddr, io_sessionID = [], io_wr = wrs, io_in = ins, io_trace = [], io_open = True,
                io_udp_open = False\<rparr>
      else Inl DialErr)"

definition Client_Close :: "client_io \<Rightarrow> client_io" where
  "Client_Close io = io\<lparr>io_open := False\<rparr>"

definition setSessionID :: "string \<Rightarrow> unit client" where
  "setSessionID sid io = (Inr (), io\<lparr>io_sessionID := sid\<rparr>)"

definition getSessionID :: "client_io \<Rightarrow> string" where
  "getSessionID io = io_sessionID io"

text \<open>
  The client's own frame reader, which turns out to be the server's. \<open>io_in\<close> holds its results with the
  JSON text already parsed, \<open>None\<close> where it does not parse.
\<close>

definition readMsg :: "bytes list \<Rightarrow> conn_error \<Rightarrow> (frame_error + bytes) \<times> bytes list" where
  "readMsg segs e =
     (case conn_Read 4 segs e of
        (Inl err, segs) \<Rightarrow> (Inl (ConnError err), segs)
      | (Inr got, segs) \<Rightarrow>
          let lengthBuf = fill_buffer 4 got;
              len = sint (push_bit 24 (ucast (lengthBuf ! 0) :: 32 word) OR push_bit 16 (ucast (lengthBuf ! 1)) OR
                push_bit 8 (ucast (lengthBuf ! 2)) OR ucast (lengthBuf ! 3))
          in if len \<le> 0 \<or> 1024 * 1024 < len then (Inl (InvalidLength len), segs)
             else case conn_Read (nat len) segs e of
               (Inl err, segs) \<Rightarrow> (Inl (ConnError err), segs)
             | (Inr got, segs) \<Rightarrow> (Inr (fill_buffer (nat len) got), segs))"

lemma readMsg_eq: "readMsg = readMessage"
  by (intro ext) (simp only: readMsg_def readMessage_def frame_length_def maxFrame_def Let_def)

text \<open>\<open>what\<close> names the message in the error, as the source's error texts do.\<close>

definition writeMsg :: "string \<Rightarrow> message \<Rightarrow> unit client" where
  "writeMsg what m io =
     (case io_wr io of
        True # ws \<Rightarrow> (Inr (), log_event (Wrote m) (io\<lparr>io_wr := ws\<rparr>))
      | False # ws \<Rightarrow> (Inl (WriteErr what), io\<lparr>io_wr := ws\<rparr>)
      | [] \<Rightarrow> (Inl (WriteErr what), io))"

definition recvResponse :: "string \<Rightarrow> (MessageType \<times> message) client" where
  "recvResponse what io =
     (case io_in io of
        [] \<Rightarrow> (Inl (RecvErr what), io)
      | r # rs \<Rightarrow>
          let io = io\<lparr>io_in := rs\<rparr> in
          (case r of
             Inl _ \<Rightarrow> (Inl (RecvErr what), io)
           | Inr None \<Rightarrow> (Inl (RecvErr what), io)
           | Inr (Some j) \<Rightarrow>
               (case DecodeEnvelope j of
                  Inl _ \<Rightarrow> (Inl (RecvErr what), io)
                | Inr tm \<Rightarrow> (Inr tm, io))))"

definition expect :: "string \<Rightarrow> MessageType \<Rightarrow> MessageType \<times> message \<Rightarrow> message client" where
  "expect what t tm io = (if fst tm \<noteq> t then (Inl (Expected what (fst tm)), io) else (Inr (snd tm), io))"

definition sleep :: "goint \<Rightarrow> unit client" where
  "sleep ms io = (Inr (), log_event (Slept ms) io)"

section \<open>UDP\<close>

text \<open>
  What the operating system does with the client's UDP socket: whether it opens, whether the target
  resolves, the clock, which writes succeed; for a receiver its port, and what it has read when
  the statistics are taken.
\<close>

record udp_env =
  ue_listen :: "string \<Rightarrow> string \<Rightarrow> bool"
  ue_resolve :: "string \<Rightarrow> string \<Rightarrow> bool"
  ue_t0 :: goint
  ue_clk :: "nat \<Rightarrow> goint"
  ue_wr :: "nat \<Rightarrow> bool"
  ue_elapsed :: goint
  ue_port :: goint
  ue_events :: "recv_event list"

record ClientParams =
  cp_Direction :: Direction
  cp_Family :: Family
  cp_Target4 :: string
  cp_Target6 :: string
  cp_Port :: goint
  cp_PayloadSize :: goint
  cp_PacketCount :: goint
  cp_IntervalMs :: goint

record ClientResult =
  cr_Direction :: Direction
  cr_Sent :: goint
  cr_Received :: goint
  cr_Lost :: goint

definition uplink_sender_config :: "ClientParams \<Rightarrow> SenderConfig" where
  "uplink_sender_config params = \<lparr>sc_SessionID = 0, sc_TestID = 0, sc_Direction = DirectionUplink,
     sc_Family = cp_Family params,
     sc_TargetAddress = (if cp_Family params = FamilyIPv6 then cp_Target6 params else cp_Target4 params),
     sc_UDPPort = to_uint16 (cp_Port params), sc_PayloadSize = to_uint16 (cp_PayloadSize params),
     sc_PacketCount = cp_PacketCount params, sc_Interval = wrap64 (cp_IntervalMs params * Millisecond)\<rparr>"

definition downlink_receiver_config :: "ClientParams \<Rightarrow> ReceiverConfig" where
  "downlink_receiver_config params = \<lparr>rc_SessionID = 0, rc_TestID = 0, rc_Direction = DirectionDownlink,
     rc_Family = cp_Family params,
     rc_ReceiveWindow = wrap64 (wrap64 (wrap64 (cp_PacketCount params * cp_IntervalMs params) + 1000) * Millisecond)\<rparr>"

definition new_sender :: "udp_env \<Rightarrow> ClientParams \<Rightarrow> Sender client" where
  "new_sender env params io =
     (case NewSender (ue_listen env) (uplink_sender_config params) of
        Inl _ \<Rightarrow> (Inl SocketErr, io)
      | Inr s \<Rightarrow> (Inr s, io\<lparr>io_udp_open := True\<rparr>))"

definition send_probes :: "udp_env \<Rightarrow> Sender \<Rightarrow> unit client" where
  "send_probes env s io =
     (case Send (ue_resolve env) (ue_t0 env) (ue_clk env) (ue_wr env) (ue_elapsed env) s of
        (r, events, _) \<Rightarrow>
          (case r of Inl e \<Rightarrow> Inl (SendErr e) | Inr _ \<Rightarrow> Inr (), log_event (Probed events) io))"

definition new_receiver :: "udp_env \<Rightarrow> ClientParams \<Rightarrow> Receiver client" where
  "new_receiver env params io =
     (case NewReceiver (ue_listen env) (downlink_receiver_config params) '':0'' of
        Inl _ \<Rightarrow> (Inl SocketErr, io)
      | Inr r \<Rightarrow> (Inr r, io\<lparr>io_udp_open := True\<rparr>))"

text \<open>The deferred close of the UDP socket runs however the rest ends.\<close>

definition closing_udp :: "'a client \<Rightarrow> 'a client" where
  "closing_udp m io = (case m io of (r, io) \<Rightarrow> (r, io\<lparr>io_udp_open := False\<rparr>))"

section \<open>Tests\<close>

definition client_session_id :: "goint \<Rightarrow> string" where
  "client_session_id now = ''client-'' @ show_int now"

definition hello_message :: "string \<Rightarrow> message" where
  "hello_message sid = Hello (BaseMessage.extend (new_base MsgTypeHello sid) (Hello.fields ProtocolVersion []))"

definition prepare_message :: "string \<Rightarrow> ClientParams \<Rightarrow> goint \<Rightarrow> Prepare" where
  "prepare_message sid params port = BaseMessage.extend (new_base MsgTypePrepare sid)
     (Prepare.fields (cp_Direction params) (cp_Family params) (cp_Port params) (cp_PayloadSize params)
        (cp_PacketCount params) (cp_IntervalMs params) port)"

definition RunUplink :: "goint \<Rightarrow> udp_env \<Rightarrow> ClientParams \<Rightarrow> ClientResult client" where
  "RunUplink now env params =
     (let sid = client_session_id now in
      cbind (setSessionID sid) (\<lambda>_.
      cbind (writeMsg ''hello'' (hello_message sid)) (\<lambda>_.
      cbind (writeMsg ''prepare'' (Prepare (prepare_message sid params 0))) (\<lambda>_.
      cbind (recvResponse ''ready'') (\<lambda>tm.
      cbind (expect ''ready'' MsgTypeReady tm) (\<lambda>_.
      cbind (sleep 10) (\<lambda>_.
      cbind (writeMsg ''start'' (Start (new_base MsgTypeStart sid))) (\<lambda>_.
      cbind (sleep 50) (\<lambda>_.
      cbind (new_sender env params) (\<lambda>s.
      closing_udp (
        cbind (send_probes env s) (\<lambda>_.
        cbind (writeMsg ''complete'' (SendComplete (new_base MsgTypeSendComplete sid))) (\<lambda>_.
        cbind (writeMsg ''fetch_result'' (FetchResult (new_base MsgTypeFetchResult sid))) (\<lambda>_.
        cbind (recvResponse ''result'') (\<lambda>tm.
        cbind (expect ''result'' MsgTypeResult tm) (\<lambda>m.
          case m of
            Messages.Result r \<Rightarrow>
              cbind (sleep 50) (\<lambda>_.
              cret \<lparr>cr_Direction = DirectionUplink, cr_Sent = rm_Sent r, cr_Received = rm_Received r,
                    cr_Lost = wrap64 (rm_Sent r - rm_Received r)\<rparr>)
          | _ \<Rightarrow> cfail UnexpectedType))))))))))))))))"

definition RunDownlink :: "goint \<Rightarrow> udp_env \<Rightarrow> ClientParams \<Rightarrow> ClientResult client" where
  "RunDownlink now env params =
     (let sid = client_session_id now in
      cbind (setSessionID sid) (\<lambda>_.
      cbind (writeMsg ''hello'' (hello_message sid)) (\<lambda>_.
      cbind (new_receiver env params) (\<lambda>r.
      closing_udp (
        cbind (writeMsg ''prepare'' (Prepare (prepare_message sid params (ue_port env)))) (\<lambda>_.
        cbind (recvResponse ''ready'') (\<lambda>tm.
        cbind (expect ''ready'' MsgTypeReady tm) (\<lambda>_.
        cbind (writeMsg ''start'' (Start (new_base MsgTypeStart sid))) (\<lambda>_.
        cbind (recvResponse ''send_complete'') (\<lambda>tm.
        cbind (expect ''send_complete'' MsgTypeSendComplete tm) (\<lambda>_.
        cbind (sleep 50) (\<lambda>_.
          let recvResult = UdpEngine.Result (snd (Receive r (ue_events env))) in
          cbind (writeMsg ''fetch_result'' (FetchResult (new_base MsgTypeFetchResult sid))) (\<lambda>_.
          cbind (recvResponse ''result'') (\<lambda>tm.
          cbind (expect ''result'' MsgTypeResult tm) (\<lambda>m.
            case m of
              Messages.Result res \<Rightarrow>
                cret \<lparr>cr_Direction = DirectionDownlink, cr_Sent = rm_Sent res, cr_Received = rr_Matched recvResult,
                      cr_Lost = wrap64 (rm_Sent res - rr_Matched recvResult)\<rparr>
            | _ \<Rightarrow> cfail UnexpectedType)))))))))))))))"

text \<open>
  \<^verbatim>\<open>RunBoth\<close>: the uplink on the given connection, which is closed, then the downlink on a new one to
  the same address. Both final connections are returned, the second one if it was opened.
\<close>

record both_env =
  be_now :: goint
  be_now' :: goint
  be_udp :: udp_env
  be_udp' :: udp_env
  be_dial :: "string \<Rightarrow> bool"
  be_wr :: "bool list"
  be_in :: "(frame_error + json option) list"

definition RunBoth ::
  "both_env \<Rightarrow> ClientParams \<Rightarrow> client_io \<Rightarrow> (client_error + ClientResult list) \<times> client_io \<times> client_io option"
where
  "RunBoth be params io =
     (case RunUplink (be_now be) (be_udp be) (params\<lparr>cp_Direction := DirectionUplink\<rparr>) io of
        (Inl e, io) \<Rightarrow> (Inl e, io, None)
      | (Inr up, io) \<Rightarrow>
          let io = log_event (Slept 100) (Client_Close io) in
          (case NewClientConn (be_dial be) (be_wr be) (be_in be) (io_serverAddr io) of
             Inl e \<Rightarrow> (Inl e, io, None)
           | Inr down_io \<Rightarrow>
               (case RunDownlink (be_now' be) (be_udp' be) (params\<lparr>cp_Direction := DirectionDownlink\<rparr>) down_io of
                  (r, down_io) \<Rightarrow>
                    (case r of Inl e \<Rightarrow> Inl e | Inr down \<Rightarrow> Inr [up, down], io, Some (Client_Close down_io)))))"

section \<open>Traces\<close>

text \<open>
  \<open>follows m T Q\<close>: a run of \<open>m\<close> that succeeds adds exactly \<open>T\<close> to the trace and returns a value with \<open>Q\<close>; one
  that fails adds a prefix of \<open>T\<close>.
\<close>

definition follows :: "'a client \<Rightarrow> client_event list \<Rightarrow> ('a \<Rightarrow> bool) \<Rightarrow> bool" where
  "follows m T Q \<longleftrightarrow>
     (\<forall>io. case m io of
        (Inr x, io') \<Rightarrow> io_trace io' = io_trace io @ T \<and> Q x
      | (Inl e, io') \<Rightarrow> \<exists>S. prefix S T \<and> io_trace io' = io_trace io @ S)"

lemma follows_bind:
  assumes "follows m S Q" and "\<And>x. Q x \<Longrightarrow> follows (f x) T R"
  shows "follows (cbind m f) (S @ T) R"
  unfolding follows_def
proof
  fix io
  obtain r io1 where m: "m io = (r, io1)" by fastforce
  show "case cbind m f io of
      (Inr x, io') \<Rightarrow> io_trace io' = io_trace io @ S @ T \<and> R x
    | (Inl e, io') \<Rightarrow> \<exists>U. prefix U (S @ T) \<and> io_trace io' = io_trace io @ U"
  proof (cases r)
    case (Inl e)
    then show ?thesis
      using assms(1) m by (auto simp: follows_def cbind_def dest!: spec [of _ io] intro: prefix_prefix)
  next
    case (Inr x)
    then have 1: "io_trace io1 = io_trace io @ S" "Q x"
      using assms(1) m by (auto simp: follows_def dest!: spec [of _ io])
    obtain r2 io2 where f: "f x io1 = (r2, io2)" by fastforce
    from assms(2) [OF 1(2), unfolded follows_def, rule_format, of io1] show ?thesis
      using 1 m Inr f by (cases r2) (auto simp: cbind_def intro: same_prefix_prefix [THEN iffD2])
  qed
qed

lemma follows_steps:
  "follows (setSessionID sid) [] (\<lambda>_. True)"
  "follows (writeMsg what m) [Wrote m] (\<lambda>_. True)"
  "follows (recvResponse what) [] (\<lambda>_. True)"
  "follows (expect what t tm) [] (\<lambda>_. True)"
  "follows (sleep ms) [Slept ms] (\<lambda>_. True)"
  "follows (cret x) [] (\<lambda>_. True)"
  "follows (cfail e) [] (\<lambda>_. True)"
  by (auto simp: follows_def setSessionID_def writeMsg_def recvResponse_def expect_def sleep_def cret_def cfail_def
      log_event_def Let_def split: list.split bool.split sum.split option.split)

lemma follows_sender:
  "follows (new_sender env params) [] (\<lambda>s. s = \<lparr>s_config = uplink_sender_config params, s_open = True\<rparr>)"
  by (auto simp: follows_def new_sender_def NewSender_def)

definition probe_events :: "udp_env \<Rightarrow> ClientParams \<Rightarrow> send_event list" where
  "probe_events env params = fst (snd (Send (ue_resolve env) (ue_t0 env) (ue_clk env) (ue_wr env) (ue_elapsed env)
     \<lparr>s_config = uplink_sender_config params, s_open = True\<rparr>))"

lemma follows_probes:
  "follows (send_probes env \<lparr>s_config = uplink_sender_config params, s_open = True\<rparr>) [Probed (probe_events env params)]
     (\<lambda>_. True)"
  by (auto simp: follows_def send_probes_def probe_events_def log_event_def split: prod.splits sum.splits)

lemma follows_closing: "follows m T Q \<Longrightarrow> follows (closing_udp m) T Q"
  unfolding follows_def
proof
  fix io
  assume f: "\<forall>io. case m io of
        (Inr x, io') \<Rightarrow> io_trace io' = io_trace io @ T \<and> Q x
      | (Inl e, io') \<Rightarrow> \<exists>S. prefix S T \<and> io_trace io' = io_trace io @ S"
  obtain r io1 where m: "m io = (r, io1)" by fastforce
  with f [rule_format, of io] show "case closing_udp m io of
        (Inr x, io') \<Rightarrow> io_trace io' = io_trace io @ T \<and> Q x
      | (Inl e, io') \<Rightarrow> \<exists>S. prefix S T \<and> io_trace io' = io_trace io @ S"
    by (cases r) (auto simp: closing_udp_def)
qed

definition uplink_result :: "message \<Rightarrow> ClientResult client" where
  "uplink_result m =
     (case m of
        Messages.Result r \<Rightarrow>
          cbind (sleep 50) (\<lambda>_.
          cret \<lparr>cr_Direction = DirectionUplink, cr_Sent = rm_Sent r, cr_Received = rm_Received r,
                cr_Lost = wrap64 (rm_Sent r - rm_Received r)\<rparr>)
      | _ \<Rightarrow> cfail UnexpectedType)"

text \<open>What the fields of a result say of each other.\<close>

definition accounts :: "Direction \<Rightarrow> ClientResult \<Rightarrow> bool" where
  "accounts d r \<longleftrightarrow> cr_Direction r = d \<and> cr_Lost r = wrap64 (cr_Sent r - cr_Received r)"

lemma follows_uplink_result: "follows (uplink_result m) [Slept 50] (accounts DirectionUplink)"
  by (cases m)
    (auto simp: follows_def uplink_result_def cbind_def cret_def cfail_def sleep_def log_event_def accounts_def)

lemma RunUplink_eq:
  "RunUplink now env params =
     (let sid = client_session_id now in
      cbind (setSessionID sid) (\<lambda>_.
      cbind (writeMsg ''hello'' (hello_message sid)) (\<lambda>_.
      cbind (writeMsg ''prepare'' (Prepare (prepare_message sid params 0))) (\<lambda>_.
      cbind (recvResponse ''ready'') (\<lambda>tm.
      cbind (expect ''ready'' MsgTypeReady tm) (\<lambda>_.
      cbind (sleep 10) (\<lambda>_.
      cbind (writeMsg ''start'' (Start (new_base MsgTypeStart sid))) (\<lambda>_.
      cbind (sleep 50) (\<lambda>_.
      cbind (new_sender env params) (\<lambda>s.
      closing_udp (
        cbind (send_probes env s) (\<lambda>_.
        cbind (writeMsg ''complete'' (SendComplete (new_base MsgTypeSendComplete sid))) (\<lambda>_.
        cbind (writeMsg ''fetch_result'' (FetchResult (new_base MsgTypeFetchResult sid))) (\<lambda>_.
        cbind (recvResponse ''result'') (\<lambda>tm.
        cbind (expect ''result'' MsgTypeResult tm) uplink_result)))))))))))))))"
  by (simp add: RunUplink_def uplink_result_def [abs_def])

definition uplink_trace :: "goint \<Rightarrow> udp_env \<Rightarrow> ClientParams \<Rightarrow> client_event list" where
  "uplink_trace now env params =
     (let sid = client_session_id now in
      [Wrote (hello_message sid), Wrote (Prepare (prepare_message sid params 0)), Slept 10,
       Wrote (Start (new_base MsgTypeStart sid)), Slept 50, Probed (probe_events env params),
       Wrote (SendComplete (new_base MsgTypeSendComplete sid)), Wrote (FetchResult (new_base MsgTypeFetchResult sid)),
       Slept 50])"

lemma follows_uplink: "follows (RunUplink now env params) (uplink_trace now env params) (accounts DirectionUplink)"
proof -
  let ?sid = "client_session_id now"
  let ?tail = "[Probed (probe_events env params), Wrote (SendComplete (new_base MsgTypeSendComplete ?sid)),
     Wrote (FetchResult (new_base MsgTypeFetchResult ?sid)), Slept 50]"
  note b = follows_bind [where Q = "\<lambda>_. True"]
  have tail: "follows (closing_udp (
        cbind (send_probes env s) (\<lambda>_.
        cbind (writeMsg ''complete'' (SendComplete (new_base MsgTypeSendComplete ?sid))) (\<lambda>_.
        cbind (writeMsg ''fetch_result'' (FetchResult (new_base MsgTypeFetchResult ?sid))) (\<lambda>_.
        cbind (recvResponse ''result'') (\<lambda>tm.
        cbind (expect ''result'' MsgTypeResult tm) uplink_result)))))) ?tail (accounts DirectionUplink)"
    if "s = \<lparr>s_config = uplink_sender_config params, s_open = True\<rparr>" for s
    using b [OF follows_probes [of env params] b [OF follows_steps(2) b [OF follows_steps(2) b [OF follows_steps(3)
        b [OF follows_steps(4) follows_uplink_result]]]]]
    unfolding that by (intro follows_closing) simp
  have "follows (RunUplink now env params) ([] @ [Wrote (hello_message ?sid)] @ [Wrote (Prepare (prepare_message ?sid params 0))] @
      [] @ [] @ [Slept 10] @ [Wrote (Start (new_base MsgTypeStart ?sid))] @ [Slept 50] @ [] @ ?tail) (accounts DirectionUplink)"
    unfolding RunUplink_eq Let_def
    by (rule b [OF follows_steps(1)] b [OF follows_steps(2)] b [OF follows_steps(3)] b [OF follows_steps(4)]
        b [OF follows_steps(5)] follows_bind [OF follows_sender] tail | assumption)+
  then show ?thesis
    by (simp add: uplink_trace_def Let_def)
qed

text \<open>The same for the downlink.\<close>

lemma follows_receiver:
  "follows (new_receiver env params) [] (\<lambda>r. r = \<lparr>r_config = downlink_receiver_config params, r_received = [], r_open = True\<rparr>)"
  by (auto simp: follows_def new_receiver_def NewReceiver_def)

definition downlink_result :: "goint \<Rightarrow> message \<Rightarrow> ClientResult client" where
  "downlink_result matched m =
     (case m of
        Messages.Result res \<Rightarrow>
          cret \<lparr>cr_Direction = DirectionDownlink, cr_Sent = rm_Sent res, cr_Received = matched,
                cr_Lost = wrap64 (rm_Sent res - matched)\<rparr>
      | _ \<Rightarrow> cfail UnexpectedType)"

lemma follows_downlink_result: "follows (downlink_result matched m) [] (accounts DirectionDownlink)"
  by (cases m) (auto simp: follows_def downlink_result_def cret_def cfail_def accounts_def)

lemma RunDownlink_eq:
  "RunDownlink now env params =
     (let sid = client_session_id now in
      cbind (setSessionID sid) (\<lambda>_.
      cbind (writeMsg ''hello'' (hello_message sid)) (\<lambda>_.
      cbind (new_receiver env params) (\<lambda>r.
      closing_udp (
        cbind (writeMsg ''prepare'' (Prepare (prepare_message sid params (ue_port env)))) (\<lambda>_.
        cbind (recvResponse ''ready'') (\<lambda>tm.
        cbind (expect ''ready'' MsgTypeReady tm) (\<lambda>_.
        cbind (writeMsg ''start'' (Start (new_base MsgTypeStart sid))) (\<lambda>_.
        cbind (recvResponse ''send_complete'') (\<lambda>tm.
        cbind (expect ''send_complete'' MsgTypeSendComplete tm) (\<lambda>_.
        cbind (sleep 50) (\<lambda>_.
        cbind (writeMsg ''fetch_result'' (FetchResult (new_base MsgTypeFetchResult sid))) (\<lambda>_.
        cbind (recvResponse ''result'') (\<lambda>tm.
        cbind (expect ''result'' MsgTypeResult tm)
          (downlink_result (rr_Matched (UdpEngine.Result (snd (Receive r (ue_events env))))))))))))))))))))"
  by (simp add: RunDownlink_def downlink_result_def [abs_def] Let_def)

definition downlink_trace :: "goint \<Rightarrow> udp_env \<Rightarrow> ClientParams \<Rightarrow> client_event list" where
  "downlink_trace now env params =
     (let sid = client_session_id now in
      [Wrote (hello_message sid), Wrote (Prepare (prepare_message sid params (ue_port env))),
       Wrote (Start (new_base MsgTypeStart sid)), Slept 50, Wrote (FetchResult (new_base MsgTypeFetchResult sid))])"

lemma follows_downlink: "follows (RunDownlink now env params) (downlink_trace now env params) (accounts DirectionDownlink)"
proof -
  let ?sid = "client_session_id now"
  note b = follows_bind [where Q = "\<lambda>_. True"]
  have "follows (RunDownlink now env params) ([] @ [Wrote (hello_message ?sid)] @ [] @
      [Wrote (Prepare (prepare_message ?sid params (ue_port env)))] @ [] @ [] @ [Wrote (Start (new_base MsgTypeStart ?sid))] @
      [] @ [] @ [Slept 50] @ [Wrote (FetchResult (new_base MsgTypeFetchResult ?sid))] @ [] @ [] @ []) (accounts DirectionDownlink)"
    unfolding RunDownlink_eq Let_def
    by (rule b [OF follows_steps(1)] b [OF follows_steps(2)] b [OF follows_steps(3)] b [OF follows_steps(4)]
        b [OF follows_steps(5)] follows_bind [OF follows_receiver] follows_closing follows_downlink_result)+
  then show ?thesis
    by (simp add: downlink_trace_def Let_def)
qed

section \<open>Properties\<close>

lemma follows_trace:
  assumes "follows m T Q"
  shows "\<exists>S. prefix S T \<and> io_trace (snd (m io)) = io_trace io @ S \<and> ((\<exists>x. fst (m io) = Inr x) \<longrightarrow> S = T)"
proof -
  obtain r io' where m: "m io = (r, io')" by fastforce
  from assms [unfolded follows_def, rule_format, of io] show ?thesis
    using m by (cases r) auto
qed

definition keeps_closed :: "'a client \<Rightarrow> bool" where
  "keeps_closed m \<longleftrightarrow> (\<forall>io. \<not> io_udp_open io \<longrightarrow> \<not> io_udp_open (snd (m io)))"

lemma keeps_closed_bind: "keeps_closed m \<Longrightarrow> (\<And>x. keeps_closed (f x)) \<Longrightarrow> keeps_closed (cbind m f)"
  unfolding keeps_closed_def cbind_def by (auto split: prod.split sum.split)

lemma keeps_closed_steps:
  "keeps_closed (setSessionID sid)" "keeps_closed (writeMsg what m)" "keeps_closed (recvResponse what)"
  "keeps_closed (expect what t tm)" "keeps_closed (sleep ms)"
  by (auto simp: keeps_closed_def setSessionID_def writeMsg_def recvResponse_def expect_def sleep_def log_event_def Let_def
      split: list.split bool.split sum.split option.split)

lemma keeps_closed_sockets:
  "keeps_closed (cbind (new_sender env params) (\<lambda>s. closing_udp (g s)))"
  "keeps_closed (cbind (new_receiver env params) (\<lambda>r. closing_udp (h r)))"
  by (auto simp: keeps_closed_def cbind_def new_sender_def new_receiver_def closing_udp_def case_prod_beta split: sum.split)

lemma keeps_closed_tests: "keeps_closed (RunUplink now env params)" "keeps_closed (RunDownlink now env params)"
  unfolding RunUplink_eq RunDownlink_eq Let_def
  by (rule keeps_closed_bind keeps_closed_steps keeps_closed_sockets)+

text \<open>A test does not change which server it talks to.\<close>

definition keeps_addr :: "'a client \<Rightarrow> bool" where
  "keeps_addr m \<longleftrightarrow> (\<forall>io. io_serverAddr (snd (m io)) = io_serverAddr io)"

lemma keeps_addr_bind: "keeps_addr m \<Longrightarrow> (\<And>x. keeps_addr (f x)) \<Longrightarrow> keeps_addr (cbind m f)"
  unfolding keeps_addr_def cbind_def by (simp split: prod.split sum.split) (metis snd_conv)

lemma keeps_addr_steps:
  "keeps_addr (setSessionID sid)" "keeps_addr (writeMsg what m)" "keeps_addr (recvResponse what)"
  "keeps_addr (expect what t tm)" "keeps_addr (sleep ms)" "keeps_addr (new_sender env params)" "keeps_addr (send_probes env s)"
  "keeps_addr (new_receiver env params)" "keeps_addr (cret x)" "keeps_addr (cfail e)"
  by (auto simp: keeps_addr_def setSessionID_def writeMsg_def recvResponse_def expect_def sleep_def new_sender_def
      send_probes_def new_receiver_def cret_def cfail_def log_event_def Let_def split: list.split bool.split sum.split
      option.split prod.split)

lemma keeps_addr_results: "keeps_addr (uplink_result m)" "keeps_addr (downlink_result k m)"
  by (cases m; simp add: uplink_result_def downlink_result_def keeps_addr_bind keeps_addr_steps)+

lemma keeps_addr_closing: "keeps_addr m \<Longrightarrow> keeps_addr (closing_udp m)"
  by (simp add: keeps_addr_def closing_udp_def case_prod_beta)

lemma keeps_addr_tests: "keeps_addr (RunUplink now env params)" "keeps_addr (RunDownlink now env params)"
  unfolding RunUplink_eq RunDownlink_eq Let_def
  by (rule keeps_addr_bind keeps_addr_steps keeps_addr_closing keeps_addr_results)+


text \<open>
  C26: a test in both directions runs the complete uplink test, closes its connection, and only then
  opens a second one to the same address for the downlink test. It succeeds exactly when both
  do, with the uplink result first and each result saying lost = sent - received; a second
  connection that was opened is closed again in every case.
\<close>

theorem run_both_outcome:
  "case RunBoth be params io of (r, io', second) \<Rightarrow>
     let up = uplink_trace (be_now be) (be_udp be) (params\<lparr>cp_Direction := DirectionUplink\<rparr>) @ [Slept 100];
         down = downlink_trace (be_now' be) (be_udp' be) (params\<lparr>cp_Direction := DirectionDownlink\<rparr>)
     in \<exists>S. prefix S up \<and> io_trace io' = io_trace io @ S \<and>
       (case second of
          None \<Rightarrow> \<exists>e. r = Inl e
        | Some d \<Rightarrow> S = up \<and> \<not> io_open io' \<and> \<not> io_open d \<and> io_serverAddr d = io_serverAddr io' \<and>
            (case r of
               Inl _ \<Rightarrow> prefix (io_trace d) down
             | Inr rs \<Rightarrow> io_trace d = down \<and>
                 (\<exists>u v. rs = [u, v] \<and> accounts DirectionUplink u \<and> accounts DirectionDownlink v)))"
proof -
  let ?U = "RunUplink (be_now be) (be_udp be) (params\<lparr>cp_Direction := DirectionUplink\<rparr>)"
  let ?D = "RunDownlink (be_now' be) (be_udp' be) (params\<lparr>cp_Direction := DirectionDownlink\<rparr>)"
  note U = follows_uplink [of "be_now be" "be_udp be" "params\<lparr>cp_Direction := DirectionUplink\<rparr>",
      unfolded follows_def, rule_format, of io]
  obtain r io1 where u: "?U io = (r, io1)" by fastforce
  show ?thesis
  proof (cases r)
    case (Inl e)
    then show ?thesis
      using U u by (auto simp: RunBoth_def Let_def intro: prefix_prefix)
  next
    case (Inr x)
    let ?io2 = "log_event (Slept 100) (Client_Close io1)"
    have io2: "io_trace ?io2 = io_trace io @ uplink_trace (be_now be) (be_udp be) (params\<lparr>cp_Direction := DirectionUplink\<rparr>) @ [Slept 100]"
        "\<not> io_open ?io2" "accounts DirectionUplink x"
      using U u Inr by (auto simp: log_event_def Client_Close_def)
    show ?thesis
    proof (cases "be_dial be (io_serverAddr ?io2)")
      case False
      then show ?thesis
        using u Inr io2 by (simp add: RunBoth_def Let_def NewClientConn_def)
    next
      case True
      let ?d = "\<lparr>io_serverAddr = io_serverAddr ?io2, io_sessionID = [], io_wr = be_wr be, io_in = be_in be, io_trace = [],
          io_open = True, io_udp_open = False\<rparr>"
      obtain r2 d where d: "?D ?d = (r2, d)" by fastforce
      have "io_serverAddr d = io_serverAddr ?io2"
        using keeps_addr_tests(2) [of "be_now' be" "be_udp' be" "params\<lparr>cp_Direction := DirectionDownlink\<rparr>",
            unfolded keeps_addr_def, rule_format, of ?d] d by simp
      then show ?thesis
        using u Inr io2 True d follows_downlink [of "be_now' be" "be_udp' be" "params\<lparr>cp_Direction := DirectionDownlink\<rparr>",
            unfolded follows_def, rule_format, of ?d]
        by (cases r2) (auto simp: RunBoth_def Let_def NewClientConn_def Client_Close_def)
    qed
  qed
qed

section \<open>Successful tests\<close>

text \<open>A response that carries a message of the server, and a connection on which \<open>n\<close> writes succeed.\<close>

definition response :: "message \<Rightarrow> frame_error + json option" where
  "response m = Inr (Some (EncodeMessage m (type_of_message m)))"

lemma recv_response:
  "wf_message m \<Longrightarrow> io_in io = response m # rs \<Longrightarrow>
     recvResponse what io = (Inr (type_of_message m, m), io\<lparr>io_in := rs\<rparr>)"
  by (simp add: recvResponse_def response_def DecodeEnvelope_EncodeMessage [OF type_of_message_range] Decode_Encode Let_def)

definition conn_to :: "string \<Rightarrow> nat \<Rightarrow> message list \<Rightarrow> client_io" where
  "conn_to addr n ms = \<lparr>io_serverAddr = addr, io_sessionID = [], io_wr = replicate n True, io_in = map response ms, io_trace = [], io_open = True,
     io_udp_open = False\<rparr>"

lemma uplink_success:
  assumes "wf_message (Ready rdy)" and "wf_message (Messages.Result res)"
    and "ue_listen env (udp_network (cp_Family params)) '':0''"
    and "ue_resolve env (udp_network (cp_Family params)) (send_address (uplink_sender_config params))"
    and "cp_PacketCount params = int n" "0 < n" "\<forall>k < n. ue_wr env k"
  shows "fst (RunUplink now env params (conn_to addr 5 [Ready rdy, Messages.Result res])) =
     Inr \<lparr>cr_Direction = DirectionUplink, cr_Sent = rm_Sent res, cr_Received = rm_Received res,
          cr_Lost = wrap64 (rm_Sent res - rm_Received res)\<rparr>"
    "probe_events env params = events_upto (uplink_sender_config params) (ue_clk env) 0 n"
proof -
  let ?s = "\<lparr>s_config = uplink_sender_config params, s_open = True\<rparr>"
  have cfg: "sc_Family (uplink_sender_config params) = cp_Family params" "sc_PacketCount (uplink_sender_config params) = int n"
    using assms(5) by (simp_all add: uplink_sender_config_def)
  have send: "Send (ue_resolve env) (ue_t0 env) (ue_clk env) (ue_wr env) (ue_elapsed env) ?s =
      (Inr \<lparr>sr_Sent = int n, sr_SequenceStart = 0, sr_SequenceEnd = of_nat (n - 1), sr_Duration = ue_elapsed env\<rparr>,
       events_upto (uplink_sender_config params) (ue_clk env) 0 n, ?s)"
    using Send_ok [of "ue_resolve env" ?s n "ue_wr env" "ue_t0 env" "ue_clk env" "ue_elapsed env"] assms cfg by simp
  then show "probe_events env params = events_upto (uplink_sender_config params) (ue_clk env) 0 n"
    by (simp add: probe_events_def)
  show "fst (RunUplink now env params (conn_to addr 5 [Ready rdy, Messages.Result res])) =
     Inr \<lparr>cr_Direction = DirectionUplink, cr_Sent = rm_Sent res, cr_Received = rm_Received res,
          cr_Lost = wrap64 (rm_Sent res - rm_Received res)\<rparr>"
    using assms(1-4) cfg send
    by (simp add: RunUplink_eq conn_to_def Let_def cbind_def setSessionID_def writeMsg_def log_event_def numeral_eq_Suc
        recv_response [of "Ready rdy"] recv_response [of "Messages.Result res"] expect_def sleep_def new_sender_def
        NewSender_def closing_udp_def send_probes_def uplink_result_def cret_def)
qed

lemma downlink_success:
  assumes "wf_message (Ready rdy)" and "wf_message (SendComplete sc)" and "wf_message (Messages.Result res)"
    and "ue_listen env (udp_network (cp_Family params)) '':0''"
  shows "fst (RunDownlink now env params (conn_to addr 4 [Ready rdy, SendComplete sc, Messages.Result res])) =
     (let matched = rr_Matched (UdpEngine.Result (snd (Receive
            \<lparr>r_config = downlink_receiver_config params, r_received = [], r_open = True\<rparr> (ue_events env))))
      in Inr \<lparr>cr_Direction = DirectionDownlink, cr_Sent = rm_Sent res, cr_Received = matched,
              cr_Lost = wrap64 (rm_Sent res - matched)\<rparr>)"
proof -
  have cfg: "rc_Family (downlink_receiver_config params) = cp_Family params"
    by (simp add: downlink_receiver_config_def)
  show ?thesis
    using assms cfg
    by (simp add: RunDownlink_eq conn_to_def Let_def cbind_def setSessionID_def writeMsg_def log_event_def numeral_eq_Suc
        recv_response [of "Ready rdy"] recv_response [of "Messages.Result res"] recv_response [of "SendComplete sc"]
        expect_def sleep_def new_receiver_def NewReceiver_def closing_udp_def downlink_result_def cret_def)
qed

definition sample_exchange :: "message list" where
  "sample_exchange =
     [Ready (BaseMessage.extend (new_base MsgTypeReady ''session-1'') (Ready.fields 9000)),
      Messages.Result (BaseMessage.extend (new_base MsgTypeResult ''session-1'') (ResultMsg.fields 3 2 (F64 False 0) 0))]"


end
