(* ===== verification/Session.thy ===== *)
theory Session
  imports UdpEngine Messages Framing
begin

text \<open>
  \<^verbatim>\<open>internal/control/session.go\<close>: the server side of one diagnostic session.

  A \<open>world\<close> is the session together with what its two goroutines share: the message loop and the
  worker that \<^verbatim>\<open>handleStart\<close> spawns (the downlink sender or the uplink receiver). Every handler is a
  function on it; \<open>exec\<close> composes them into the steps of the two goroutines, cut where one of them
  blocks or where the other can change what it reads, and any interleaving of steps is a run.
  A label carries what the environment decides: what a read returns, whether a write succeeds,
  whether a socket can be opened.
\<close>

section \<open>State\<close>

text \<open>
  The fields \<open>sender\<close>, \<open>receiver\<close>, \<open>conn\<close>, \<open>quitCh\<close> and \<open>receiverDone\<close> are pointers; the record says whether
  they are set, what they point to is in the world.
\<close>

record Session =
  ss_id :: string
  ss_state :: SessionState
  ss_udpPort :: goint
  ss_direction :: Direction
  ss_family :: Family
  ss_payloadSize :: goint
  ss_packetCount :: goint
  ss_intervalMs :: goint
  ss_clientReceivePort :: goint
  ss_targetAddress :: string
  ss_sender :: bool
  ss_receiver :: bool
  ss_sentCount :: goint
  ss_receivedCount :: goint
  ss_conn :: bool
  ss_quitCh :: bool
  ss_receiverDone :: bool

text \<open>\<open>now\<close> is the clock in nanoseconds.\<close>

definition generateSessionID :: "goint \<Rightarrow> string" where
  "generateSessionID now = ''session-'' @ show_int now"

definition NewSession :: "goint \<Rightarrow> Session" where
  "NewSession now = \<lparr>ss_id = generateSessionID now, ss_state = StateIdle, ss_udpPort = 0, ss_direction = 0,
     ss_family = 0, ss_payloadSize = 0, ss_packetCount = 0, ss_intervalMs = 0, ss_clientReceivePort = 0,
     ss_targetAddress = [], ss_sender = False, ss_receiver = False, ss_sentCount = 0, ss_receivedCount = 0,
     ss_conn = False, ss_quitCh = False, ss_receiverDone = False\<rparr>"

text \<open>
  Where the message loop is: at its top, waiting in \<^verbatim>\<open>handleSendComplete\<close> (with whether it waits for the
  receiver), returned, or panicked on a failed type assertion.
\<close>

datatype loop_pc = AtTop | Waiting bool | Returned | Panicked

datatype worker =
    NoWorker | DownCreate | DownSending Sender | DownSent | UpCreate | UpReceiving | UpReceived | Finished

record world =
  w_session :: Session
  w_remote :: "bytes option"
  w_open :: bool
  w_out :: "message list"
  w_probes :: "send_event list"
  w_receiver :: "Receiver option"
  w_quitClosed :: bool
  w_doneClosed :: bool
  w_loop :: loop_pc
  w_worker :: worker

abbreviation state_of :: "world \<Rightarrow> SessionState" where
  "state_of w \<equiv> ss_state (w_session w)"

definition upd :: "(Session \<Rightarrow> Session) \<Rightarrow> world \<Rightarrow> world" where
  "upd f w = w\<lparr>w_session := f (w_session w)\<rparr>"

text \<open>
  The connection at the moment the session gets it. \<open>remote\<close> is the address of a TCP peer, \<open>None\<close>
  for a connection of another kind.
\<close>

definition new_world :: "goint \<Rightarrow> bytes option \<Rightarrow> world" where
  "new_world now remote = \<lparr>w_session = NewSession now, w_remote = remote, w_open = True, w_out = [],
     w_probes = [], w_receiver = None, w_quitClosed = False, w_doneClosed = False, w_loop = AtTop,
     w_worker = NoWorker\<rparr>"

section \<open>Replies\<close>

text \<open>A write succeeds when the connection is open and the peer takes it (\<open>wr\<close>).\<close>

definition write_reply :: "bool \<Rightarrow> message \<Rightarrow> world \<Rightarrow> bool \<times> world" where
  "write_reply wr m w = (if wr \<and> w_open w then (True, w\<lparr>w_out := w_out w @ [m]\<rparr>) else (False, w))"

definition sendError :: "bool \<Rightarrow> ErrorCode \<Rightarrow> string \<Rightarrow> world \<Rightarrow> world" where
  "sendError wr code msg w =
     snd (write_reply wr (InternalError (BaseMessage.extend (new_base MsgTypeInternalError (ss_id (w_session w)))
       (ErrorMsg.fields code msg))) w)"

definition sendInvalidRequest :: "bool \<Rightarrow> string \<Rightarrow> world \<Rightarrow> world" where
  "sendInvalidRequest wr msg w =
     snd (write_reply wr (InvalidRequest (BaseMessage.extend (new_base MsgTypeInvalidRequest (ss_id (w_session w)))
       (ErrorMsg.fields ErrInvalidRequest msg))) w)"

definition loss_rate :: "goint \<Rightarrow> goint \<Rightarrow> f64" where
  "loss_rate sent received =
     (if 0 < sent then f64_mul (f64_div (f64_of_int (wrap64 (sent - received))) (f64_of_int sent)) (f64_const 100)
      else F64 False 0)"

definition result_message :: "Session \<Rightarrow> message" where
  "result_message s =
     (let sent = (if ss_sentCount s = 0 then ss_packetCount s else ss_sentCount s);
          received = ss_receivedCount s
      in Messages.Result (BaseMessage.extend (new_base MsgTypeResult (ss_id s))
           (ResultMsg.fields sent received (loss_rate sent received) 0)))"

text \<open>The result is whether an error is returned; the connection is closed in both cases.\<close>

definition sendResult :: "bool \<Rightarrow> world \<Rightarrow> bool \<times> world" where
  "sendResult wr w =
     (case write_reply wr (result_message (w_session w)) w of
        (ok, w) \<Rightarrow> (\<not> ok, w\<lparr>w_open := False\<rparr>))"

section \<open>State changes and cleanup\<close>

definition setState :: "SessionState \<Rightarrow> world \<Rightarrow> (invalidTransition + unit) \<times> world" where
  "setState st w =
     (case Transition (state_of w) st of
        Inl e \<Rightarrow> (Inl e, w)
      | Inr _ \<Rightarrow> (Inr (), upd (ss_state_update (\<lambda>_. st)) w))"

definition cleanupLocked :: "world \<Rightarrow> world" where
  "cleanupLocked w =
     (let w = (if ss_conn (w_session w) then (upd (ss_conn_update (\<lambda>_. False)) w)\<lparr>w_open := False\<rparr> else w)
      in if ss_receiver (w_session w)
         then (upd (ss_receiver_update (\<lambda>_. False)) w)\<lparr>w_receiver := map_option Receiver_Close (w_receiver w)\<rparr>
         else w)"

definition cleanupNoStateChange :: "world \<Rightarrow> world" where
  "cleanupNoStateChange w = cleanupLocked w"

definition cleanup :: "world \<Rightarrow> world" where
  "cleanup w = cleanupLocked w"

definition cancelSession :: "world \<Rightarrow> world" where
  "cancelSession w =
     cleanupLocked (if \<not> IsTerminal (state_of w) then upd (ss_state_update (\<lambda>_. StateCancelled)) w else w)"

definition handleCancel :: "world \<Rightarrow> bool \<times> world" where
  "handleCancel w =
     (if state_of w = StateIdle \<or> IsTerminal (state_of w) then (False, w)
      else (True, cleanupNoStateChange (upd (ss_state_update (\<lambda>_. StateCancelled)) w)))"

definition handleTimeout :: "world \<Rightarrow> world" where
  "handleTimeout w =
     cleanupNoStateChange
       (if state_of w = StatePreparing then upd (ss_state_update (\<lambda>_. StateFailed)) w
        else if state_of w = StateRunning then upd (ss_state_update (\<lambda>_. StateCollecting)) w
        else if state_of w = StateCollecting then upd (ss_state_update (\<lambda>_. StateFailed)) w
        else w)"

section \<open>Message handlers\<close>

text \<open>Each handler returns whether it returns an error, which ends the message loop.\<close>

definition handleHello :: "bool \<Rightarrow> Hello \<Rightarrow> world \<Rightarrow> bool \<times> world" where
  "handleHello wr msg w =
     (False, if h_ClientVersion msg \<noteq> ProtocolVersion
             then sendInvalidRequest wr ''protocol version mismatch'' w else w)"

definition remote_is_IPv6 :: "bytes option \<Rightarrow> bool" where
  "remote_is_IPv6 remote = (case remote of None \<Rightarrow> False | Some ip \<Rightarrow> To4 ip = None \<and> To16 ip \<noteq> None)"

definition remote_text :: "bytes option \<Rightarrow> string" where
  "remote_text remote = (case remote of None \<Rightarrow> [] | Some ip \<Rightarrow> IP_String ip)"

definition target_address :: "bytes option \<Rightarrow> Prepare \<Rightarrow> string" where
  "target_address remote msg =
     (let targetPort = (if p_Direction msg = DirectionDownlink \<and> p_ClientReceivePort msg \<noteq> 0
                        then p_ClientReceivePort msg else p_UDPPort msg)
      in if p_Family msg = FamilyIPv6 then ''['' @ remote_text remote @ '']:'' @ show_int targetPort
         else remote_text remote @ '':'' @ show_int targetPort)"

definition store_prepare :: "Prepare \<Rightarrow> Session \<Rightarrow> Session" where
  "store_prepare msg s = s\<lparr>ss_udpPort := p_UDPPort msg, ss_direction := p_Direction msg, ss_family := p_Family msg,
     ss_payloadSize := p_PayloadSize msg, ss_packetCount := p_PacketCount msg, ss_intervalMs := p_IntervalMs msg,
     ss_clientReceivePort := p_ClientReceivePort msg\<rparr>"

definition handlePrepare :: "bool \<Rightarrow> Prepare \<Rightarrow> world \<Rightarrow> bool \<times> world" where
  "handlePrepare wr msg w =
     (if state_of w \<noteq> StatePreparing
      then (False, sendInvalidRequest wr (''unexpected prepare in state '' @ SessionState_String (state_of w)) w)
      else
        let w = upd (store_prepare msg) w in
        if p_Family msg = FamilyIPv6 \<and> \<not> remote_is_IPv6 (w_remote w)
        then (False, sendInvalidRequest wr
               ''IPv6 test requires IPv6 TCP connection; cannot use IPv4 address for IPv6 target'' w)
        else
          let w = upd (ss_targetAddress_update (\<lambda>_. target_address (w_remote w) msg)) w in
          (case setState StateReady w of
             (Inl e, w) \<Rightarrow> (True, sendError wr ErrInternalError (invalidTransition_Error e) w)
           | (Inr _, w) \<Rightarrow>
               (case write_reply wr (Ready (BaseMessage.extend (new_base MsgTypeReady (ss_id (w_session w)))
                       (Ready.fields (ss_udpPort (w_session w))))) w of
                  (ok, w) \<Rightarrow> (\<not> ok, w))))"

definition handleStart :: "bool \<Rightarrow> world \<Rightarrow> bool \<times> world" where
  "handleStart wr w =
     (if state_of w \<noteq> StateReady
      then (False, sendInvalidRequest wr (''unexpected start in state '' @ SessionState_String (state_of w)) w)
      else case setState StateRunning w of
        (Inl e, w) \<Rightarrow> (True, sendError wr ErrInternalError (invalidTransition_Error e) w)
      | (Inr _, w) \<Rightarrow>
          (False, w\<lparr>w_worker := if ss_direction (w_session w) = DirectionDownlink then DownCreate else UpCreate\<rparr>))"

text \<open>
  \<^verbatim>\<open>handleSendComplete\<close> up to the point where it waits for the receiver, then the rest. The first part
  leaves the loop waiting when there is a rest to do.
\<close>

definition handleSendComplete :: "bool \<Rightarrow> world \<Rightarrow> world" where
  "handleSendComplete wr w =
     (if state_of w = StateCollecting then w
      else if state_of w \<noteq> StateRunning
      then sendInvalidRequest wr (''unexpected send_complete in state '' @ SessionState_String (state_of w)) w
      else if ss_direction (w_session w) = DirectionUplink then
        let w = (if ss_quitCh (w_session w)
                 then (upd (ss_quitCh_update (\<lambda>_. False)) w)\<lparr>w_quitClosed := True\<rparr> else w)
        in w\<lparr>w_loop := Waiting (ss_receiverDone (w_session w))\<rparr>
      else w\<lparr>w_loop := Waiting False\<rparr>)"

definition handleSendComplete_rest :: "bool \<Rightarrow> world \<Rightarrow> bool \<times> world" where
  "handleSendComplete_rest wr w =
     (case setState StateCollecting w of
        (Inl e, w) \<Rightarrow> (True, sendError wr ErrInternalError (invalidTransition_Error e) w)
      | (Inr _, w) \<Rightarrow> (False, w))"

definition handleFetchResult :: "bool \<Rightarrow> world \<Rightarrow> bool \<times> world" where
  "handleFetchResult wr w =
     (if state_of w \<noteq> StateCollecting then
        if state_of w = StateCompleted \<or> state_of w = StateFailed then sendResult wr w
        else (False, sendInvalidRequest wr (''unexpected fetch_result in state '' @ SessionState_String (state_of w)) w)
      else case setState StateCompleted w of
        (Inl e, w) \<Rightarrow> (True, sendError wr ErrInternalError (invalidTransition_Error e) w)
      | (Inr _, w) \<Rightarrow> sendResult wr w)"

text \<open>The loop after a handler: it returns on an error and goes back to its top otherwise.\<close>

definition after :: "bool \<times> world \<Rightarrow> world" where
  "after r = (case r of (err, w) \<Rightarrow> w\<lparr>w_loop := if err then Returned else AtTop\<rparr>)"

definition handleMessage :: "bool \<Rightarrow> MessageType \<Rightarrow> message \<Rightarrow> world \<Rightarrow> world" where
  "handleMessage wr msgType msg w =
     (if msgType = MsgTypeHello then
        (case msg of Hello m \<Rightarrow> after (handleHello wr m w) | _ \<Rightarrow> w\<lparr>w_loop := Panicked\<rparr>)
      else if msgType = MsgTypePrepare then
        (case msg of Prepare m \<Rightarrow> after (handlePrepare wr m w) | _ \<Rightarrow> w\<lparr>w_loop := Panicked\<rparr>)
      else if msgType = MsgTypeStart then after (handleStart wr w)
      else if msgType = MsgTypeSendComplete then handleSendComplete wr w
      else if msgType = MsgTypeFetchResult then after (handleFetchResult wr w)
      else if msgType = MsgTypeCancel then after (False, snd (handleCancel w))
      else after (False, sendInvalidRequest wr ''unknown message type'' w))"

section \<open>The worker\<close>

text \<open>
  \<^verbatim>\<open>runDownlinkSender\<close> in three parts: opening the socket, sending the probes, completing. \<open>txt\<close> is the
  text of an error of the operating system.
\<close>

definition downlink_config :: "Session \<Rightarrow> SenderConfig" where
  "downlink_config s = \<lparr>sc_SessionID = 0, sc_TestID = 0, sc_Direction = DirectionDownlink, sc_Family = ss_family s,
     sc_TargetAddress = ss_targetAddress s, sc_UDPPort = to_uint16 (ss_clientReceivePort s),
     sc_PayloadSize = to_uint16 (ss_payloadSize s), sc_PacketCount = ss_packetCount s,
     sc_Interval = wrap64 (ss_intervalMs s * Millisecond)\<rparr>"

definition downlink_create :: "(string \<Rightarrow> string \<Rightarrow> bool) \<Rightarrow> string \<Rightarrow> bool \<Rightarrow> world \<Rightarrow> world" where
  "downlink_create listen txt wr w =
     (case NewSender listen (downlink_config (w_session w)) of
        Inl _ \<Rightarrow> (sendError wr ErrInternalError txt w)\<lparr>w_worker := Finished\<rparr>
      | Inr sender \<Rightarrow> (upd (ss_sender_update (\<lambda>_. True)) w)\<lparr>w_worker := DownSending sender\<rparr>)"

definition downlink_send ::
  "(string \<Rightarrow> string \<Rightarrow> bool) \<Rightarrow> goint \<Rightarrow> (nat \<Rightarrow> goint) \<Rightarrow> (nat \<Rightarrow> bool) \<Rightarrow> goint \<Rightarrow> string \<Rightarrow> bool \<Rightarrow>
     Sender \<Rightarrow> world \<Rightarrow> world"
where
  "downlink_send resolve t0 clk udp_wr elapsed txt wr sender w =
     (case Send resolve t0 clk udp_wr elapsed sender of
        (res, events, _) \<Rightarrow>
          let w = (upd (ss_sender_update (\<lambda>_. False)) w)\<lparr>w_probes := w_probes w @ events\<rparr> in
          (case res of
             Inl _ \<Rightarrow> (sendError wr ErrInternalError txt w)\<lparr>w_worker := Finished\<rparr>
           | Inr sent \<Rightarrow>
               (upd (ss_sentCount_update (\<lambda>_. sr_Sent sent)) w)\<lparr>w_worker := DownSent\<rparr>))"

definition downlink_complete :: "bool \<Rightarrow> world \<Rightarrow> world" where
  "downlink_complete wr w =
     (case setState StateCollecting w of
        (Inl e, w) \<Rightarrow> (sendError wr ErrInternalError (invalidTransition_Error e) w)\<lparr>w_worker := Finished\<rparr>
      | (Inr _, w) \<Rightarrow>
          (snd (write_reply wr (SendComplete (new_base MsgTypeSendComplete (ss_id (w_session w)))) w))
            \<lparr>w_worker := Finished\<rparr>)"

text \<open>\<^verbatim>\<open>runUplinkReceiver\<close>: opening the socket under the lock, receiving until told to quit, counting.\<close>

definition uplink_config :: "Session \<Rightarrow> ReceiverConfig" where
  "uplink_config s = \<lparr>rc_SessionID = 0, rc_TestID = 0, rc_Direction = DirectionUplink, rc_Family = ss_family s,
     rc_ReceiveWindow =
       wrap64 (wrap64 (wrap64 (ss_packetCount s * ss_intervalMs s) + 1000) * Millisecond)\<rparr>"

definition uplink_bind :: "Session \<Rightarrow> string" where
  "uplink_bind s =
     (if ss_family s = FamilyIPv6 then ''[::]:'' @ show_int (ss_udpPort s)
      else ''0.0.0.0:'' @ show_int (ss_udpPort s))"

definition uplink_create :: "(string \<Rightarrow> string \<Rightarrow> bool) \<Rightarrow> string \<Rightarrow> bool \<Rightarrow> world \<Rightarrow> world" where
  "uplink_create listen txt wr w =
     (let w = upd (\<lambda>s. s\<lparr>ss_quitCh := True, ss_receiverDone := True\<rparr>) w in
      case NewReceiver listen (uplink_config (w_session w)) (uplink_bind (w_session w)) of
        Inl _ \<Rightarrow> (sendError wr ErrInternalError txt w)\<lparr>w_doneClosed := True, w_worker := Finished\<rparr>
      | Inr r \<Rightarrow> (upd (ss_receiver_update (\<lambda>_. True)) w)\<lparr>w_receiver := Some r, w_worker := UpReceiving\<rparr>)"

definition uplink_receive :: "recv_event list \<Rightarrow> Receiver \<Rightarrow> world \<Rightarrow> world" where
  "uplink_receive es r w = w\<lparr>w_receiver := Some (snd (Receive r es)), w_worker := UpReceived\<rparr>"

definition uplink_finish :: "Receiver \<Rightarrow> world \<Rightarrow> world" where
  "uplink_finish r w =
     (let r = Receiver_Close r in
      (upd (\<lambda>s. s\<lparr>ss_receivedCount := rr_Received (UdpEngine.Result r), ss_receiver := False\<rparr>) w)
        \<lparr>w_receiver := Some r, w_doneClosed := True, w_worker := Finished\<rparr>)"

section \<open>Steps\<close>

definition Run :: "bool \<Rightarrow> world \<Rightarrow> world" where
  "Run wr w =
     (let w = upd (ss_conn_update (\<lambda>_. True)) w in
      case setState StatePreparing w of
        (Inl e, w) \<Rightarrow> (sendError wr ErrInternalError (invalidTransition_Error e) w)\<lparr>w_loop := Returned\<rparr>
      | (Inr _, w) \<Rightarrow> w\<lparr>w_loop := AtTop\<rparr>)"

datatype label =
    LTerminal
  | LCtxDone
  | LReadError frame_error string bool
  | LData "json option" bool
  | LResume bool
  | WDownCreate "string \<Rightarrow> string \<Rightarrow> bool" string bool
  | WDownSend "string \<Rightarrow> string \<Rightarrow> bool" goint "nat \<Rightarrow> goint" "nat \<Rightarrow> bool" goint string bool
  | WDownComplete bool
  | WUpCreate "string \<Rightarrow> string \<Rightarrow> bool" string bool
  | WUpReceive "recv_event list"
  | WUpFinish

text \<open>
  One iteration of \<^verbatim>\<open>handleMessages\<close>, for each thing it can meet. \<open>None\<close> says that the step cannot
  happen: a connection that was closed on this side only ever returns an error other than end of
  file and time-out. A message that is not JSON text is \<open>LData None\<close>.
\<close>

definition read_possible :: "world \<Rightarrow> frame_error \<Rightarrow> bool" where
  "read_possible w err \<longleftrightarrow> w_open w \<or> err = ConnError OtherError"

definition loop_error :: "frame_error \<Rightarrow> string \<Rightarrow> bool \<Rightarrow> world \<Rightarrow> world" where
  "loop_error err txt wr w =
     (if err = ConnError EOF \<or> isTimeout err then
        let w = handleTimeout w
        in w\<lparr>w_loop := if state_of w \<in> {StateFailed, StateCompleted, StateCancelled} then Returned else AtTop\<rparr>
      else (sendError wr ErrInternalError txt w)\<lparr>w_loop := Returned\<rparr>)"

definition loop_data :: "json option \<Rightarrow> bool \<Rightarrow> world \<Rightarrow> world" where
  "loop_data data wr w =
     (case (case data of None \<Rightarrow> Inl SyntaxError | Some j \<Rightarrow> DecodeEnvelope j) of
        Inl _ \<Rightarrow> sendInvalidRequest wr ''failed to decode message'' w
      | Inr (msgType, msg) \<Rightarrow> handleMessage wr msgType msg w)"

definition loop_terminal :: "world \<Rightarrow> bool" where
  "loop_terminal w \<longleftrightarrow> state_of w = StateFailed \<or> state_of w = StateCompleted \<or> state_of w = StateCancelled"

fun exec :: "label \<Rightarrow> world \<Rightarrow> world option" where
  "exec LTerminal w =
     (if w_loop w = AtTop \<and> loop_terminal w then Some (w\<lparr>w_loop := Returned\<rparr>) else None)"
| "exec LCtxDone w =
     (if w_loop w = AtTop \<and> \<not> loop_terminal w then Some ((snd (handleCancel w))\<lparr>w_loop := Returned\<rparr>) else None)"
| "exec (LReadError err txt wr) w =
     (if w_loop w = AtTop \<and> \<not> loop_terminal w \<and> read_possible w err then Some (loop_error err txt wr w) else None)"
| "exec (LData data wr) w =
     (if w_loop w = AtTop \<and> \<not> loop_terminal w \<and> w_open w then Some (loop_data data wr w) else None)"
| "exec (LResume wr) w =
     (case w_loop w of
        Waiting done \<Rightarrow> if done \<longrightarrow> w_doneClosed w then Some (after (handleSendComplete_rest wr w)) else None
      | _ \<Rightarrow> None)"
| "exec (WDownCreate listen txt wr) w =
     (if w_worker w = DownCreate then Some (downlink_create listen txt wr w) else None)"
| "exec (WDownSend resolve t0 clk udp_wr elapsed txt wr) w =
     (case w_worker w of
        DownSending sender \<Rightarrow> Some (downlink_send resolve t0 clk udp_wr elapsed txt wr sender w)
      | _ \<Rightarrow> None)"
| "exec (WDownComplete wr) w = (if w_worker w = DownSent then Some (downlink_complete wr w) else None)"
| "exec (WUpCreate listen txt wr) w =
     (if w_worker w = UpCreate then Some (uplink_create listen txt wr w) else None)"
| "exec (WUpReceive es) w =
     (case w_receiver w of
        Some r \<Rightarrow>
          if w_worker w = UpReceiving \<and> fst (Receive r es) \<noteq> None \<and> (QuitClosed \<in> set es \<longrightarrow> w_quitClosed w)
          then Some (uplink_receive es r w) else None
      | None \<Rightarrow> None)"
| "exec WUpFinish w =
     (case w_receiver w of
        Some r \<Rightarrow> if w_worker w = UpReceived then Some (uplink_finish r w) else None
      | None \<Rightarrow> None)"

fun execs :: "label list \<Rightarrow> world \<Rightarrow> world option" where
  "execs [] w = Some w"
| "execs (l # ls) w = (case exec l w of None \<Rightarrow> None | Some w \<Rightarrow> execs ls w)"

section \<open>What the helpers change\<close>

named_theorems frame_rules \<open>the fields that an operation leaves alone\<close>

lemma upd_fields [frame_rules]:
  "w_session (upd f w) = f (w_session w)" "w_open (upd f w) = w_open w" "w_out (upd f w) = w_out w"
  "w_loop (upd f w) = w_loop w" "w_worker (upd f w) = w_worker w" "w_remote (upd f w) = w_remote w"
  "w_receiver (upd f w) = w_receiver w" "w_quitClosed (upd f w) = w_quitClosed w"
  "w_doneClosed (upd f w) = w_doneClosed w" "w_probes (upd f w) = w_probes w"
  by (simp_all add: upd_def)

lemma write_reply_fields [frame_rules]:
  "w_session (snd (write_reply wr m w)) = w_session w" "w_open (snd (write_reply wr m w)) = w_open w"
  "w_loop (snd (write_reply wr m w)) = w_loop w" "w_worker (snd (write_reply wr m w)) = w_worker w"
  "w_remote (snd (write_reply wr m w)) = w_remote w" "w_receiver (snd (write_reply wr m w)) = w_receiver w"
  "w_quitClosed (snd (write_reply wr m w)) = w_quitClosed w" "w_doneClosed (snd (write_reply wr m w)) = w_doneClosed w"
  by (simp_all add: write_reply_def)

lemma reply_fields [frame_rules]:
  "w_session (sendError wr c t w) = w_session w" "w_session (sendInvalidRequest wr t w) = w_session w"
  "w_open (sendError wr c t w) = w_open w" "w_open (sendInvalidRequest wr t w) = w_open w"
  "w_loop (sendError wr c t w) = w_loop w" "w_loop (sendInvalidRequest wr t w) = w_loop w"
  "w_worker (sendError wr c t w) = w_worker w" "w_worker (sendInvalidRequest wr t w) = w_worker w"
  "w_receiver (sendError wr c t w) = w_receiver w" "w_receiver (sendInvalidRequest wr t w) = w_receiver w"
  "w_quitClosed (sendError wr c t w) = w_quitClosed w" "w_quitClosed (sendInvalidRequest wr t w) = w_quitClosed w"
  "w_doneClosed (sendError wr c t w) = w_doneClosed w" "w_doneClosed (sendInvalidRequest wr t w) = w_doneClosed w"
  by (simp_all add: sendError_def sendInvalidRequest_def frame_rules)

lemma cleanup_fields [frame_rules]:
  "state_of (cleanupLocked w) = state_of w" "w_loop (cleanupLocked w) = w_loop w"
  "w_worker (cleanupLocked w) = w_worker w" "w_out (cleanupLocked w) = w_out w"
  "ss_direction (w_session (cleanupLocked w)) = ss_direction (w_session w)"
  "w_quitClosed (cleanupLocked w) = w_quitClosed w" "w_doneClosed (cleanupLocked w) = w_doneClosed w"
  "ss_quitCh (w_session (cleanupLocked w)) = ss_quitCh (w_session w)"
  "ss_receiverDone (w_session (cleanupLocked w)) = ss_receiverDone (w_session w)"
  by (simp_all add: cleanupLocked_def Let_def upd_def)

lemma setState_eq:
  "setState st w =
     (if canTransition (state_of w) st then (Inr (), upd (ss_state_update (\<lambda>_. st)) w)
      else (Inl (invalidTransition (state_of w) st), w))"
  by (simp add: setState_def Transition_def)

lemma after_fields [frame_rules]: "w_session (after r) = w_session (snd r)" "w_out (after r) = w_out (snd r)"
  "w_open (after r) = w_open (snd r)" "w_worker (after r) = w_worker (snd r)"
  "w_quitClosed (after r) = w_quitClosed (snd r)" "w_doneClosed (after r) = w_doneClosed (snd r)"
  by (simp_all add: after_def split: prod.split)

lemma sendResult_fields [frame_rules]:
  "w_session (snd (sendResult wr w)) = w_session w" "w_open (snd (sendResult wr w)) = False"
  "w_worker (snd (sendResult wr w)) = w_worker w"
  by (simp_all add: sendResult_def write_reply_def)

lemmas handler_defs = handleHello_def handlePrepare_def handleStart_def handleSendComplete_def
  handleSendComplete_rest_def handleFetchResult_def handleCancel_def handleTimeout_def cleanupNoStateChange_def

lemmas worker_defs = downlink_create_def downlink_send_def downlink_complete_def
  uplink_create_def uplink_receive_def uplink_finish_def

section \<open>The session state\<close>

text \<open>
  The moves of the session state: those of the transition table, and the cancellation of a session
  that is collecting, which the table does not have.
\<close>

definition state_move :: "SessionState \<Rightarrow> SessionState \<Rightarrow> bool" where
  "state_move s t \<longleftrightarrow> s = t \<or> canTransition s t \<or> (s = StateCollecting \<and> t = StateCancelled)"

lemmas move_rules = state_move_def setState_eq canTransition_cases Let_def case_prod_beta

lemma prepare_moves: "state_move (state_of w) (state_of (snd (handlePrepare wr p w)))"
  by (simp add: handlePrepare_def store_prepare_def move_rules frame_rules)

lemma start_moves: "state_move (state_of w) (state_of (snd (handleStart wr w)))"
  by (simp add: handleStart_def move_rules frame_rules)

lemma send_complete_moves:
  "state_move (state_of w) (state_of (handleSendComplete wr w))"
  "state_move (state_of w) (state_of (snd (handleSendComplete_rest wr w)))"
  by (simp_all add: handleSendComplete_def handleSendComplete_rest_def state_move_def setState_eq Let_def frame_rules)

lemma fetch_moves: "state_move (state_of w) (state_of (snd (handleFetchResult wr w)))"
  by (simp add: handleFetchResult_def move_rules frame_rules)

lemma cancel_moves: "state_move (state_of w) (state_of (snd (handleCancel w)))"
  by (cases "state_of w")
    (simp_all add: handleCancel_def cleanupNoStateChange_def IsTerminal_def move_rules frame_rules)

lemma timeout_moves: "state_move (state_of w) (state_of (handleTimeout w))"
  by (simp add: handleTimeout_def cleanupNoStateChange_def move_rules frame_rules)

lemma state_move_refl [simp]: "state_move s s"
  by (simp add: state_move_def)

lemma message_moves: "state_move (state_of w) (state_of (handleMessage wr t m w))"
  using prepare_moves [of w wr] start_moves [of w wr] send_complete_moves [of w wr] fetch_moves [of w wr]
    cancel_moves [of w]
  by (auto simp: handleMessage_def handleHello_def frame_rules split: message.split)

lemma worker_moves:
  "state_of (downlink_create listen txt wr w) = state_of w"
  "state_of (downlink_send resolve t0 clk udp_wr elapsed txt wr sender w) = state_of w"
  "state_move (state_of w) (state_of (downlink_complete wr w))"
  "state_of (uplink_create listen txt wr w) = state_of w"
  "state_of (uplink_receive es r w) = state_of w"
  "state_of (uplink_finish r w) = state_of w"
  by (simp_all add: worker_defs Let_def case_prod_beta state_move_def setState_eq frame_rules split: sum.split)

lemma exec_moves: "exec l w = Some w' \<Longrightarrow> state_move (state_of w) (state_of w')"
  using cancel_moves [of w] timeout_moves [of w] message_moves [of w] worker_moves send_complete_moves(2) [of w]
  by (cases l)
    (auto simp: loop_error_def loop_data_def frame_rules Let_def split: if_splits option.splits sum.splits
      loop_pc.splits worker.splits)

lemma state_move_rank: "state_move s t \<Longrightarrow> s \<noteq> StateIdle \<Longrightarrow> t \<noteq> StateIdle \<Longrightarrow> s = t \<or> state_rank s < state_rank t"
  by (auto simp: state_move_def canTransition_cases)

section \<open>Invariant\<close>

fun is_down :: "worker \<Rightarrow> bool" where
  "is_down DownCreate = True"
| "is_down (DownSending _) = True"
| "is_down DownSent = True"
| "is_down _ = False"

fun is_up :: "worker \<Rightarrow> bool" where
  "is_up UpCreate = True"
| "is_up UpReceiving = True"
| "is_up UpReceived = True"
| "is_up _ = False"

text \<open>
  The worker exists once the session runs, it is the one of the session's direction, and only a
  session that runs or collects has its loop waiting, an uplink session while it runs.
\<close>

definition life_inv :: "world \<Rightarrow> bool" where
  "life_inv w \<longleftrightarrow>
     state_of w \<noteq> StateIdle \<and> w_loop w \<noteq> Panicked \<and>
     (w_worker w = NoWorker \<longrightarrow> state_of w \<in> {StatePreparing, StateReady, StateFailed, StateCancelled}) \<and>
     (w_worker w \<noteq> NoWorker \<longrightarrow> state_of w \<notin> {StatePreparing, StateReady}) \<and>
     (is_down (w_worker w) \<longrightarrow> ss_direction (w_session w) = DirectionDownlink) \<and>
     (is_up (w_worker w) \<longrightarrow> ss_direction (w_session w) \<noteq> DirectionDownlink) \<and>
     (\<forall>b. w_loop w = Waiting b \<longrightarrow> state_of w \<in> {StateRunning, StateCollecting} \<and>
        (ss_direction (w_session w) \<noteq> DirectionDownlink \<longrightarrow> state_of w = StateRunning))"

lemma direction_kept:
  "ss_direction (w_session (snd (handleStart wr w))) = ss_direction (w_session w)"
  "ss_direction (w_session (handleSendComplete wr w)) = ss_direction (w_session w)"
  "ss_direction (w_session (snd (handleSendComplete_rest wr w))) = ss_direction (w_session w)"
  "ss_direction (w_session (snd (handleFetchResult wr w))) = ss_direction (w_session w)"
  "ss_direction (w_session (snd (handleCancel w))) = ss_direction (w_session w)"
  "ss_direction (w_session (handleTimeout w)) = ss_direction (w_session w)"
  by (simp_all add: handler_defs setState_eq Let_def frame_rules)

lemma life_loop: "life_inv w \<Longrightarrow> pc \<in> {AtTop, Returned} \<Longrightarrow> life_inv (w\<lparr>w_loop := pc\<rparr>)"
  by (auto simp: life_inv_def)

lemma life_reply:
  "life_inv (sendError wr c t w) = life_inv w" "life_inv (sendInvalidRequest wr t w) = life_inv w"
  by (simp_all add: life_inv_def frame_rules)

lemma life_timeout: "life_inv w \<Longrightarrow> w_loop w = AtTop \<Longrightarrow> life_inv (handleTimeout w)"
  by (auto simp: life_inv_def handleTimeout_def cleanupNoStateChange_def frame_rules)

lemma life_cancel: "life_inv w \<Longrightarrow> w_loop w = AtTop \<Longrightarrow> life_inv (snd (handleCancel w))"
  by (auto simp: life_inv_def handleCancel_def cleanupNoStateChange_def frame_rules)

lemma life_after: "life_inv (snd r) \<Longrightarrow> life_inv (after r)"
  by (cases r) (simp add: after_def life_loop)

lemma life_prepare: "life_inv w \<Longrightarrow> w_loop w = AtTop \<Longrightarrow> life_inv (snd (handlePrepare wr p w))"
  by (auto simp: handlePrepare_def store_prepare_def life_inv_def setState_eq Let_def case_prod_beta frame_rules)

lemma life_start: "life_inv w \<Longrightarrow> w_loop w = AtTop \<Longrightarrow> life_inv (snd (handleStart wr w))"
  by (auto simp: handleStart_def life_inv_def setState_eq frame_rules)

lemma life_send_complete: "life_inv w \<Longrightarrow> w_loop w = AtTop \<Longrightarrow> life_inv (handleSendComplete wr w)"
  by (auto simp: handleSendComplete_def life_inv_def Let_def frame_rules)

lemma life_rest: "life_inv w \<Longrightarrow> w_loop w = Waiting b \<Longrightarrow> life_inv (after (handleSendComplete_rest wr w))"
  by (auto simp: handleSendComplete_rest_def life_inv_def setState_eq after_def frame_rules)

lemma life_fetch: "life_inv w \<Longrightarrow> w_loop w = AtTop \<Longrightarrow> life_inv (after (handleFetchResult wr w))"
  by (auto simp: handleFetchResult_def life_inv_def setState_eq after_def sendResult_def write_reply_def frame_rules)

lemma life_message:
  assumes "life_inv w" "w_loop w = AtTop" "type_of_message m = t"
  shows "life_inv (handleMessage wr t m w)"
proof -
  have h: "life_inv (after (handleHello wr h w))" for h
    using assms(1) by (intro life_after) (simp add: handleHello_def life_reply)
  show ?thesis
    using assms h life_after [OF life_prepare [OF assms(1,2)]] life_after [OF life_start [OF assms(1,2)]]
      life_send_complete [OF assms(1,2)] life_fetch [OF assms(1,2)] life_cancel [OF assms(1,2)]
      life_after [of "(False, snd (handleCancel w))"] life_after [of "(False, sendInvalidRequest wr ''unknown message type'' w)"]
    by (cases m) (auto simp: handleMessage_def life_reply)
qed

lemma life_worker:
  "life_inv w \<Longrightarrow> w_worker w = DownCreate \<Longrightarrow> life_inv (downlink_create listen txt wr w)"
  "life_inv w \<Longrightarrow> w_worker w = DownSending sender \<Longrightarrow>
     life_inv (downlink_send resolve t0 clk udp_wr elapsed txt wr sender w)"
  "life_inv w \<Longrightarrow> w_worker w = UpCreate \<Longrightarrow> life_inv (uplink_create listen txt wr w)"
  "life_inv w \<Longrightarrow> w_worker w = UpReceiving \<Longrightarrow> life_inv (uplink_receive es r w)"
  "life_inv w \<Longrightarrow> w_worker w = UpReceived \<Longrightarrow> life_inv (uplink_finish r w)"
  by (auto simp: worker_defs life_inv_def Let_def case_prod_beta frame_rules split: sum.split)

lemma life_complete: "life_inv w \<Longrightarrow> w_worker w = DownSent \<Longrightarrow> life_inv (downlink_complete wr w)"
  by (auto simp: downlink_complete_def life_inv_def setState_eq frame_rules canTransition_cases)

lemma life_data: "life_inv w \<Longrightarrow> w_loop w = AtTop \<Longrightarrow> life_inv (loop_data data wr w)"
  by (auto simp: loop_data_def life_reply split: sum.split option.split
      intro!: life_message dest!: DecodeEnvelope_type(1))

lemma life_error: "life_inv w \<Longrightarrow> w_loop w = AtTop \<Longrightarrow> life_inv (loop_error err txt wr w)"
  by (auto simp: loop_error_def life_reply Let_def intro!: life_loop life_timeout)

lemma life_exec:
  assumes "life_inv w" and "exec l w = Some w'"
  shows "life_inv w'"
  using assms
  by (cases l)
    (auto simp: life_cancel life_error life_data life_rest life_worker life_complete
      intro!: life_loop split: if_splits option.splits loop_pc.splits worker.splits)

definition session_start :: "world \<Rightarrow> bool" where
  "session_start w \<longleftrightarrow> (\<exists>wr now remote. w = Run wr (new_world now remote))"

lemma Run_new: "Run wr (new_world now remote) =
    \<lparr>w_session = \<lparr>ss_id = generateSessionID now, ss_state = StatePreparing, ss_udpPort = 0, ss_direction = 0,
       ss_family = 0, ss_payloadSize = 0, ss_packetCount = 0, ss_intervalMs = 0, ss_clientReceivePort = 0,
       ss_targetAddress = [], ss_sender = False, ss_receiver = False, ss_sentCount = 0, ss_receivedCount = 0,
       ss_conn = True, ss_quitCh = False, ss_receiverDone = False\<rparr>,
     w_remote = remote, w_open = True, w_out = [], w_probes = [], w_receiver = None, w_quitClosed = False,
     w_doneClosed = False, w_loop = AtTop, w_worker = NoWorker\<rparr>"
  by (simp add: Run_def new_world_def NewSession_def setState_eq canTransition_cases upd_def)

section \<open>Results\<close>

fun is_result :: "message \<Rightarrow> bool" where
  "is_result (Messages.Result _) = True"
| "is_result _ = False"

text \<open>
  A result is the last thing the session writes: it is written when the session completes, and the
  connection is closed then.
\<close>

definition result_inv :: "world \<Rightarrow> bool" where
  "result_inv w \<longleftrightarrow>
     (state_of w = StateCompleted \<longrightarrow> \<not> w_open w) \<and>
     ((\<exists>m \<in> set (w_out w). is_result m) \<longrightarrow> state_of w = StateCompleted) \<and>
     length (filter is_result (w_out w)) \<le> 1"

lemma write_reply_result:
  "\<not> is_result m \<Longrightarrow> filter is_result (w_out (snd (write_reply wr m w))) = filter is_result (w_out w)"
  by (simp add: write_reply_def)

lemma result_inv_eq:
  "result_inv w \<longleftrightarrow> (state_of w = StateCompleted \<longrightarrow> \<not> w_open w) \<and>
     (filter is_result (w_out w) \<noteq> [] \<longrightarrow> state_of w = StateCompleted) \<and> length (filter is_result (w_out w)) \<le> 1"
  by (auto simp: result_inv_def filter_empty_conv)

lemma reply_results [frame_rules]:
  "filter is_result (w_out (sendError wr c t w)) = filter is_result (w_out w)"
  "filter is_result (w_out (sendInvalidRequest wr t w)) = filter is_result (w_out w)"
  by (simp_all add: sendError_def sendInvalidRequest_def write_reply_result)

lemma cleanup_open: "w_open (cleanupLocked w) \<Longrightarrow> w_open w"
  by (auto simp: cleanupLocked_def Let_def upd_def split: if_splits)

definition quiet :: "world \<Rightarrow> bool" where
  "quiet w \<longleftrightarrow> filter is_result (w_out w) = [] \<and> state_of w \<noteq> StateCompleted"

lemma quiet_result_inv: "quiet w \<Longrightarrow> result_inv w"
  by (simp add: quiet_def result_inv_eq)

lemma result_inv_quiet: "result_inv w \<Longrightarrow> \<not> loop_terminal w \<Longrightarrow> quiet w"
  by (auto simp: quiet_def result_inv_eq loop_terminal_def)

lemma quiet_reply [frame_rules]:
  "quiet (sendError wr c t w) = quiet w" "quiet (sendInvalidRequest wr t w) = quiet w"
  by (simp_all add: quiet_def frame_rules)

lemma quiet_loop [frame_rules]: "quiet (w\<lparr>w_loop := pc\<rparr>) = quiet w" "quiet (after r) = quiet (snd r)"
  by (simp_all add: quiet_def frame_rules)

lemma quiet_prepare: "quiet w \<Longrightarrow> quiet (snd (handlePrepare wr p w))"
  by (simp add: handlePrepare_def store_prepare_def setState_eq Let_def case_prod_beta quiet_def frame_rules
      write_reply_result)

lemma quiet_start: "quiet w \<Longrightarrow> quiet (snd (handleStart wr w))"
  by (simp add: handleStart_def setState_eq quiet_def frame_rules)

lemma quiet_send_complete:
  "quiet w \<Longrightarrow> quiet (handleSendComplete wr w)" "quiet w \<Longrightarrow> quiet (snd (handleSendComplete_rest wr w))"
  by (simp_all add: handleSendComplete_def handleSendComplete_rest_def setState_eq Let_def quiet_def frame_rules)

lemma quiet_cancel: "quiet w \<Longrightarrow> quiet (snd (handleCancel w))"
  by (simp add: handleCancel_def cleanupNoStateChange_def quiet_def frame_rules)

lemma quiet_timeout: "quiet w \<Longrightarrow> quiet (handleTimeout w)"
  by (simp add: handleTimeout_def cleanupNoStateChange_def quiet_def frame_rules)

lemma result_fetch: "quiet w \<Longrightarrow> state_of w \<noteq> StateFailed \<Longrightarrow> result_inv (after (handleFetchResult wr w))"
  by (auto simp: handleFetchResult_def setState_eq canTransition_cases quiet_def result_inv_eq sendResult_def
      write_reply_def result_message_def Let_def frame_rules)

lemma result_message_step:
  assumes "result_inv w" "\<not> loop_terminal w"
  shows "result_inv (handleMessage wr t m w)"
proof -
  note q = result_inv_quiet [OF assms]
  have "state_of w \<noteq> StateFailed"
    using assms(2) by (simp add: loop_terminal_def)
  from result_fetch [OF q this] show ?thesis
    using q quiet_prepare [OF q] quiet_start [OF q] quiet_send_complete(1) [OF q] quiet_cancel [OF q]
    by (auto simp: handleMessage_def handleHello_def frame_rules intro!: quiet_result_inv split: message.split)
qed

lemma result_data: "result_inv w \<Longrightarrow> \<not> loop_terminal w \<Longrightarrow> result_inv (loop_data data wr w)"
  using result_message_step [of w wr] quiet_result_inv [of "sendInvalidRequest wr ''failed to decode message'' w"]
  by (auto simp: loop_data_def frame_rules result_inv_quiet split: sum.split option.split)

lemma result_error: "result_inv w \<Longrightarrow> \<not> loop_terminal w \<Longrightarrow> result_inv (loop_error err txt wr w)"
  by (auto simp: loop_error_def Let_def frame_rules quiet_timeout result_inv_quiet intro!: quiet_result_inv)

text \<open>A worker step keeps the results, and the state unless it moves from running to collecting.\<close>

lemma worker_results:
  "filter is_result (w_out (downlink_create listen txt wr w)) = filter is_result (w_out w)"
  "filter is_result (w_out (downlink_send resolve t0 clk udp_wr elapsed txt wr sender w)) = filter is_result (w_out w)"
  "filter is_result (w_out (downlink_complete wr w)) = filter is_result (w_out w)"
  "filter is_result (w_out (uplink_create listen txt wr w)) = filter is_result (w_out w)"
  "filter is_result (w_out (uplink_receive es r w)) = filter is_result (w_out w)"
  "filter is_result (w_out (uplink_finish r w)) = filter is_result (w_out w)"
  by (simp_all add: worker_defs Let_def case_prod_beta setState_eq frame_rules write_reply_result split: sum.split)

lemma worker_open:
  "w_open (downlink_create listen txt wr w) = w_open w"
  "w_open (downlink_send resolve t0 clk udp_wr elapsed txt wr sender w) = w_open w"
  "w_open (downlink_complete wr w) = w_open w"
  "w_open (uplink_create listen txt wr w) = w_open w"
  "w_open (uplink_receive es r w) = w_open w"
  "w_open (uplink_finish r w) = w_open w"
  by (simp_all add: worker_defs Let_def case_prod_beta setState_eq frame_rules split: sum.split)

lemma result_complete: "result_inv w \<Longrightarrow> result_inv (downlink_complete wr w)"
  unfolding result_inv_eq worker_results worker_open
  by (auto simp: downlink_complete_def setState_eq canTransition_cases frame_rules)

lemma result_rest:
  "result_inv w \<Longrightarrow> state_of w \<in> {StateRunning, StateCollecting} \<Longrightarrow> result_inv (after (handleSendComplete_rest wr w))"
  by (intro quiet_result_inv) (auto simp: frame_rules loop_terminal_def intro!: quiet_send_complete(2) result_inv_quiet)

lemma result_loop: "result_inv (w\<lparr>w_loop := pc\<rparr>) = result_inv w"
  by (simp add: result_inv_def)

lemma result_cancel: "result_inv w \<Longrightarrow> \<not> loop_terminal w \<Longrightarrow> result_inv (snd (handleCancel w))"
  using quiet_result_inv quiet_cancel result_inv_quiet by blast

lemma result_worker:
  "result_inv (downlink_create listen txt wr w) = result_inv w"
  "result_inv (downlink_send resolve t0 clk udp_wr elapsed txt wr sender w) = result_inv w"
  "result_inv (uplink_create listen txt wr w) = result_inv w"
  "result_inv (uplink_receive es r w) = result_inv w"
  "result_inv (uplink_finish r w) = result_inv w"
  by (simp_all add: result_inv_eq worker_results worker_open worker_moves)

definition session_inv :: "world \<Rightarrow> bool" where
  "session_inv w \<longleftrightarrow> life_inv w \<and> result_inv w"

lemma result_exec:
  assumes "session_inv w" and "exec l w = Some w'"
  shows "result_inv w'"
proof -
  have r: "result_inv w" and wait: "\<And>b. w_loop w = Waiting b \<Longrightarrow> state_of w \<in> {StateRunning, StateCollecting}"
    using assms(1) by (auto simp: session_inv_def life_inv_def)
  show ?thesis
    using assms(2) r wait
    by (cases l)
      (auto simp: result_data result_error result_rest result_complete result_worker result_loop result_cancel
        split: if_splits option.splits loop_pc.splits worker.splits)
qed

interpretation sessions: transition_system session_start "\<lambda>w l w'. exec l w = Some w'" session_inv
proof
  show "session_inv w" if "session_start w" for w
    using that
    unfolding session_start_def Run_new
    by (auto simp: session_inv_def life_inv_def result_inv_def new_world_def NewSession_def)
  show "session_inv w'" if "session_inv w" "exec l w = Some w'" for w l w'
    using that life_exec result_exec by (auto simp: session_inv_def)
qed

lemma run_execs: "sessions.run w ls w' \<longleftrightarrow> execs ls w = Some w'"
proof
  show "sessions.run w ls w' \<Longrightarrow> execs ls w = Some w'"
    by (induction rule: sessions.run.induct) simp_all
  show "execs ls w = Some w' \<Longrightarrow> sessions.run w ls w'"
    by (induction ls arbitrary: w) (auto intro: sessions.run.intros split: option.splits)
qed

lemma reachable_inv: "session_start w \<Longrightarrow> execs ls w = Some w' \<Longrightarrow> session_inv w'"
  using sessions.reach_inv run_execs by blast

end
