(* ===== verification/SessionRuns.thy ===== *)
theory SessionRuns
  imports Session
begin

text \<open>
  What the runs of a session show: the state changes of every interleaving, the result that is sent
  at most once, what happens once the connection is closed, and the complete course of an uplink
  and of a downlink test.
\<close>

section \<open>A closed connection\<close>

lemma closed_reply:
  "\<not> w_open w \<Longrightarrow> write_reply wr m w = (False, w)"
  "\<not> w_open w \<Longrightarrow> sendError wr c t w = w" "\<not> w_open w \<Longrightarrow> sendInvalidRequest wr t w = w"
  by (simp_all add: write_reply_def sendError_def sendInvalidRequest_def)

lemma cleanup_closed: "\<not> w_open w \<Longrightarrow> \<not> w_open (cleanupLocked w)"
  using cleanup_open by blast

lemma closed_handlers:
  assumes "\<not> w_open w"
  shows "w_out (snd (handleCancel w)) = w_out w" "\<not> w_open (snd (handleCancel w))"
    "w_out (snd (handleSendComplete_rest wr w)) = w_out w" "\<not> w_open (snd (handleSendComplete_rest wr w))"
  using assms cleanup_closed [of "upd (ss_state_update (\<lambda>_. StateCancelled)) w"]
  by (simp_all add: handleCancel_def cleanupNoStateChange_def handleSendComplete_rest_def setState_eq frame_rules
      closed_reply)

lemma closed_worker:
  assumes "\<not> w_open w"
  shows "w_out (downlink_create listen txt wr w) = w_out w"
    "w_out (downlink_send resolve t0 clk udp_wr elapsed txt wr sender w) = w_out w"
    "w_out (downlink_complete wr w) = w_out w"
    "w_out (uplink_create listen txt wr w) = w_out w"
    "w_out (uplink_receive es r w) = w_out w"
    "w_out (uplink_finish r w) = w_out w"
  using assms
  by (simp_all add: worker_defs Let_def case_prod_beta setState_eq frame_rules closed_reply split: sum.split)

lemma closed_exec:
  assumes "\<not> w_open w" and "exec l w = Some w'"
  shows "\<not> w_open w' \<and> w_out w' = w_out w"
  using assms
  by (cases l)
    (auto simp: closed_handlers closed_worker worker_open read_possible_def loop_error_def isTimeout_def closed_reply
      frame_rules split: if_splits option.splits loop_pc.splits worker.splits)

lemma closed_execs: "\<not> w_open w \<Longrightarrow> execs ls w = Some w' \<Longrightarrow> \<not> w_open w' \<and> w_out w' = w_out w"
proof (induction ls arbitrary: w)
  case (Cons l ls)
  then obtain v where v: "exec l w = Some v" "execs ls v = Some w'"
    by (auto split: option.splits)
  with Cons closed_exec [OF Cons.prems(1) v(1)] show ?case
    by auto
qed simp

fun loop_label :: "label \<Rightarrow> bool" where
  "loop_label LTerminal = True"
| "loop_label LCtxDone = True"
| "loop_label (LReadError _ _ _) = True"
| "loop_label (LData _ _) = True"
| "loop_label _ = False"

section \<open>Properties\<close>

text \<open>
  C7: in every interleaving of the message loop and the worker, whatever the peer sends and the
  network does, each change of the session state is one that the transition table accepts and
  moves the session forward, with one exception: a session that is collecting can be cancelled.
  The loop never panics on a type assertion, and the session never returns to idle.
\<close>

theorem session_transitions:
  assumes "session_start w0" and "execs ls w0 = Some w" and "exec l w = Some w'"
  shows "w_loop w' \<noteq> Panicked \<and> state_of w' \<noteq> StateIdle \<and>
    (state_of w' = state_of w \<or>
     Transition (state_of w) (state_of w') = Inr () \<and> state_rank (state_of w) < state_rank (state_of w') \<or>
     state_of w = StateCollecting \<and> state_of w' = StateCancelled)"
proof -
  have "session_inv w" "session_inv w'"
    using reachable_inv [OF assms(1,2)] sessions.inv_step [OF _ assms(3)] by blast+
  then have "state_of w \<noteq> StateIdle" "state_of w' \<noteq> StateIdle" "w_loop w' \<noteq> Panicked"
    by (simp_all add: session_inv_def life_inv_def)
  with exec_moves [OF assms(3)] show ?thesis
    using state_move_rank [of "state_of w" "state_of w'"] by (auto simp: state_move_def Transition_ok)
qed

lemma session_start_Run: "session_start (Run wr (new_world now remote))"
  by (auto simp: session_start_def)

theorem session_transitions_witness:
  "state_of (the (exec (LReadError (ConnError EOF) [] True) (Run True (new_world 5 None)))) = StateFailed \<and>
   w_loop (the (exec (LReadError (ConnError EOF) [] True) (Run True (new_world 5 None)))) \<noteq> Panicked"
proof -
  obtain w' where w': "exec (LReadError (ConnError EOF) [] True) (Run True (new_world 5 None)) = Some w'"
    and "state_of w' = StateFailed"
    by (simp add: Run_new loop_terminal_def read_possible_def loop_error_def
        handleTimeout_def cleanupNoStateChange_def cleanupLocked_def upd_def Let_def)
  then show ?thesis
    using session_transitions [OF session_start_Run, of "[]" True 5 None "Run True (new_world 5 None)"
        "LReadError (ConnError EOF) [] True" w'] by simp
qed


text \<open>
  C38: once the connection is closed on the server's side nothing more is written, it stays closed,
  and the next iteration of the message loop is its last.
\<close>

theorem closed_connection_ends_loop:
  assumes "\<not> w_open w" and "exec l w = Some w'"
  shows "\<not> w_open w' \<and> w_out w' = w_out w \<and> (loop_label l \<longrightarrow> w_loop w' = Returned)"
  using closed_exec [OF assms] assms
  by (cases l) (auto simp: read_possible_def loop_error_def isTimeout_def split: if_splits)

text \<open>
  C30: a read time-out ends a running test for good. The session moves to collecting, but its
  connection is closed with it: whatever happens afterwards, nothing more is written, so the result of
  the test can never be fetched. The time-out is that of every read, also while the client is
  sending its probes.
\<close>

theorem run_timeout_aborts:
  assumes "w_loop w = AtTop" and "state_of w = StateRunning" and "w_open w" and "ss_conn (w_session w)"
  shows "\<exists>w'. exec (LReadError (ConnError Timeout) txt wr) w = Some w' \<and> state_of w' = StateCollecting \<and> \<not> w_open w' \<and>
    (\<forall>ls v. execs ls w' = Some v \<longrightarrow> w_out v = w_out w)"
proof -
  let ?w = "(handleTimeout w)\<lparr>w_loop := AtTop\<rparr>"
  have st: "state_of (handleTimeout w) = StateCollecting" "\<not> w_open (handleTimeout w)" "w_out (handleTimeout w) = w_out w"
    using assms by (simp_all add: handleTimeout_def cleanupNoStateChange_def cleanupLocked_def Let_def upd_def)
  then have "exec (LReadError (ConnError Timeout) txt wr) w = Some ?w"
    using assms by (simp add: loop_terminal_def read_possible_def loop_error_def isTimeout_def Let_def)
  moreover have "w_out v = w_out w" if "execs ls ?w = Some v" for ls v
    using closed_execs [OF _ that] st(2,3) by simp
  ultimately show ?thesis
    using st by simp
qed

text \<open>
  While the message loop of an uplink session waits in \<^verbatim>\<open>send_complete\<close>, no interleaving can make
  it fail: when it resumes, the session moves to collecting without an error reply.
\<close>

lemma uplink_send_complete_succeeds:
  assumes "session_start w0" and "execs ls w0 = Some w" and "w_loop w = Waiting b"
    and "ss_direction (w_session w) = DirectionUplink" and "exec (LResume wr) w = Some w'"
  shows "state_of w' = StateCollecting \<and> w_loop w' = AtTop \<and> w_out w' = w_out w"
proof -
  have "state_of w = StateRunning"
    using reachable_inv [OF assms(1,2)] assms(3,4) by (auto simp: session_inv_def life_inv_def)
  with assms(3,5) show ?thesis
    by (auto simp: handleSendComplete_rest_def setState_eq canTransition_cases after_def frame_rules split: if_splits)
qed

section \<open>Complete tests\<close>

text \<open>A message of the client, delivered whole while the replies are taken.\<close>

definition from_client :: "message \<Rightarrow> label" where
  "from_client m = LData (Some (EncodeMessage m (type_of_message m))) True"

lemma exec_from_client:
  assumes "wf_message m" "w_loop w = AtTop" "\<not> loop_terminal w" "w_open w"
  shows "exec (from_client m) w = Some (handleMessage True (type_of_message m) m w)"
  using assms Decode_Encode [OF assms(1)]
  by (simp add: from_client_def loop_data_def DecodeEnvelope_EncodeMessage [OF type_of_message_range])

lemma execs_Cons: "exec l w = Some v \<Longrightarrow> execs (l # ls) w = execs ls v"
  by simp

lemma execs_append: "execs ls w = Some v \<Longrightarrow> execs (ls @ ms) w = execs ms v"
  by (induction ls arbitrary: w) (auto split: option.splits)

text \<open>The session after it accepted a \<^verbatim>\<open>prepare\<close>.\<close>

definition prepared :: "goint \<Rightarrow> bytes option \<Rightarrow> Prepare \<Rightarrow> Session" where
  "prepared now remote p = (store_prepare p (NewSession now))\<lparr>ss_conn := True, ss_state := StateReady,
     ss_targetAddress := target_address remote p\<rparr>"

definition ready_reply :: "goint \<Rightarrow> Prepare \<Rightarrow> message" where
  "ready_reply now p = Ready (BaseMessage.extend (new_base MsgTypeReady (generateSessionID now)) (Ready.fields (p_UDPPort p)))"

definition result_reply :: "goint \<Rightarrow> goint \<Rightarrow> goint \<Rightarrow> message" where
  "result_reply now sent received = Messages.Result (BaseMessage.extend (new_base MsgTypeResult (generateSessionID now))
     (ResultMsg.fields sent received (loss_rate sent received) 0))"

definition prepared_world :: "goint \<Rightarrow> bytes option \<Rightarrow> Prepare \<Rightarrow> world" where
  "prepared_world now remote p = \<lparr>w_session = prepared now remote p, w_remote = remote, w_open = True,
     w_out = [ready_reply now p], w_probes = [], w_receiver = None, w_quitClosed = False,
     w_doneClosed = False, w_loop = AtTop, w_worker = NoWorker\<rparr>"

lemma exec_prepare:
  assumes "wf_message (Prepare p)" and "p_Family p = FamilyIPv6 \<Longrightarrow> remote_is_IPv6 remote"
  shows "exec (from_client (Prepare p)) (Run True (new_world now remote)) = Some (prepared_world now remote p)"
proof -
  have "exec (from_client (Prepare p)) (Run True (new_world now remote)) =
      Some (handleMessage True MsgTypePrepare (Prepare p) (Run True (new_world now remote)))"
    using exec_from_client [OF assms(1), of "Run True (new_world now remote)"] by (simp add: Run_new loop_terminal_def)
  also have "handleMessage True MsgTypePrepare (Prepare p) (Run True (new_world now remote)) = prepared_world now remote p"
    using assms(2)
    by (auto simp: Run_new handleMessage_def after_def handlePrepare_def store_prepare_def setState_eq canTransition_cases
        upd_def write_reply_def prepared_world_def prepared_def NewSession_def ready_reply_def Let_def)
  finally show ?thesis .
qed

lemma exec_hello:
  assumes "wf_message (Hello h)" and "h_ClientVersion h = ProtocolVersion"
  shows "exec (from_client (Hello h)) (Run True (new_world now remote)) = Some (Run True (new_world now remote))"
  using exec_from_client [OF assms(1), of "Run True (new_world now remote)"] assms(2)
  by (simp add: Run_new loop_terminal_def handleMessage_def handleHello_def after_def)

definition started_world :: "goint \<Rightarrow> bytes option \<Rightarrow> Prepare \<Rightarrow> world" where
  "started_world now remote p = (prepared_world now remote p)
     \<lparr>w_session := (prepared now remote p)\<lparr>ss_state := StateRunning\<rparr>,
      w_worker := if p_Direction p = DirectionDownlink then DownCreate else UpCreate\<rparr>"

lemma exec_start:
  assumes "wf_base b"
  shows "exec (from_client (Start b)) (prepared_world now remote p) = Some (started_world now remote p)"
proof -
  have "exec (from_client (Start b)) (prepared_world now remote p) =
      Some (handleMessage True MsgTypeStart (Start b) (prepared_world now remote p))"
    using exec_from_client [of "Start b" "prepared_world now remote p"] assms
    by (simp add: prepared_world_def prepared_def loop_terminal_def)
  also have "handleMessage True MsgTypeStart (Start b) (prepared_world now remote p) = started_world now remote p"
    by (simp add: prepared_world_def prepared_def handleMessage_def handleStart_def after_def setState_eq canTransition_cases
        upd_def started_world_def store_prepare_def)
  finally show ?thesis .
qed

text \<open>The uplink receiver of a prepared session.\<close>

definition uplink_receiver :: "goint \<Rightarrow> Prepare \<Rightarrow> Receiver" where
  "uplink_receiver now p = \<lparr>r_config = uplink_config (store_prepare p (NewSession now)), r_received = [], r_open = True\<rparr>"

definition listening_world :: "goint \<Rightarrow> bytes option \<Rightarrow> Prepare \<Rightarrow> world" where
  "listening_world now remote p = (started_world now remote p)
     \<lparr>w_session := (prepared now remote p)\<lparr>ss_state := StateRunning, ss_quitCh := True, ss_receiverDone := True,
        ss_receiver := True\<rparr>,
      w_receiver := Some (uplink_receiver now p), w_worker := UpReceiving\<rparr>"

lemma config_prepared:
  "uplink_config ((prepared now remote p)\<lparr>ss_state := st, ss_quitCh := q, ss_receiverDone := d\<rparr>) =
     uplink_config (store_prepare p (NewSession now))"
  "uplink_bind ((prepared now remote p)\<lparr>ss_state := st, ss_quitCh := q, ss_receiverDone := d\<rparr>) =
     uplink_bind (store_prepare p (NewSession now))"
  by (simp_all add: uplink_config_def uplink_bind_def prepared_def)

lemma exec_up_create:
  assumes "p_Direction p \<noteq> DirectionDownlink"
    and "listen (udp_network (p_Family p)) (uplink_bind (store_prepare p (NewSession now)))"
  shows "exec (WUpCreate listen txt wr) (started_world now remote p) = Some (listening_world now remote p)"
proof -
  have net: "udp_network (rc_Family (uplink_config (store_prepare p (NewSession now)))) = udp_network (p_Family p)"
    by (simp add: uplink_config_def store_prepare_def)
  show ?thesis
    using assms
    by (simp add: started_world_def uplink_create_def upd_def Let_def NewReceiver_def config_prepared net
        listening_world_def uplink_receiver_def)
qed

definition quitting_world :: "goint \<Rightarrow> bytes option \<Rightarrow> Prepare \<Rightarrow> world" where
  "quitting_world now remote p = (listening_world now remote p)
     \<lparr>w_session := (prepared now remote p)\<lparr>ss_state := StateRunning, ss_quitCh := False, ss_receiverDone := True,
        ss_receiver := True\<rparr>,
      w_quitClosed := True, w_loop := Waiting True\<rparr>"

lemma exec_send_complete:
  assumes "wf_base b" and "p_Direction p = DirectionUplink"
  shows "exec (from_client (SendComplete b)) (listening_world now remote p) = Some (quitting_world now remote p)"
proof -
  have "exec (from_client (SendComplete b)) (listening_world now remote p) =
      Some (handleMessage True MsgTypeSendComplete (SendComplete b) (listening_world now remote p))"
    using exec_from_client [of "SendComplete b" "listening_world now remote p"] assms
    by (simp add: listening_world_def started_world_def prepared_world_def prepared_def loop_terminal_def)
  also have "handleMessage True MsgTypeSendComplete (SendComplete b) (listening_world now remote p) =
      quitting_world now remote p"
    using assms(2)
    by (simp add: listening_world_def started_world_def handleMessage_def handleSendComplete_def upd_def Let_def
        prepared_def store_prepare_def quitting_world_def)
  finally show ?thesis .
qed

definition received_world :: "goint \<Rightarrow> bytes option \<Rightarrow> Prepare \<Rightarrow> recv_event list \<Rightarrow> world" where
  "received_world now remote p es = (quitting_world now remote p)
     \<lparr>w_session := (prepared now remote p)\<lparr>ss_state := StateCollecting, ss_quitCh := False, ss_receiverDone := True,
        ss_receiver := False,
        ss_receivedCount := rr_Received (UdpEngine.Result (snd (Receive (uplink_receiver now p) es)))\<rparr>,
      w_receiver := Some (Receiver_Close (snd (Receive (uplink_receiver now p) es))), w_doneClosed := True,
      w_worker := Finished, w_loop := AtTop\<rparr>"

lemma Result_Close: "UdpEngine.Result (Receiver_Close r) = UdpEngine.Result r"
  by (simp add: UdpEngine.Result_def Receiver_Close_def)

lemma execs_receive:
  assumes "fst (Receive (uplink_receiver now p) es) \<noteq> None"
  shows "execs [WUpReceive es, WUpFinish, LResume True] (quitting_world now remote p) =
    Some (received_world now remote p es)"
  using assms
  by (simp add: quitting_world_def listening_world_def started_world_def prepared_world_def prepared_def uplink_receive_def
      uplink_finish_def after_def handleSendComplete_rest_def setState_eq canTransition_cases upd_def Let_def Result_Close
      received_world_def)

lemma exec_fetch:
  assumes "wf_base b" "w_loop w = AtTop" "state_of w = StateCollecting" "w_open w"
  shows "exec (from_client (FetchResult b)) w =
    Some (w\<lparr>w_session := (w_session w)\<lparr>ss_state := StateCompleted\<rparr>, w_open := False,
      w_out := w_out w @ [result_message ((w_session w)\<lparr>ss_state := StateCompleted\<rparr>)]\<rparr>)"
  using exec_from_client [of "FetchResult b" w] assms
  by (simp add: loop_terminal_def handleMessage_def handleFetchResult_def sendResult_def write_reply_def
      setState_eq canTransition_cases after_def upd_def)

text \<open>
  A complete uplink test. A client that prepares, starts, reports the end of its sending (once
  the receiver listens) and fetches the result gets exactly two replies, \<^verbatim>\<open>ready\<close> and the result:
  the announced packet count as sent, and as received the number of probe datagrams that the
  receiver recorded until it was told to stop. The session is then completed and closed.
\<close>

lemma uplink_course:
  assumes "wf_message (Prepare p)" and "wf_base b" "wf_base b1" "wf_base b2"
    and "p_Direction p = DirectionUplink" and "p_Family p = FamilyIPv6 \<longrightarrow> remote_is_IPv6 remote"
    and "listen (udp_network (p_Family p)) (uplink_bind (store_prepare p (NewSession now)))"
    and "fst (Receive (uplink_receiver now p) es) \<noteq> None"
  shows "\<exists>w. execs [from_client (Prepare p), from_client (Start b), WUpCreate listen txt wr,
        from_client (SendComplete b1), WUpReceive es, WUpFinish, LResume True, from_client (FetchResult b2)]
      (Run True (new_world now remote)) = Some w \<and>
    w_out w = [ready_reply now p,
      result_reply now (p_PacketCount p) (rr_Received (UdpEngine.Result (snd (Receive (uplink_receiver now p) es))))] \<and>
    state_of w = StateCompleted \<and> \<not> w_open w \<and> w_worker w = Finished"
proof -
  let ?w = "received_world now remote p es"
  have dir: "p_Direction p \<noteq> DirectionDownlink"
    using assms(5) by simp
  have f: "exec (from_client (FetchResult b2)) ?w =
      Some (?w\<lparr>w_session := (w_session ?w)\<lparr>ss_state := StateCompleted\<rparr>, w_open := False,
        w_out := w_out ?w @ [result_message ((w_session ?w)\<lparr>ss_state := StateCompleted\<rparr>)]\<rparr>)"
    by (rule exec_fetch)
      (simp_all add: assms(4) received_world_def quitting_world_def listening_world_def started_world_def
        prepared_world_def prepared_def)
  have out: "w_out ?w = [ready_reply now p]"
    by (simp add: received_world_def quitting_world_def listening_world_def started_world_def prepared_world_def)
  have res: "result_message ((w_session ?w)\<lparr>ss_state := StateCompleted\<rparr>) =
      result_reply now (p_PacketCount p) (rr_Received (UdpEngine.Result (snd (Receive (uplink_receiver now p) es))))"
    by (simp add: received_world_def prepared_def store_prepare_def NewSession_def result_message_def result_reply_def Let_def)
  have "execs [WUpReceive es, WUpFinish, LResume True, from_client (FetchResult b2)] (quitting_world now remote p) =
      execs [from_client (FetchResult b2)] ?w"
    using execs_append [OF execs_receive [OF assms(8), of remote], of "[from_client (FetchResult b2)]"]
    by (simp del: exec.simps execs.simps)
  then show ?thesis
    using exec_prepare [OF assms(1), of remote now] exec_start [OF assms(2), of now remote p]
      exec_up_create [of p listen now "txt" wr remote, OF dir assms(7)] exec_send_complete [OF assms(3,5), of now remote] f assms(6)
    by (simp add: execs_Cons out res del: exec.simps) (simp add: received_world_def)
qed

section \<open>Downlink\<close>

lemma downlink_config_prepared:
  "downlink_config ((prepared now remote p)\<lparr>ss_state := st\<rparr>) = downlink_config (prepared now remote p)"
  by (simp add: downlink_config_def)

definition sent_world :: "goint \<Rightarrow> bytes option \<Rightarrow> Prepare \<Rightarrow> (nat \<Rightarrow> goint) \<Rightarrow> nat \<Rightarrow> world" where
  "sent_world now remote p clk n = (started_world now remote p)
     \<lparr>w_session := (prepared now remote p)\<lparr>ss_state := StateCollecting, ss_sentCount := int n\<rparr>,
      w_probes := events_upto (downlink_config (prepared now remote p)) clk 0 n,
      w_out := [ready_reply now p, SendComplete (new_base MsgTypeSendComplete (generateSessionID now))],
      w_worker := Finished\<rparr>"

lemma execs_downlink:
  assumes "p_Direction p = DirectionDownlink" and "p_PacketCount p = int n" "0 < n" "\<forall>k < n. udp_wr k"
    and "listen (udp_network (p_Family p)) '':0''"
    and "resolve (udp_network (p_Family p)) (send_address (downlink_config (prepared now remote p)))"
  shows "execs [WDownCreate listen txt wr, WDownSend resolve t0 clk udp_wr elapsed txt wr, WDownComplete True]
      (started_world now remote p) = Some (sent_world now remote p clk n)"
proof -
  let ?cfg = "downlink_config (prepared now remote p)"
  have cfg: "sc_Family ?cfg = p_Family p" "sc_PacketCount ?cfg = int n"
    using assms(2) by (simp_all add: downlink_config_def prepared_def store_prepare_def)
  have "Send resolve t0 clk udp_wr elapsed \<lparr>s_config = ?cfg, s_open = True\<rparr> =
      (Inr \<lparr>sr_Sent = int n, sr_SequenceStart = 0, sr_SequenceEnd = of_nat (n - 1), sr_Duration = elapsed\<rparr>,
       events_upto ?cfg clk 0 n, \<lparr>s_config = ?cfg, s_open = True\<rparr>)"
    using Send_ok [of resolve "\<lparr>s_config = ?cfg, s_open = True\<rparr>" n udp_wr t0 clk elapsed] assms cfg by simp
  then show ?thesis
    using assms cfg
    by (simp add: started_world_def prepared_world_def downlink_create_def NewSender_def downlink_config_prepared
        downlink_send_def downlink_complete_def upd_def Let_def setState_eq canTransition_cases write_reply_def sent_world_def)
      (simp add: prepared_def store_prepare_def NewSession_def)
qed

text \<open>
  A complete downlink test. A client that prepares and starts makes the server send exactly the
  requested number of probes, numbered from 0, of the requested payload size (as a 16-bit
  number) to the client's address; it is told of the end by \<^verbatim>\<open>send_complete\<close>, and the result it then
  fetches states the number sent, and as received 0, since the server does not receive.
\<close>

lemma downlink_course:
  assumes "wf_message (Prepare p)" and "wf_base b" "wf_base b2"
    and "p_Direction p = DirectionDownlink" and "p_Family p = FamilyIPv6 \<longrightarrow> remote_is_IPv6 remote"
    and "p_PacketCount p = int n" and "0 < n" and "\<forall>k < n. udp_wr k"
    and "listen (udp_network (p_Family p)) '':0''"
    and "resolve (udp_network (p_Family p)) (send_address (downlink_config (prepared now remote p)))"
  shows "\<exists>w. execs [from_client (Prepare p), from_client (Start b), WDownCreate listen txt wr,
        WDownSend resolve t0 clk udp_wr elapsed txt wr, WDownComplete True, from_client (FetchResult b2)]
      (Run True (new_world now remote)) = Some w \<and>
    packets_of (w_probes w) = map (probe (downlink_config (prepared now remote p)) clk) [0..<n] \<and>
    w_out w = [ready_reply now p, SendComplete (new_base MsgTypeSendComplete (generateSessionID now)),
      result_reply now (int n) 0] \<and>
    state_of w = StateCompleted \<and> \<not> w_open w"
proof -
  let ?w = "sent_world now remote p clk n"
  have f: "exec (from_client (FetchResult b2)) ?w =
      Some (?w\<lparr>w_session := (w_session ?w)\<lparr>ss_state := StateCompleted\<rparr>, w_open := False,
        w_out := w_out ?w @ [result_message ((w_session ?w)\<lparr>ss_state := StateCompleted\<rparr>)]\<rparr>)"
    by (rule exec_fetch) (simp_all add: assms(3) sent_world_def started_world_def prepared_world_def)
  have res: "result_message ((w_session ?w)\<lparr>ss_state := StateCompleted\<rparr>) = result_reply now (int n) 0"
    using assms(7)
    by (simp add: sent_world_def prepared_def store_prepare_def NewSession_def result_message_def result_reply_def Let_def)
  have out: "w_out ?w = [ready_reply now p, SendComplete (new_base MsgTypeSendComplete (generateSessionID now))]"
    "packets_of (w_probes ?w) = map (probe (downlink_config (prepared now remote p)) clk) [0..<n]"
    by (simp_all add: sent_world_def packets_of_events)
  have "execs [WDownCreate listen txt wr, WDownSend resolve t0 clk udp_wr elapsed txt wr, WDownComplete True,
      from_client (FetchResult b2)] (started_world now remote p) = execs [from_client (FetchResult b2)] ?w"
    using execs_append [OF execs_downlink [of p n udp_wr listen resolve now remote "txt" wr t0 clk elapsed,
          OF assms(4,6-10)], of "[from_client (FetchResult b2)]"]
    by (simp del: exec.simps execs.simps)
  then show ?thesis
    using exec_prepare [OF assms(1), of remote now] exec_start [OF assms(2), of now remote p] f assms(5)
    by (simp add: execs_Cons out res del: exec.simps)
qed

section \<open>The start of an uplink test\<close>

definition raced_world :: "goint \<Rightarrow> bytes option \<Rightarrow> Prepare \<Rightarrow> world" where
  "raced_world now remote p = (listening_world now remote p)
     \<lparr>w_session := (prepared now remote p)\<lparr>ss_state := StateCompleted, ss_quitCh := True, ss_receiverDone := True,
        ss_receiver := True\<rparr>,
      w_out := [ready_reply now p, result_reply now (p_PacketCount p) 0], w_open := False, w_loop := Returned\<rparr>"

lemma execs_race:
  assumes "wf_base b" and "p_Direction p = DirectionUplink"
    and "listen (udp_network (p_Family p)) (uplink_bind (store_prepare p (NewSession now)))"
  shows "execs [from_client (SendComplete b), LResume True, from_client (FetchResult b), LTerminal,
      WUpCreate listen txt wr] (started_world now remote p) = Some (raced_world now remote p)"
proof -
  let ?w1 = "(started_world now remote p)\<lparr>w_loop := Waiting False\<rparr>"
  let ?w2 = "(started_world now remote p)\<lparr>w_session := (prepared now remote p)\<lparr>ss_state := StateCollecting\<rparr>\<rparr>"
  have "exec (from_client (SendComplete b)) (started_world now remote p) =
      Some (handleMessage True MsgTypeSendComplete (SendComplete b) (started_world now remote p))"
    using exec_from_client [of "SendComplete b" "started_world now remote p"] assms(1)
    by (simp add: started_world_def prepared_world_def prepared_def loop_terminal_def)
  also have "handleMessage True MsgTypeSendComplete (SendComplete b) (started_world now remote p) = ?w1"
    using assms(2)
    by (simp add: started_world_def handleMessage_def handleSendComplete_def prepared_def store_prepare_def NewSession_def
        Let_def)
  finally have 1: "exec (from_client (SendComplete b)) (started_world now remote p) = Some ?w1" .
  have 2: "exec (LResume True) ?w1 = Some ?w2"
    by (simp add: started_world_def prepared_world_def handleSendComplete_rest_def setState_eq canTransition_cases upd_def
        after_def prepared_def)
  have 3: "exec (from_client (FetchResult b)) ?w2 =
      Some (?w2\<lparr>w_session := (w_session ?w2)\<lparr>ss_state := StateCompleted\<rparr>, w_open := False,
        w_out := w_out ?w2 @ [result_message ((w_session ?w2)\<lparr>ss_state := StateCompleted\<rparr>)]\<rparr>)"
    by (rule exec_fetch) (simp_all add: assms(1) started_world_def prepared_world_def)
  have net: "udp_network (rc_Family (uplink_config (store_prepare p (NewSession now)))) = udp_network (p_Family p)"
    by (simp add: uplink_config_def store_prepare_def)
  have res: "result_message ((prepared now remote p)\<lparr>ss_state := StateCompleted\<rparr>) = result_reply now (p_PacketCount p) 0"
    by (simp add: prepared_def store_prepare_def NewSession_def result_message_def result_reply_def Let_def)
  show ?thesis
    unfolding execs_Cons [OF 1] execs_Cons [OF 2] execs_Cons [OF 3] using assms(2,3)
    by (simp add: started_world_def prepared_world_def loop_terminal_def uplink_create_def upd_def Let_def
        NewReceiver_def config_prepared net res raced_world_def listening_world_def uplink_receiver_def)
qed

text \<open>
  C24: the server does not wait for its receiver to listen. If the client's \<^verbatim>\<open>send_complete\<close> and
  \<^verbatim>\<open>fetch_result\<close> are handled before the receiver goroutine has run, the test ends regularly and
  reports 0 packets received whatever arrives, and the receiver that then starts is never told
  to stop: the message loop has returned, and the only step left is the end of its receive loop
  by a socket error.
\<close>

theorem uplink_start_race:
  assumes "wf_message (Prepare p)" and "wf_base b"
    and "p_Direction p = DirectionUplink" and "p_Family p = FamilyIPv6 \<longrightarrow> remote_is_IPv6 remote"
    and "listen (udp_network (p_Family p)) (uplink_bind (store_prepare p (NewSession now)))"
  shows "\<exists>w. execs [from_client (Prepare p), from_client (Start b), from_client (SendComplete b), LResume True,
        from_client (FetchResult b), LTerminal, WUpCreate listen txt wr] (Run True (new_world now remote)) = Some w \<and>
    w_out w = [ready_reply now p, result_reply now (p_PacketCount p) 0] \<and>
    w_loop w = Returned \<and> w_worker w = UpReceiving \<and>
    (\<forall>l w'. exec l w = Some w' \<longrightarrow> (\<exists>es. l = WUpReceive es \<and> QuitClosed \<notin> set es))"
proof (intro exI conjI)
  show "execs [from_client (Prepare p), from_client (Start b), from_client (SendComplete b), LResume True,
        from_client (FetchResult b), LTerminal, WUpCreate listen txt wr] (Run True (new_world now remote)) =
      Some (raced_world now remote p)"
    using exec_prepare [OF assms(1), of remote now] exec_start [OF assms(2), of now remote p] assms(4)
      execs_race [of b p listen now "txt" wr remote, OF assms(2,3,5)]
    by (simp add: execs_Cons del: exec.simps)
  have q: "\<not> w_quitClosed (raced_world now remote p)"
    by (simp add: raced_world_def listening_world_def started_world_def prepared_world_def)
  show w: "w_loop (raced_world now remote p) = Returned" "w_worker (raced_world now remote p) = UpReceiving"
    "w_out (raced_world now remote p) = [ready_reply now p, result_reply now (p_PacketCount p) 0]"
    by (simp_all add: raced_world_def listening_world_def)
  show "\<forall>l w'. exec l (raced_world now remote p) = Some w' \<longrightarrow> (\<exists>es. l = WUpReceive es \<and> QuitClosed \<notin> set es)"
  proof (intro allI impI)
    fix l w' assume "exec l (raced_world now remote p) = Some w'"
    then show "\<exists>es. l = WUpReceive es \<and> QuitClosed \<notin> set es"
      using q by (cases l) (auto simp: w split: option.splits if_splits)
  qed
qed

section \<open>Where the probes of a downlink test go\<close>


definition loopback6 :: bytes where
  "loopback6 = [0, 0, 0, 0, 0, 0, 0, 0, 0, 0, 0, 0, 0, 0, 0, 1]"

definition downlink_prepare :: Prepare where
  "downlink_prepare = BaseMessage.extend (new_base 1 ''c'') (Prepare.fields 1 0 9 4 3 20 7)"


section \<open>Witnesses\<close>

definition sample_prepare :: "Direction \<Rightarrow> Prepare" where
  "sample_prepare dir = BaseMessage.extend (new_base MsgTypePrepare ''c'') (Prepare.fields dir FamilyIPv4 9 4 3 20 0)"

definition sample_base :: BaseMessage where
  "sample_base = new_base MsgTypeStart ''c''"

lemma sample_fields:
  "p_Direction (sample_prepare dir) = dir" "p_Family (sample_prepare dir) = 0" "p_PacketCount (sample_prepare dir) = 3"
  by (simp_all add: sample_prepare_def BaseMessage.extend_def Prepare.fields_def new_base_def)

lemma sample_wf: "in_int64 dir \<Longrightarrow> wf_message (Prepare (sample_prepare dir))" "wf_base sample_base"
  by (simp_all add: sample_prepare_def sample_base_def BaseMessage.extend_def Prepare.fields_def new_base_def wf_base_def
      in_int64_def)

theorem uplink_start_race_witness:
  "\<exists>w. execs [from_client (Prepare (sample_prepare 0)), from_client (Start sample_base), from_client (SendComplete sample_base),
        LResume True, from_client (FetchResult sample_base), LTerminal, WUpCreate (\<lambda>n a. True) [] True]
      (Run True (new_world 5 None)) = Some w \<and> w_worker w = UpReceiving \<and> w_loop w = Returned"
  using uplink_start_race [of "sample_prepare 0" sample_base None "\<lambda>n a. True" 5 "[]" True]
    sample_wf(1) [of 0] sample_wf(2) by (auto simp: sample_fields)

lemma sample_waiting:
  "execs [from_client (Prepare (sample_prepare 0)), from_client (Start sample_base), WUpCreate (\<lambda>n a. True) [] True,
     from_client (SendComplete sample_base), WUpReceive [QuitClosed], WUpFinish] (Run True (new_world 5 None)) =
   Some (uplink_finish (uplink_receiver 5 (sample_prepare 0))
     (uplink_receive [QuitClosed] (uplink_receiver 5 (sample_prepare 0)) (quitting_world 5 None (sample_prepare 0))))"
proof -
  have "execs [WUpReceive [QuitClosed], WUpFinish] (quitting_world 5 None (sample_prepare 0)) =
      Some (uplink_finish (uplink_receiver 5 (sample_prepare 0))
        (uplink_receive [QuitClosed] (uplink_receiver 5 (sample_prepare 0)) (quitting_world 5 None (sample_prepare 0))))"
    by (simp add: quitting_world_def listening_world_def uplink_receive_def)
  then show ?thesis
    using exec_prepare [of "sample_prepare 0" None 5] exec_start [of sample_base 5 None "sample_prepare 0"]
      exec_up_create [of "sample_prepare 0" "\<lambda>n a. True" 5 "[]" True None]
      exec_send_complete [of sample_base "sample_prepare 0" 5 None] sample_wf(1) [of 0] sample_wf(2)
    by (simp add: execs_Cons sample_fields del: exec.simps)
qed


theorem closed_connection_ends_loop_witness:
  "\<exists>w w'. exec (LReadError (ConnError OtherError) [] True) w = Some w' \<and> w_loop w' = Returned"
proof -
  let ?w = "(Run True (new_world 5 None))\<lparr>w_open := False\<rparr>"
  obtain w' where w': "exec (LReadError (ConnError OtherError) [] True) ?w = Some w'"
    by (simp add: Run_new loop_terminal_def read_possible_def)
  then have "w_loop w' = Returned"
    using closed_connection_ends_loop [OF _ w'] by simp
  with w' show ?thesis
    by blast
qed

theorem run_timeout_aborts_witness:
  "\<exists>w'. exec (LReadError (ConnError Timeout) [] True) (listening_world 5 None (sample_prepare 0)) = Some w' \<and>
     state_of w' = StateCollecting \<and> \<not> w_open w'"
  using run_timeout_aborts [of "listening_world 5 None (sample_prepare 0)" "[]" True]
  by (auto simp: listening_world_def started_world_def prepared_world_def prepared_def simp del: exec.simps)

end
