(* ===== verification/EndToEnd.thy ===== *)
theory EndToEnd
  imports Client SessionRuns
begin

text \<open>
  The client of \<^verbatim>\<open>client.go\<close> and the session of \<^verbatim>\<open>session.go\<close> put together: the messages that the client
  writes are what the session reads, the replies of the session are what the client reads, and
  the datagrams that one side sends are what the other side may receive.
\<close>

section \<open>Control messages\<close>

text \<open>The messages that a client wrote, in order.\<close>

fun written :: "client_event list \<Rightarrow> message list" where
  "written [] = []"
| "written (Wrote m # es) = m # written es"
| "written (Slept _ # es) = written es"
| "written (Probed _ # es) = written es"

lemma wf_base_new [simp]: "in_int64 t \<Longrightarrow> wf_base (new_base t sid)"
  by (simp add: wf_base_def new_base_def in_int64_def)

lemma wf_base_extend [simp]:
  "wf_base (BaseMessage.extend b (Hello.fields v w)) = wf_base b"
  "wf_base (BaseMessage.extend b (Prepare.fields d f u s n i c)) = wf_base b"
  "wf_base (BaseMessage.extend b (Ready.fields u)) = wf_base b"
  "wf_base (BaseMessage.extend b (ResultMsg.fields s r l c)) = wf_base b"
  by (simp_all add: wf_base_def BaseMessage.extend_def Hello.fields_def Prepare.fields_def Ready.fields_def ResultMsg.fields_def)

lemma wf_hello: "wf_message (hello_message sid)"
  by (simp add: hello_message_def in_int64_def)
    (simp add: BaseMessage.extend_def Hello.fields_def in_int64_def)

text \<open>The parameters are Go integers.\<close>

definition wf_params :: "ClientParams \<Rightarrow> bool" where
  "wf_params params \<longleftrightarrow> in_int64 (cp_Direction params) \<and> in_int64 (cp_Family params) \<and> in_int64 (cp_Port params) \<and>
     in_int64 (cp_PayloadSize params) \<and> in_int64 (cp_PacketCount params) \<and> in_int64 (cp_IntervalMs params)"

lemma prepare_fields [simp]:
  "p_Direction (prepare_message sid params port) = cp_Direction params"
  "p_Family (prepare_message sid params port) = cp_Family params"
  "p_UDPPort (prepare_message sid params port) = cp_Port params"
  "p_PayloadSize (prepare_message sid params port) = cp_PayloadSize params"
  "p_PacketCount (prepare_message sid params port) = cp_PacketCount params"
  "p_IntervalMs (prepare_message sid params port) = cp_IntervalMs params"
  "p_ClientReceivePort (prepare_message sid params port) = port"
  by (simp_all add: prepare_message_def BaseMessage.extend_def Prepare.fields_def)

lemma wf_prepare: "wf_params params \<Longrightarrow> in_int64 port \<Longrightarrow> wf_message (Prepare (prepare_message sid params port))"
  by (simp add: wf_params_def) (simp add: prepare_message_def in_int64_def)

lemma wf_ready: "in_int64 (p_UDPPort p) \<Longrightarrow> wf_message (ready_reply now p)"
  by (simp add: ready_reply_def in_int64_def) (simp add: BaseMessage.extend_def Ready.fields_def in_int64_def)

text \<open>The loss rate is a number that the text of the result keeps.\<close>

lemma loss_rate_float:
  "0 \<le> f_mag (loss_rate sent received)" "round53 (f_mag (loss_rate sent received)) = f_mag (loss_rate sent received)"
proof -
  have "0 \<le> round53 (of_int \<bar>x\<bar>)" for x
    by (rule round53_nonneg) simp
  then have "0 \<le> f_mag (f64_div (f64_of_int x) (f64_of_int y)) * f_mag (f64_const 100)" for x y
    by (simp add: f64_div_def f64_of_int_def f64_const_def round53_nonneg)
  then show "0 \<le> f_mag (loss_rate sent received)" "round53 (f_mag (loss_rate sent received)) = f_mag (loss_rate sent received)"
    by (simp_all add: loss_rate_def f64_mul_def round53_nonneg)
qed

lemma wf_result: "in_int64 sent \<Longrightarrow> in_int64 received \<Longrightarrow> wf_message (result_reply now sent received)"
  using loss_rate_float [of sent received]
  by (simp add: result_reply_def in_int64_def) (simp add: BaseMessage.extend_def ResultMsg.fields_def in_int64_def)

section \<open>Datagrams\<close>

text \<open>The datagrams that a client sent.\<close>

fun sent_datagrams :: "client_event list \<Rightarrow> bytes list" where
  "sent_datagrams [] = []"
| "sent_datagrams (Wrote _ # es) = sent_datagrams es"
| "sent_datagrams (Slept _ # es) = sent_datagrams es"
| "sent_datagrams (Probed ps # es) = packets_of ps @ sent_datagrams es"

text \<open>An arrival that is not a probe of this sender leaves no entry: it is not a valid probe at all.\<close>

fun noise :: "ReceiverConfig \<Rightarrow> arrival \<Rightarrow> bool" where
  "noise cfg (Probe k t) = True"
| "noise cfg (Foreign d t) = (accept cfg d t = None)"

lemma recorded_noise:
  assumes "configs_agree s r" and "\<forall>k. in_int64 (clk k)" and "\<forall>a \<in> set as. noise r a"
  shows "length (recorded r (map (arrival_datagram s clk) as)) = length (probes_in as)"
  using assms(3)
proof (induction as)
  case (Cons a as)
  then show ?case
    using assms(1,2) by (cases a) (simp_all add: recorded_def accept_probe option_list_def)
qed (simp add: recorded_def)

lemma received_noise:
  assumes "configs_agree s (r_config r)" and "\<forall>k. in_int64 (clk k)" and "\<forall>a \<in> set as. noise (r_config r) a"
    and "r_received r = []" and "read_before_exit es = map (arrival_datagram s clk) as"
    and "int (length (probes_in as)) < 2 ^ 63"
  shows "rr_Received (UdpEngine.Result (snd (Receive r es))) = int (length (probes_in as))"
  using recorded_noise [OF assms(1-3)] assms(4-6) Result_counts(1) [of "snd (Receive r es)"] by (simp add: Receive_state)

lemma matched_foreign:
  assumes "configs_agree s (r_config r)" and "\<forall>k. in_int64 (clk k)" and "\<forall>a \<in> set as. foreign_ok (r_config r) a"
    and "r_received r = []" and "read_before_exit es = map (arrival_datagram s clk) as"
    and "int (length as) < 2 ^ 63"
  shows "rr_Matched (UdpEngine.Result (snd (Receive r es))) = int (length (probes_in as))"
proof -
  let ?ps = "recorded (r_config r) (map (arrival_datagram s clk) as)"
  have "length (filter rp_matched ?ps) = length (probes_in as)"
    using arg_cong [OF matched_recorded [OF assms(1-3)], of length] by simp
  moreover have "int (length ?ps) < 2 ^ 63"
    using length_recorded [of "r_config r" "map (arrival_datagram s clk) as"] assms(6) by simp
  ultimately show ?thesis
    using assms(4,5) Result_counts(2) [of "snd (Receive r es)"] by (simp add: Receive_state)
qed

lemma length_probes_in: "length (probes_in as) \<le> length as"
  by (induction as rule: probes_in.induct) simp_all

text \<open>What is lost when nothing is duplicated: the probes that did not arrive.\<close>

lemma lost_probes:
  assumes "distinct ks" and "set ks \<subseteq> {..<n}"
  shows "int n - int (length ks) = int (card {k. k < n \<and> k \<notin> set ks})"
proof -
  have "{k. k < n \<and> k \<notin> set ks} = {..<n} - set ks"
    by auto
  moreover have "card (set ks) \<le> card {..<n}"
    using assms(2) by (intro card_mono) simp_all
  ultimately show ?thesis
    using assms by (simp add: card_Diff_subset distinct_card of_nat_diff)
qed

section \<open>Uplink\<close>

text \<open>The steps of the session while it serves the messages \<open>ms\<close> of an uplink test.\<close>

definition uplink_exchange :: "(string \<Rightarrow> string \<Rightarrow> bool) \<Rightarrow> recv_event list \<Rightarrow> message list \<Rightarrow> label list" where
  "uplink_exchange listen es ms =
     [from_client (ms ! 0), from_client (ms ! 1), from_client (ms ! 2), WUpCreate listen [] True, from_client (ms ! 3),
      WUpReceive es, WUpFinish, LResume True, from_client (ms ! 4)]"

lemma uplink_written:
  "written (uplink_trace now env params) =
     (let sid = client_session_id now in
      [hello_message sid, Prepare (prepare_message sid params 0), Start (new_base MsgTypeStart sid),
       SendComplete (new_base MsgTypeSendComplete sid), FetchResult (new_base MsgTypeFetchResult sid)])"
  "sent_datagrams (uplink_trace now env params) = packets_of (probe_events env params)"
  by (simp_all add: uplink_trace_def Let_def)

lemma client_trace:
  assumes "follows m T Q" and "fst (m io) = Inr x"
  shows "io_trace (snd (m io)) = io_trace io @ T"
  using follows_trace [OF assms(1), of io] assms(2) by auto

lemma exec_hello_message:
  "exec (from_client (hello_message sid)) (Run True (new_world now remote)) = Some (Run True (new_world now remote))"
  using exec_hello [OF wf_hello [unfolded hello_message_def]]
  by (simp add: hello_message_def BaseMessage.extend_def Hello.fields_def del: exec.simps)

text \<open>The server's receiver expects what the client's sender sends.\<close>

lemma uplink_configs:
  assumes "cp_Family params \<in> {FamilyIPv4, FamilyIPv6}"
  shows "configs_agree (uplink_sender_config params) (r_config (uplink_receiver now (prepare_message sid params port)))"
    "r_received (uplink_receiver now p) = []"
  using assms
  by (simp_all add: configs_agree_def uplink_sender_config_def uplink_receiver_def uplink_config_def store_prepare_def)

lemma uplink_session:
  assumes "wf_params params" and "cp_Direction params = DirectionUplink"
    and "cp_Family params = FamilyIPv6 \<longrightarrow> remote_is_IPv6 remote"
    and "listen (udp_network (cp_Family params)) (uplink_bind (store_prepare (prepare_message sid params 0) (NewSession now)))"
    and "fst (Receive (uplink_receiver now (prepare_message sid params 0)) es) \<noteq> None"
  shows "\<exists>w. execs (uplink_exchange listen es
        [hello_message sid, Prepare (prepare_message sid params 0), Start (new_base MsgTypeStart sid),
         SendComplete (new_base MsgTypeSendComplete sid), FetchResult (new_base MsgTypeFetchResult sid)])
      (Run True (new_world now remote)) = Some w \<and>
    w_out w = [ready_reply now (prepare_message sid params 0),
      result_reply now (cp_PacketCount params)
        (rr_Received (UdpEngine.Result (snd (Receive (uplink_receiver now (prepare_message sid params 0)) es))))] \<and>
    state_of w = StateCompleted"
proof -
  show ?thesis
    using uplink_course [of "prepare_message sid params 0" "new_base MsgTypeStart sid" "new_base MsgTypeSendComplete sid"
        "new_base MsgTypeFetchResult sid" remote listen now es "[]" True]
      wf_prepare [OF assms(1), of 0 sid] assms(2-5)
    by (simp add: uplink_exchange_def execs_Cons [OF exec_hello_message] in_int64_def numeral_eq_Suc del: exec.simps execs.simps) blast
qed

section \<open>Downlink\<close>

definition downlink_exchange ::
  "(string \<Rightarrow> string \<Rightarrow> bool) \<Rightarrow> (string \<Rightarrow> string \<Rightarrow> bool) \<Rightarrow> (nat \<Rightarrow> goint) \<Rightarrow> (nat \<Rightarrow> bool) \<Rightarrow> message list \<Rightarrow> label list"
where
  "downlink_exchange listen resolve clk udp_wr ms =
     [from_client (ms ! 0), from_client (ms ! 1), from_client (ms ! 2), WDownCreate listen [] True,
      WDownSend resolve 0 clk udp_wr 0 [] True, WDownComplete True, from_client (ms ! 3)]"

lemma downlink_written:
  "written (downlink_trace now env params) =
     (let sid = client_session_id now in
      [hello_message sid, Prepare (prepare_message sid params (ue_port env)), Start (new_base MsgTypeStart sid),
       FetchResult (new_base MsgTypeFetchResult sid)])"
  by (simp add: downlink_trace_def Let_def)

text \<open>The client's receiver expects what the server's sender sends.\<close>

definition serving_config :: "bytes option \<Rightarrow> ClientParams \<Rightarrow> goint \<Rightarrow> SenderConfig" where
  "serving_config remote params port = downlink_config (prepared 0 remote (prepare_message [] params port))"

lemma serving_config_eq: "downlink_config (prepared now remote (prepare_message sid params port)) = serving_config remote params port"
  by (simp add: serving_config_def downlink_config_def prepared_def store_prepare_def NewSession_def target_address_def)

lemma downlink_configs:
  assumes "cp_Family params \<in> {FamilyIPv4, FamilyIPv6}"
  shows "configs_agree (serving_config remote params port) (downlink_receiver_config params)"
  using assms
  by (simp add: configs_agree_def downlink_receiver_config_def serving_config_def downlink_config_def prepared_def store_prepare_def)

lemma downlink_session:
  assumes "wf_params params" "in_int64 port" and "cp_Direction params = DirectionDownlink"
    and "cp_Family params = FamilyIPv6 \<longrightarrow> remote_is_IPv6 remote"
    and "cp_PacketCount params = int n" and "0 < n" and "\<forall>k < n. udp_wr k"
    and "listen (udp_network (cp_Family params)) '':0''"
    and "resolve (udp_network (cp_Family params)) (send_address (serving_config remote params port))"
  shows "\<exists>w. execs (downlink_exchange listen resolve clk udp_wr
        [hello_message sid, Prepare (prepare_message sid params port), Start (new_base MsgTypeStart sid),
         FetchResult (new_base MsgTypeFetchResult sid)])
      (Run True (new_world now remote)) = Some w \<and>
    packets_of (w_probes w) = map (probe (serving_config remote params port) clk) [0..<n] \<and>
    w_out w = [ready_reply now (prepare_message sid params port),
      SendComplete (new_base MsgTypeSendComplete (generateSessionID now)), result_reply now (int n) 0] \<and>
    state_of w = StateCompleted"
proof -
  let ?p = "prepare_message sid params port"
  have "\<exists>w. execs [from_client (Prepare ?p), from_client (Start (new_base MsgTypeStart sid)), WDownCreate listen [] True,
        WDownSend resolve 0 clk udp_wr 0 [] True, WDownComplete True, from_client (FetchResult (new_base MsgTypeFetchResult sid))]
      (Run True (new_world now remote)) = Some w \<and>
    packets_of (w_probes w) = map (probe (downlink_config (prepared now remote ?p)) clk) [0..<n] \<and>
    w_out w = [ready_reply now ?p, SendComplete (new_base MsgTypeSendComplete (generateSessionID now)),
      result_reply now (int n) 0] \<and>
    state_of w = StateCompleted \<and> \<not> w_open w"
    by (rule downlink_course)
      (use wf_prepare [OF assms(1,2), of sid] assms(3-9) in \<open>simp_all add: serving_config_eq in_int64_def del: wf_message.simps\<close>)
  then show ?thesis
    by (auto simp: downlink_exchange_def execs_Cons [OF exec_hello_message] serving_config_eq numeral_eq_Suc
        simp del: exec.simps execs.simps)
qed

section \<open>What the client makes of the replies\<close>

lemma result_fields [simp]:
  "rm_Sent (BaseMessage.extend b (ResultMsg.fields s r l c)) = s"
  "rm_Received (BaseMessage.extend b (ResultMsg.fields s r l c)) = r"
  by (simp_all add: BaseMessage.extend_def ResultMsg.fields_def)

lemma uplink_client:
  assumes "in_int64 (p_UDPPort p)" "in_int64 sent" "in_int64 received"
    and "ue_listen env (udp_network (cp_Family params)) '':0''"
    and "ue_resolve env (udp_network (cp_Family params)) (send_address (uplink_sender_config params))"
    and "cp_PacketCount params = int n" "0 < n" "\<forall>k < n. ue_wr env k"
  shows "fst (RunUplink now' env params (conn_to addr 5 [ready_reply now p, result_reply now sent received])) =
      Inr \<lparr>cr_Direction = DirectionUplink, cr_Sent = sent, cr_Received = received, cr_Lost = wrap64 (sent - received)\<rparr>"
    "packets_of (probe_events env params) = map (probe (uplink_sender_config params) (ue_clk env)) [0..<n]"
  using uplink_success [OF wf_ready [OF assms(1), unfolded ready_reply_def, of now]
      wf_result [OF assms(2,3), unfolded result_reply_def, of now] assms(4-8)]
  by (simp_all add: ready_reply_def result_reply_def packets_of_events)

lemma downlink_client:
  assumes "in_int64 (p_UDPPort p)" "in_int64 sent" "in_int64 received"
    and "ue_listen env (udp_network (cp_Family params)) '':0''"
  shows "fst (RunDownlink now' env params (conn_to addr 4 [ready_reply now p,
        SendComplete (new_base MsgTypeSendComplete sid), result_reply now sent received])) =
     (let matched = rr_Matched (UdpEngine.Result (snd (Receive
            \<lparr>r_config = downlink_receiver_config params, r_received = [], r_open = True\<rparr> (ue_events env))))
      in Inr \<lparr>cr_Direction = DirectionDownlink, cr_Sent = sent, cr_Received = matched, cr_Lost = wrap64 (sent - matched)\<rparr>)"
proof -
  have "wf_message (SendComplete (new_base MsgTypeSendComplete sid))"
    by (simp add: in_int64_def)
  from downlink_success [OF wf_ready [OF assms(1), unfolded ready_reply_def, of now] this
      wf_result [OF assms(2,3), unfolded result_reply_def, of now] assms(4)]
  show ?thesis
    by (simp add: ready_reply_def result_reply_def)
qed

section \<open>Client and session together\<close>

text \<open>
  The circumstances of an uplink test: the parameters, that the operations of the client's and the
  server's sockets succeed, and what reaches the server before its receiver stops.
\<close>

definition uplink_setting ::
  "goint \<Rightarrow> goint \<Rightarrow> bytes option \<Rightarrow> (string \<Rightarrow> string \<Rightarrow> bool) \<Rightarrow> udp_env \<Rightarrow> ClientParams \<Rightarrow> nat \<Rightarrow> recv_event list \<Rightarrow>
     arrival list \<Rightarrow> bool"
where
  "uplink_setting now' now remote listen env params n es as \<longleftrightarrow>
     wf_params params \<and> cp_Direction params = DirectionUplink \<and> cp_Family params \<in> {FamilyIPv4, FamilyIPv6} \<and>
     (cp_Family params = FamilyIPv6 \<longrightarrow> remote_is_IPv6 remote) \<and> cp_PacketCount params = int n \<and> 0 < n \<and>
     ue_listen env (udp_network (cp_Family params)) '':0'' \<and>
     ue_resolve env (udp_network (cp_Family params)) (send_address (uplink_sender_config params)) \<and>
     (\<forall>k < n. ue_wr env k) \<and> (\<forall>k. in_int64 (ue_clk env k)) \<and>
     listen (udp_network (cp_Family params))
       (uplink_bind (store_prepare (prepare_message (client_session_id now') params 0) (NewSession now))) \<and>
     fst (Receive (uplink_receiver now (prepare_message (client_session_id now') params 0)) es) \<noteq> None \<and>
     read_before_exit es = map (arrival_datagram (uplink_sender_config params) (ue_clk env)) as \<and>
     (\<forall>a \<in> set as. noise (r_config (uplink_receiver now (prepare_message (client_session_id now') params 0))) a) \<and>
     int (length (probes_in as)) < 2 ^ 62"

definition measured :: "Direction \<Rightarrow> nat \<Rightarrow> arrival list \<Rightarrow> ClientResult" where
  "measured d n as = \<lparr>cr_Direction = d, cr_Sent = int n, cr_Received = int (length (probes_in as)),
     cr_Lost = int n - int (length (probes_in as))\<rparr>"

lemma uplink_joint:
  assumes "uplink_setting now' now remote listen env params n es as"
  shows "\<exists>w. execs (uplink_exchange listen es (written (uplink_trace now' env params))) (Run True (new_world now remote)) = Some w \<and>
    state_of w = StateCompleted \<and>
    fst (RunUplink now' env params (conn_to addr 5 (w_out w))) = Inr (measured DirectionUplink n as) \<and>
    packets_of (probe_events env params) = map (probe (uplink_sender_config params) (ue_clk env)) [0..<n]"
proof -
  note h = assms [unfolded uplink_setting_def]
  let ?sid = "client_session_id now'"
  let ?p = "prepare_message ?sid params 0"
  let ?d = "int (length (probes_in as))"
  have fam: "cp_Family params \<in> {FamilyIPv4, FamilyIPv6}" using h by blast
  have range: "in_int64 (int n)" "in_int64 (p_UDPPort ?p)" "in_int64 ?d"
    using h by (auto simp: wf_params_def in_int64_def)
  have count: "rr_Received (UdpEngine.Result (snd (Receive (uplink_receiver now ?p) es))) = ?d"
    by (rule received_noise [OF uplink_configs(1) [OF fam] _ _ uplink_configs(2) [OF fam]]) (use h in auto)
  obtain w where w: "execs (uplink_exchange listen es (written (uplink_trace now' env params))) (Run True (new_world now remote)) = Some w"
      "w_out w = [ready_reply now ?p, result_reply now (int n) ?d]" "state_of w = StateCompleted"
    using uplink_session [of params remote listen ?sid now es] h by (auto simp: uplink_written Let_def count)
  have "wrap64 (int n - ?d) = int n - ?d"
    using range(1) h by (intro wrap64_id) (simp add: in_int64_def)
  then have "fst (RunUplink now' env params (conn_to addr 5 (w_out w))) = Inr (measured DirectionUplink n as)"
    unfolding w(2) using uplink_client(1) [OF range(2,1,3), of env params n now' addr now] h by (simp add: measured_def)
  moreover have "packets_of (probe_events env params) = map (probe (uplink_sender_config params) (ue_clk env)) [0..<n]"
    using uplink_client(2) [OF range(2,1,3), of env params n] h by simp
  ultimately show ?thesis
    using w by blast
qed

text \<open>The same for a downlink test; what arrives is what the client's receiver reads until the end.\<close>

definition downlink_setting ::
  "bytes option \<Rightarrow> (string \<Rightarrow> string \<Rightarrow> bool) \<Rightarrow> (string \<Rightarrow> string \<Rightarrow> bool) \<Rightarrow> (nat \<Rightarrow> goint) \<Rightarrow> (nat \<Rightarrow> bool) \<Rightarrow> udp_env \<Rightarrow>
     ClientParams \<Rightarrow> nat \<Rightarrow> arrival list \<Rightarrow> bool"
where
  "downlink_setting remote listen resolve clk udp_wr env params n as \<longleftrightarrow>
     wf_params params \<and> cp_Direction params = DirectionDownlink \<and> cp_Family params \<in> {FamilyIPv4, FamilyIPv6} \<and>
     (cp_Family params = FamilyIPv6 \<longrightarrow> remote_is_IPv6 remote) \<and> cp_PacketCount params = int n \<and> 0 < n \<and>
     in_int64 (ue_port env) \<and> ue_listen env (udp_network (cp_Family params)) '':0'' \<and>
     listen (udp_network (cp_Family params)) '':0'' \<and>
     resolve (udp_network (cp_Family params)) (send_address (serving_config remote params (ue_port env))) \<and>
     (\<forall>k < n. udp_wr k) \<and> (\<forall>k. in_int64 (clk k)) \<and>
     read_before_exit (ue_events env) = map (arrival_datagram (serving_config remote params (ue_port env)) clk) as \<and>
     (\<forall>a \<in> set as. foreign_ok (downlink_receiver_config params) a) \<and> int (length as) < 2 ^ 62"

lemma downlink_joint:
  assumes "downlink_setting remote listen resolve clk udp_wr env params n as"
  shows "\<exists>w. execs (downlink_exchange listen resolve clk udp_wr (written (downlink_trace now' env params)))
      (Run True (new_world now remote)) = Some w \<and>
    state_of w = StateCompleted \<and>
    fst (RunDownlink now' env params (conn_to addr 4 (w_out w))) = Inr (measured DirectionDownlink n as) \<and>
    packets_of (w_probes w) = map (probe (serving_config remote params (ue_port env)) clk) [0..<n]"
proof -
  note h = assms [unfolded downlink_setting_def]
  let ?sid = "client_session_id now'"
  let ?p = "prepare_message ?sid params (ue_port env)"
  let ?r = "\<lparr>r_config = downlink_receiver_config params, r_received = [], r_open = True\<rparr>"
  have fam: "cp_Family params \<in> {FamilyIPv4, FamilyIPv6}" using h by blast
  have range: "in_int64 (int n)" "in_int64 (p_UDPPort ?p)" "in_int64 (int n - int (length (probes_in as)))"
    using h length_probes_in [of as] by (auto simp: wf_params_def in_int64_def)
  have count: "rr_Matched (UdpEngine.Result (snd (Receive ?r (ue_events env)))) = int (length (probes_in as))"
    by (rule matched_foreign [where s = "serving_config remote params (ue_port env)" and clk = clk])
      (use h downlink_configs [OF fam] in auto)
  obtain w where w: "execs (downlink_exchange listen resolve clk udp_wr (written (downlink_trace now' env params)))
        (Run True (new_world now remote)) = Some w"
      "packets_of (w_probes w) = map (probe (serving_config remote params (ue_port env)) clk) [0..<n]"
      "w_out w = [ready_reply now ?p, SendComplete (new_base MsgTypeSendComplete (generateSessionID now)), result_reply now (int n) 0]"
      "state_of w = StateCompleted"
    using downlink_session [of params "ue_port env" remote n udp_wr listen resolve clk ?sid now] h
    by (auto simp: downlink_written Let_def)
  have "fst (RunDownlink now' env params (conn_to addr 4 (w_out w))) = Inr (measured DirectionDownlink n as)"
    unfolding w(3) using downlink_client [OF range(2,1) in_int64_0, of env params now' addr] h range(3)
    by (simp add: Let_def count measured_def)
  then show ?thesis
    using w by blast
qed

end
