(* ===== verification/GoTime.thy ===== *)
theory GoTime
  imports GoFloat
begin

text \<open>
  The text of a \<^verbatim>\<open>time.Duration\<close> (nanoseconds in an \<^verbatim>\<open>int64\<close>): \<^verbatim>\<open>time.ParseDuration\<close>, which reads the
  command line's durations, and \<^verbatim>\<open>Duration.String\<close>, which the report prints. Strings are byte
  sequences, so the micro sign is its two bytes.
\<close>

section \<open>ParseDuration\<close>

datatype duration_error = InvalidDuration | MissingUnit | UnknownUnit string

fun leadingInt :: "nat \<Rightarrow> string \<Rightarrow> (nat \<times> string) option" where
  "leadingInt x [] = Some (x, [])"
| "leadingInt x (c # cs) =
     (case digit_val c of
        None \<Rightarrow> Some (x, c # cs)
      | Some d \<Rightarrow>
          if 2 ^ 63 div 10 < x then None
          else if 2 ^ 63 < x * 10 + d then None
          else leadingInt (x * 10 + d) cs)"

text \<open>Digits after the point; those that no longer fit are skipped.\<close>

fun leadingFraction :: "bool \<Rightarrow> nat \<Rightarrow> f64 \<Rightarrow> string \<Rightarrow> nat \<times> f64 \<times> string" where
  "leadingFraction overflow x scale [] = (x, scale, [])"
| "leadingFraction overflow x scale (c # cs) =
     (case digit_val c of
        None \<Rightarrow> (x, scale, c # cs)
      | Some d \<Rightarrow>
          if overflow \<or> (2 ^ 63 - 1) div 10 < x \<or> 2 ^ 63 < x * 10 + d
          then leadingFraction True x scale cs
          else leadingFraction False (x * 10 + d) (f64_mul scale (f64_const 10)) cs)"

definition fraction_part :: "string \<Rightarrow> nat \<times> f64 \<times> string \<times> bool" where
  "fraction_part s =
     (case s of
        [] \<Rightarrow> (0, f64_const 1, s, False)
      | c # cs \<Rightarrow>
          if c = CHR ''.''
          then case leadingFraction False 0 (f64_const 1) cs of (f, scale, r) \<Rightarrow> (f, scale, r, length cs \<noteq> length r)
          else (0, f64_const 1, s, False))"

definition unit_char :: "char \<Rightarrow> bool" where
  "unit_char c \<longleftrightarrow> c \<noteq> CHR ''.'' \<and> digit_val c = None"

definition unitMap :: "string \<Rightarrow> nat option" where
  "unitMap u = map_of
     [(''ns'', 1), (''us'', 1000), ([CHR 0xC2, CHR 0xB5, CHR ''s''], 1000), ([CHR 0xCE, CHR 0xBC, CHR ''s''], 1000),
      (''ms'', 1000000), (''s'', 1000000000), (''m'', 60000000000), (''h'', 3600000000000)] u"

text \<open>The conversion to \<^verbatim>\<open>uint64\<close> of a non-negative product below \<open>2\<^sup>6\<^sup>3\<close> truncates.\<close>

definition fraction_value :: "nat \<Rightarrow> f64 \<Rightarrow> nat \<Rightarrow> nat" where
  "fraction_value f scale unit =
     nat \<lfloor>f_mag (f64_mul (f64_of_int (int f)) (f64_div (f64_of_int (int unit)) scale))\<rfloor>"

definition add_item :: "nat \<Rightarrow> nat \<Rightarrow> nat \<Rightarrow> f64 \<Rightarrow> nat \<Rightarrow> nat option" where
  "add_item d v f scale unit =
     (if 2 ^ 63 div unit < v then None
      else
        let v = v * unit + (if 0 < f then fraction_value f scale unit else 0) in
        if 0 < f \<and> 2 ^ 63 < v then None
        else let d = (d + v) mod 2 ^ 64 in if 2 ^ 63 < d then None else Some d)"

lemma leadingInt_length: "leadingInt x s = Some (v, r) \<Longrightarrow> length r \<le> length s"
  by (induction x s rule: leadingInt.induct) (auto split: option.splits if_splits)

lemma leadingFraction_length: "leadingFraction ov x scale s = (f, sc, r) \<Longrightarrow> length r \<le> length s"
  by (induction ov x scale s rule: leadingFraction.induct) (auto split: option.splits if_splits)

lemma fraction_part_length: "fraction_part s = (f, sc, r, post) \<Longrightarrow> length r \<le> length s"
  by (auto simp: fraction_part_def split: list.splits if_splits prod.splits dest!: leadingFraction_length)

function duration_loop :: "nat \<Rightarrow> string \<Rightarrow> duration_error + nat" where
  "duration_loop d s =
     (if s = [] then Inr d
      else if unit_char (hd s) then Inl InvalidDuration
      else case leadingInt 0 s of
        None \<Rightarrow> Inl InvalidDuration
      | Some (v, s1) \<Rightarrow>
          (case fraction_part s1 of
             (f, scale, s2, post) \<Rightarrow>
               if length s1 = length s \<and> \<not> post then Inl InvalidDuration
               else
                 let u = takeWhile unit_char s2; s3 = drop (length u) s2 in
                 if u = [] then Inl MissingUnit
                 else (case unitMap u of
                    None \<Rightarrow> Inl (UnknownUnit u)
                  | Some unit \<Rightarrow>
                      (case add_item d v f scale unit of
                         None \<Rightarrow> Inl InvalidDuration
                       | Some d \<Rightarrow> duration_loop d s3))))"
  by pat_completeness auto
termination
proof (relation "measure (\<lambda>(d, s). length s)", goal_cases)
  case (2 d s a v s1 f b1 scale b2 s2 post u s3 unit d')
  then have "length s1 \<le> length s" "length s2 \<le> length s1"
    using leadingInt_length [of 0 s v s1] fraction_part_length [of s1 f scale s2 post] by auto
  moreover have "length s3 < length s2"
    using 2 by (cases s2) auto
  ultimately show ?case
    by simp
qed simp

declare duration_loop.simps [simp del]

definition ParseDuration :: "string \<Rightarrow> duration_error + goint" where
  "ParseDuration s =
     (case strip_sign s of (neg, s) \<Rightarrow>
        if s = ''0'' then Inr 0
        else if s = [] then Inl InvalidDuration
        else rbind (duration_loop 0 s) (\<lambda>d.
          if neg then Inr (wrap64 (- int d))
          else if 2 ^ 63 - 1 < d then Inl InvalidDuration
          else Inr (int d)))"

section \<open>Duration.String\<close>

text \<open>The fraction of \<open>v / 10\<^sup>n\<close> without trailing zeros, and the integer part; \<open>shown\<close> is \<^verbatim>\<open>print\<close>.\<close>

fun fmtFrac :: "nat \<Rightarrow> nat \<Rightarrow> bool \<Rightarrow> string \<Rightarrow> string \<times> nat" where
  "fmtFrac 0 v shown buf = (if shown then CHR ''.'' # buf else buf, v)"
| "fmtFrac (Suc n) v shown buf =
     (let digit = v mod 10; shown = shown \<or> digit \<noteq> 0
      in fmtFrac n (v div 10) shown (if shown then digit_char digit # buf else buf))"

definition micro :: string where
  "micro = [CHR 0xC2, CHR 0xB5]"

definition duration_text :: "nat \<Rightarrow> string" where
  "duration_text u =
     (if u < 1000000000 then
        if u = 0 then ''0s''
        else
          let (prec, unit) = (if u < 1000 then (0, ''ns'') else if u < 1000000 then (3, micro @ ''s'') else (6, ''ms''));
              (frac, v) = fmtFrac prec u False []
          in show_nat v @ frac @ unit
      else
        let (frac, v) = fmtFrac 9 u False [];
            seconds = show_nat (v mod 60) @ frac @ ''s'';
            m = v div 60; h = m div 60
        in if m = 0 then seconds
           else if h = 0 then show_nat (m mod 60) @ ''m'' @ seconds
           else show_nat h @ ''h'' @ show_nat (m mod 60) @ ''m'' @ seconds)"

definition Duration_String :: "goint \<Rightarrow> string" where
  "Duration_String d = (if d < 0 then ''-'' @ duration_text (nat (- d)) else duration_text (nat d))"

section \<open>Parsing inverts printing\<close>

lemma leadingInt_append: "leadingInt x s = Some (v, []) \<Longrightarrow> leadingInt x (s @ t) = leadingInt v t"
  by (induction x s rule: leadingInt.induct) (auto split: option.splits if_splits)

lemma leadingInt_show_nat: "n \<le> 2 ^ 63 \<Longrightarrow> leadingInt 0 (show_nat n) = Some (n, [])"
proof (induction n rule: show_nat.induct)
  case (1 n)
  show ?case
  proof (cases "n < 10")
    case True
    then show ?thesis
      by (subst show_nat.simps) simp
  next
    case False
    with 1 have "leadingInt 0 (show_nat (n div 10)) = Some (n div 10, [])"
      by simp
    from leadingInt_append [OF this, of "[digit_char (n mod 10)]"] False "1.prems" show ?thesis
      by (subst show_nat.simps) simp
  qed
qed

lemma leadingInt_stop: "unit_char (hd s) \<or> hd s = CHR ''.'' \<Longrightarrow> s \<noteq> [] \<Longrightarrow> leadingInt x s = Some (x, s)"
  by (cases s) (auto simp: unit_char_def)

text \<open>The last \<open>n\<close> decimal digits of a number.\<close>

fun low_digits :: "nat \<Rightarrow> nat \<Rightarrow> string" where
  "low_digits 0 v = []"
| "low_digits (Suc n) v = low_digits n (v div 10) @ [digit_char (v mod 10)]"

lemma low_digits_empty [simp]: "low_digits n v = [] \<longleftrightarrow> n = 0"
  by (cases n) simp_all

lemma fmtFrac_shown: "fmtFrac n v True buf = (CHR ''.'' # low_digits n v @ buf, v div 10 ^ n)"
  by (induction n arbitrary: v buf) (simp_all add: Let_def div_mult2_eq)

lemma fmtFrac_hidden:
  "(\<exists>k \<le> n. 0 < k \<and> fmtFrac n v False [] = (CHR ''.'' # low_digits k (v div 10 ^ (n - k)), v div 10 ^ n) \<and>
      v mod 10 ^ n = v div 10 ^ (n - k) mod 10 ^ k * 10 ^ (n - k) \<and> 0 < v mod 10 ^ n) \<or>
   fmtFrac n v False [] = ([], v div 10 ^ n) \<and> v mod 10 ^ n = 0"
proof (induction n arbitrary: v)
  case (Suc n)
  have m: "v mod 10 ^ Suc n = 10 * (v div 10 mod 10 ^ n) + v mod 10"
    by (simp add: mod_mult2_eq)
  show ?case
  proof (cases "v mod 10 = 0")
    case False
    then show ?thesis
      using m by (intro disjI1 exI [of _ "Suc n"]) (simp add: Let_def fmtFrac_shown div_mult2_eq)
  next
    case True
    then have f: "fmtFrac (Suc n) v False [] = fmtFrac n (v div 10) False []"
      by simp
    have d: "v div 10 div 10 ^ i = v div 10 ^ Suc i" for i
      by (simp add: div_mult2_eq)
    from Suc [of "v div 10"] show ?thesis
    proof
      assume "\<exists>k \<le> n. 0 < k \<and> fmtFrac n (v div 10) False [] =
          (CHR ''.'' # low_digits k (v div 10 div 10 ^ (n - k)), v div 10 div 10 ^ n) \<and>
        v div 10 mod 10 ^ n = v div 10 div 10 ^ (n - k) mod 10 ^ k * 10 ^ (n - k) \<and> 0 < v div 10 mod 10 ^ n"
      then obtain k where "k \<le> n" "0 < k" "fmtFrac n (v div 10) False [] =
          (CHR ''.'' # low_digits k (v div 10 div 10 ^ (n - k)), v div 10 div 10 ^ n)"
        "v div 10 mod 10 ^ n = v div 10 div 10 ^ (n - k) mod 10 ^ k * 10 ^ (n - k)" "0 < v div 10 mod 10 ^ n"
        by blast
      then show ?thesis
        using True m unfolding f by (intro disjI1 exI [of _ k]) (simp add: d Suc_diff_le del: power_Suc, simp)
    next
      assume "fmtFrac n (v div 10) False [] = ([], v div 10 div 10 ^ n) \<and> v div 10 mod 10 ^ n = 0"
      then show ?thesis
        using True m by (intro disjI2) (simp add: div_mult2_eq)
    qed
  qed
qed simp

lemma power10_small: "k \<le> 9 \<Longrightarrow> (10 :: nat) ^ k \<le> 1000000000"
  using power_increasing [of k 9 "10 :: nat"] by simp

lemma round53_nat: "n \<le> 9007199254740992 \<Longrightarrow> round53 (of_nat n) = of_nat n"
  using round53_of_int [of "int n"] by simp

lemma leadingFraction_step:
  "x < 1000000000 \<Longrightarrow> d < 10 \<Longrightarrow>
     leadingFraction False x scale (digit_char d # r) = leadingFraction False (x * 10 + d) (f64_mul scale (f64_const 10)) r"
  by simp

lemma leadingFraction_digits:
  assumes "j + k \<le> 9" "x < 10 ^ j"
  shows "leadingFraction False x (F64 False (10 ^ j)) (low_digits k w @ r) =
     leadingFraction False (x * 10 ^ k + w mod 10 ^ k) (F64 False (10 ^ (j + k))) r"
  using assms
proof (induction k arbitrary: w r)
  case (Suc k)
  let ?x = "x * 10 ^ k + w div 10 mod 10 ^ k"
  have "?x < 10 ^ k + x * 10 ^ k"
    by simp
  also have "\<dots> \<le> 10 ^ (j + k)"
    using mult_le_mono1 [of "Suc x" "10 ^ j" "10 ^ k"] Suc.prems(2) by (simp add: power_add)
  also have "\<dots> \<le> 1000000000"
    using Suc.prems by (intro power10_small) simp
  finally have small: "?x < 1000000000" .
  have mul: "f64_mul (F64 False (10 ^ (j + k))) (f64_const 10) = F64 False (10 ^ (j + Suc k))"
    using round53_nat [of "10 ^ (j + Suc k)"] power10_small [of "j + Suc k"] Suc.prems
    by (simp add: f64_mul_def f64_const_def mult.commute)
  have val: "?x * 10 + w mod 10 = x * 10 ^ Suc k + w mod 10 ^ Suc k"
    by (simp add: mod_mult2_eq algebra_simps)
  have "leadingFraction False ?x (F64 False (10 ^ (j + k))) (digit_char (w mod 10) # r) =
      leadingFraction False (?x * 10 + w mod 10) (f64_mul (F64 False (10 ^ (j + k))) (f64_const 10)) r"
    by (rule leadingFraction_step [OF small]) simp
  note this [unfolded mul val]
  then show ?case
    using Suc.IH [of "w div 10" "digit_char (w mod 10) # r"] Suc.prems by (simp del: leadingFraction.simps)
qed simp

lemma fraction_value_exact:
  assumes "k \<le> n" "n \<le> 9" "f < 10 ^ k"
  shows "fraction_value f (F64 False (10 ^ k)) (10 ^ n) = f * 10 ^ (n - k)"
proof -
  have "10 ^ n = (10 ^ (n - k) * 10 ^ k :: nat)"
    using assms(1) by (simp flip: power_add)
  moreover from this have "f * 10 ^ (n - k) \<le> 10 ^ n"
    using assms(3) by simp
  moreover have "(10 :: nat) ^ n \<le> 1000000000" "(10 :: nat) ^ (n - k) \<le> 1000000000" "(10 :: nat) ^ k \<le> 1000000000"
    using assms by (intro power10_small; simp)+
  ultimately have b: "f \<le> 9007199254740992" "10 ^ n \<le> (9007199254740992 :: nat)" "10 ^ (n - k) \<le> (9007199254740992 :: nat)"
      "f * 10 ^ (n - k) \<le> 9007199254740992"
    using assms(3) by linarith+
  have q: "(10 :: rat) ^ n / 10 ^ k = of_nat (10 ^ (n - k))"
    using assms(1) power_add [of "10 :: rat" "n - k" k] by simp
  have "f64_div (f64_of_int (int (10 ^ n))) (F64 False (10 ^ k)) = F64 False (of_nat (10 ^ (n - k)))"
    using round53_nat [OF b(2)] round53_nat [OF b(3)] q by (simp add: f64_div_def f64_of_int_def)
  moreover have "f64_of_int (int f) = F64 False (of_nat f)"
    using round53_nat [OF b(1)] by (simp add: f64_of_int_def)
  ultimately have "f_mag (f64_mul (f64_of_int (int f)) (f64_div (f64_of_int (int (10 ^ n))) (F64 False (10 ^ k)))) =
      of_nat (f * 10 ^ (n - k))"
    using round53_nat [OF b(4)] by (simp add: f64_mul_def)
  then show ?thesis
    unfolding fraction_value_def by (simp only: floor_of_nat nat_int)
qed

text \<open>A printed fraction is read back to its value.\<close>

lemma fraction_part_unit: "s \<noteq> [] \<Longrightarrow> unit_char (hd s) \<Longrightarrow> fraction_part s = (0, f64_const 1, s, False)"
  by (cases s) (auto simp: fraction_part_def unit_char_def)

lemma fraction_part_frac:
  assumes "n \<le> 9" and "fmtFrac n u False [] = (t, v)" and "s \<noteq> []" "unit_char (hd s)"
  shows "\<exists>f scale post. fraction_part (t @ s) = (f, scale, s, post) \<and>
    (if 0 < f then fraction_value f scale (10 ^ n) else 0) = u mod 10 ^ n"
  using fmtFrac_hidden [of n u]
proof
  assume "\<exists>k \<le> n. 0 < k \<and> fmtFrac n u False [] = (CHR ''.'' # low_digits k (u div 10 ^ (n - k)), u div 10 ^ n) \<and>
      u mod 10 ^ n = u div 10 ^ (n - k) mod 10 ^ k * 10 ^ (n - k) \<and> 0 < u mod 10 ^ n"
  then obtain k where k: "k \<le> n" "0 < k" "t = CHR ''.'' # low_digits k (u div 10 ^ (n - k))"
      "u mod 10 ^ n = u div 10 ^ (n - k) mod 10 ^ k * 10 ^ (n - k)" "0 < u mod 10 ^ n"
    using assms(2) by auto
  let ?f = "u div 10 ^ (n - k) mod 10 ^ k"
  have one: "f64_const 1 = F64 False (10 ^ 0)"
    by (simp add: f64_const_def)
  have stop: "leadingFraction False ?f (F64 False (10 ^ k)) s = (?f, F64 False (10 ^ k), s)"
    using assms(3,4) by (cases s) (auto simp: unit_char_def)
  have "leadingFraction False 0 (f64_const 1) (low_digits k (u div 10 ^ (n - k)) @ s) = (?f, F64 False (10 ^ k), s)"
    unfolding one using leadingFraction_digits [of 0 k 0 "u div 10 ^ (n - k)" s] k(1) assms(1) stop by simp
  then have "\<exists>post. fraction_part (t @ s) = (?f, F64 False (10 ^ k), s, post)"
    by (simp add: k(3) fraction_part_def)
  moreover have "fraction_value ?f (F64 False (10 ^ k)) (10 ^ n) = u mod 10 ^ n"
    using fraction_value_exact [OF k(1) assms(1), of ?f] k(4) by simp
  moreover have "0 < ?f"
    using k(4,5) by (metis gr0I mult_0 not_less0)
  ultimately show ?thesis
    by auto
next
  assume "fmtFrac n u False [] = ([], u div 10 ^ n) \<and> u mod 10 ^ n = 0"
  then show ?thesis
    using assms(2) fraction_part_unit [OF assms(3,4)] by auto
qed

text \<open>One number with its unit.\<close>

lemma duration_item:
  assumes "unitMap unit = Some U" "0 < U" "unit \<noteq> []" "list_all unit_char unit" and "r = [] \<or> \<not> unit_char (hd r)"
    and "fraction_part (t @ unit @ r) = (f, scale, unit @ r, post)" and "t = [] \<or> hd t = CHR ''.''"
    and "d + (v * U + (if 0 < f then fraction_value f scale U else 0)) \<le> 2 ^ 63"
  shows "duration_loop d (show_nat v @ t @ unit @ r) =
     duration_loop (d + (v * U + (if 0 < f then fraction_value f scale U else 0))) r"
proof -
  let ?q = "if 0 < f then fraction_value f scale U else 0"
  let ?s = "show_nat v @ t @ unit @ r"
  have v: "v * U \<le> 2 ^ 63"
    using assms(8) by linarith
  then have "v \<le> 2 ^ 63 div U"
    using assms(2) by (simp add: less_eq_div_iff_mult_less_eq)
  moreover have "v \<le> 2 ^ 63"
    using v assms(2) by (metis le_trans mult_le_mono2 Suc_leI mult.right_neutral One_nat_def)
  ultimately have lead: "leadingInt 0 ?s = Some (v, t @ unit @ r)" and u: "v \<le> 2 ^ 63 div U"
    using leadingInt_append [OF leadingInt_show_nat, of v "t @ unit @ r"] leadingInt_stop [of "t @ unit @ r" v] assms(3,4,7)
    by (cases unit; cases t; simp)+
  have hd: "\<not> unit_char (hd ?s)"
    using show_nat_ends(1) [of v] by (auto simp: unit_char_def)
  have tw: "takeWhile unit_char (unit @ r) = unit"
    using assms(4,5) by (cases r) (auto simp: list_all_iff takeWhile_append2 takeWhile_tail)
  have add: "add_item d v f scale U = Some (d + (v * U + ?q))"
    using assms(8) u by (auto simp: add_item_def Let_def)
  have len: "length (t @ unit @ r) \<noteq> length ?s"
    by simp
  show ?thesis
    apply (subst duration_loop.simps)
    using lead hd tw add len assms(1,3,6) by simp
qed

lemma fmtFrac_parts: "fmtFrac n u False [] = (t, v) \<Longrightarrow> v = u div 10 ^ n \<and> (t = [] \<or> hd t = CHR ''.'')"
  using fmtFrac_hidden [of n u] by auto

lemma duration_last:
  assumes "n \<le> 9" "fmtFrac n u False [] = (t, v)"
    and "unitMap unit = Some (10 ^ n)" "unit \<noteq> []" "list_all unit_char unit" "d + (w * 10 ^ n + u mod 10 ^ n) \<le> 2 ^ 63"
  shows "duration_loop d (show_nat w @ t @ unit) = Inr (d + (w * 10 ^ n + u mod 10 ^ n))"
proof -
  have "unit_char (hd unit)"
    using assms(4,5) by (cases unit) simp_all
  from fraction_part_frac [OF assms(1,2,4) this] obtain f scale post where
    "fraction_part (t @ unit) = (f, scale, unit, post)" "(if 0 < f then fraction_value f scale (10 ^ n) else 0) = u mod 10 ^ n"
    by blast
  then show ?thesis
    using duration_item [OF assms(3) _ assms(4,5), of "[]" t f scale post d w] fmtFrac_parts [OF assms(2)] assms(6)
    by (simp add: duration_loop.simps [of _ "[]"])
qed

lemma duration_whole:
  assumes "unitMap [c] = Some U" "0 < U" "unit_char c" and "d + v * U \<le> 2 ^ 63" and "r \<noteq> []" "\<not> unit_char (hd r)"
  shows "duration_loop d (show_nat v @ c # r) = duration_loop (d + v * U) r"
  using duration_item [OF assms(1,2), of r "[]" 0 "f64_const 1" False d v] assms(3-6)
  by (simp add: fraction_part_unit)

lemma show_nat_not_unit: "\<not> unit_char (hd (show_nat v))"
  using show_nat_ends(1) [of v] by (auto simp: unit_char_def)

lemma unit_chars [simp]: "unit_char (CHR ''h'')" "unit_char (CHR ''m'')" "unit_char (CHR ''s'')" "unit_char (CHR ''n'')"
  "list_all unit_char micro"
  by (simp_all add: unit_char_def digit_val_def micro_def Let_def)

lemma unit_values [simp]:
  "unitMap ''h'' = Some 3600000000000" "unitMap ''m'' = Some 60000000000" "unitMap ''s'' = Some 1000000000"
  "unitMap ''ms'' = Some 1000000" "unitMap (micro @ ''s'') = Some 1000" "unitMap ''ns'' = Some 1"
  by (simp_all add: unitMap_def micro_def)

lemma duration_loop_small:
  assumes "0 < u" "u < 1000000000"
  shows "duration_loop 0 (duration_text u) = Inr u"
proof -
  let ?n = "if u < 1000 then 0 else if u < 1000000 then 3 else 6 :: nat"
  let ?unit = "if u < 1000 then ''ns'' else if u < 1000000 then micro @ ''s'' else ''ms''"
  obtain t v where f: "fmtFrac ?n u False [] = (t, v)" by fastforce
  have "duration_text u = show_nat v @ t @ ?unit"
    using assms f by (auto simp: duration_text_def Let_def)
  moreover have "duration_loop 0 (show_nat v @ t @ ?unit) = Inr (0 + (v * 10 ^ ?n + u mod 10 ^ ?n))"
    using assms fmtFrac_parts [OF f] by (intro duration_last [OF _ f]) auto
  moreover have "v * 10 ^ ?n + u mod 10 ^ ?n = u"
    using fmtFrac_parts [OF f] by (simp only: div_mult_mod_eq)
  ultimately show ?thesis
    by simp
qed

lemma clock_sum:
  assumes "u = v * 1000000000 + r" "v = m * 60 + s" "m = h * 60 + (k :: nat)"
  shows "h * 3600000000000 + k * 60000000000 + (s * 1000000000 + r) = u"
  using assms by simp

lemma duration_loop_large:
  assumes "1000000000 \<le> u" "u \<le> 2 ^ 63"
  shows "duration_loop 0 (duration_text u) = Inr u"
proof -
  obtain t v where f: "fmtFrac 9 u False [] = (t, v)" by fastforce
  let ?h = "v div 60 div 60" and ?m = "v div 60 mod 60" and ?s = "v mod 60"
  let ?sec = "show_nat ?s @ t @ ''s''"
  have v: "v = u div 1000000000"
    using fmtFrac_parts [OF f] by simp
  have sum: "?h * 3600000000000 + ?m * 60000000000 + (?s * 1000000000 + u mod 1000000000) = u"
    by (rule clock_sum [of _ v _ "v div 60"]) (simp_all only: v div_mult_mod_eq)
  have last: "duration_loop d ?sec = Inr (d + (?s * 1000000000 + u mod 1000000000))"
    if "d + (?s * 1000000000 + u mod 1000000000) \<le> 2 ^ 63" for d
    using duration_last [OF _ f, of "''s''" d ?s] that by simp
  have mid: "duration_loop d (show_nat ?m @ ''m'' @ ?sec) = Inr (d + ?m * 60000000000 + (?s * 1000000000 + u mod 1000000000))"
    if "d + ?m * 60000000000 + (?s * 1000000000 + u mod 1000000000) \<le> 2 ^ 63" for d
    using duration_whole [of "CHR ''m''" 60000000000 d ?m ?sec] last [of "d + ?m * 60000000000"] that
    by (simp add: show_nat_not_unit)
  have shown: "duration_text u = (if v div 60 = 0 then ?sec else if ?h = 0 then show_nat ?m @ ''m'' @ ?sec
      else show_nat ?h @ ''h'' @ show_nat ?m @ ''m'' @ ?sec)"
    using assms(1) f by (simp add: duration_text_def Let_def)
  consider "v div 60 = 0" | "v div 60 \<noteq> 0" "?h = 0" | "?h \<noteq> 0" by blast
  then show ?thesis
  proof cases
    case 1
    then show ?thesis
      using last [of 0] sum assms(2) shown by simp
  next
    case 2
    then show ?thesis
      using mid [of 0] sum assms(2) shown by simp
  next
    case 3
    then have "v div 60 \<noteq> 0" by auto
    then show ?thesis
      using duration_whole [of "CHR ''h''" 3600000000000 0 ?h "show_nat ?m @ ''m'' @ ?sec"]
        mid [of "?h * 3600000000000"] sum assms(2) shown 3
      by (simp add: show_nat_not_unit)
  qed
qed

lemma duration_text_shape: "0 < u \<Longrightarrow> \<exists>v t. duration_text u = show_nat v @ t \<and> t \<noteq> []"
  by (auto simp: duration_text_def Let_def micro_def split: prod.splits)

lemma ParseDuration_String: "in_int64 d \<Longrightarrow> ParseDuration (Duration_String d) = Inr d"
proof (cases "d = 0")
  case True
  then show ?thesis
    by (simp add: Duration_String_def duration_text_def ParseDuration_def strip_sign_def duration_loop.simps [of 0]
        unit_char_def digit_val_def fraction_part_def Let_def add_item_def duration_loop.simps [of _ "[]"])
next
  case False
  assume d: "in_int64 d"
  let ?u = "nat \<bar>d\<bar>"
  have u: "0 < ?u" "?u \<le> 2 ^ 63"
    using d False by (auto simp: in_int64_def nat_le_iff)
  then have loop: "duration_loop 0 (duration_text ?u) = Inr ?u"
    using duration_loop_small duration_loop_large by (cases "?u < 1000000000") auto
  obtain v t where shape: "duration_text ?u = show_nat v @ t" "t \<noteq> []"
    using duration_text_shape [OF u(1)] by blast
  have "duration_text ?u \<noteq> ''0''"
    using shape by (cases "show_nat v") (auto simp: Cons_eq_append_conv)
  moreover have "strip_sign (duration_text ?u) = (False, duration_text ?u)"
    using shape(1) show_nat_ends(1) [of v] by (cases "show_nat v") (auto simp: strip_sign_def)
  moreover have "strip_sign (CHR ''-'' # duration_text ?u) = (True, duration_text ?u)"
    by (simp add: strip_sign_def)
  ultimately show ?thesis
    using loop u False d shape(1) by (auto simp: ParseDuration_def Duration_String_def in_int64_def abs_if split: if_splits)
qed

interpretation durations: codec Duration_String ParseDuration in_int64
  by unfold_locales (rule ParseDuration_String)

end
