(* ===== verification/GoFlag.thy ===== *)
theory GoFlag
  imports GoText
begin

text \<open>
  What the command line uses of Go's \<^verbatim>\<open>flag\<close> package: string and integer flags with defaults, parsed
  from the argument list. Integer values are read by \<^verbatim>\<open>strconv.ParseInt(s, 0, 64)\<close>, which also takes
  binary, octal and hexadecimal literals and underscores.
\<close>

section \<open>ParseInt with base prefix\<close>

definition lower :: "char \<Rightarrow> nat" where
  "lower c = (let k = of_char c :: nat in if odd (k div 32) then k else k + 32)"

definition base_digit :: "char \<Rightarrow> nat option" where
  "base_digit c =
     (case digit_val c of
        Some d \<Rightarrow> Some d
      | None \<Rightarrow> if 97 \<le> lower c \<and> lower c \<le> 122 then Some (lower c - 87) else None)"

text \<open>The value and whether an underscore was seen.\<close>

fun base_loop :: "nat \<Rightarrow> nat \<Rightarrow> bool \<Rightarrow> string \<Rightarrow> num_error + nat \<times> bool" where
  "base_loop base n underscores [] = Inr (n, underscores)"
| "base_loop base n underscores (c # cs) =
     (if c = CHR ''_'' then base_loop base n True cs
      else case base_digit c of
        None \<Rightarrow> Inl ErrSyntax
      | Some d \<Rightarrow>
          if base \<le> d then Inl ErrSyntax
          else if (2 ^ 64 - 1) div base + 1 \<le> n then Inl ErrRange
          else if 2 ^ 64 \<le> n * base + d then Inl ErrRange
          else base_loop base (n * base + d) underscores cs)"

fun underscore_loop :: "bool \<Rightarrow> char \<Rightarrow> string \<Rightarrow> bool" where
  "underscore_loop hex saw [] \<longleftrightarrow> saw \<noteq> CHR ''_''"
| "underscore_loop hex saw (c # cs) \<longleftrightarrow>
     (if digit_val c \<noteq> None \<or> hex \<and> 97 \<le> lower c \<and> lower c \<le> 102 then underscore_loop hex CHR ''0'' cs
      else if c = CHR ''_'' then saw = CHR ''0'' \<and> underscore_loop hex CHR ''_'' cs
      else saw \<noteq> CHR ''_'' \<and> underscore_loop hex CHR ''!'' cs)"

definition underscoreOK :: "string \<Rightarrow> bool" where
  "underscoreOK s =
     (let s = snd (strip_sign s) in
      if 2 \<le> length s \<and> s ! 0 = CHR ''0'' \<and> lower (s ! 1) \<in> {98, 111, 120}
      then underscore_loop (lower (s ! 1) = 120) CHR ''0'' (drop 2 s)
      else underscore_loop False CHR ''^'' s)"

definition split_base :: "string \<Rightarrow> nat \<times> string" where
  "split_base s =
     (if s ! 0 = CHR ''0'' then
        if 3 \<le> length s \<and> lower (s ! 1) = 98 then (2, drop 2 s)
        else if 3 \<le> length s \<and> lower (s ! 1) = 111 then (8, drop 2 s)
        else if 3 \<le> length s \<and> lower (s ! 1) = 120 then (16, drop 2 s)
        else (8, drop 1 s)
      else (10, s))"

definition ParseUint0 :: "string \<Rightarrow> num_error + nat" where
  "ParseUint0 s =
     (if s = [] then Inl ErrSyntax
      else case split_base s of
        (base, ds) \<Rightarrow>
          rbind (base_loop base 0 False ds) (\<lambda>(n, underscores).
            if underscores \<and> \<not> underscoreOK s then Inl ErrSyntax else Inr n))"

definition ParseInt0 :: "string \<Rightarrow> num_error + int" where
  "ParseInt0 s =
     (if s = [] then Inl ErrSyntax
      else case strip_sign s of (neg, ds) \<Rightarrow>
        rbind (ParseUint0 ds) (\<lambda>un.
          if \<not> neg \<and> 2 ^ 63 \<le> un then Inl ErrRange
          else if neg \<and> 2 ^ 63 < un then Inl ErrRange
          else Inr (if neg then - int un else int un)))"

section \<open>Flags\<close>

datatype flag_var = StringVar string | IntVar goint

type_synonym flag_set = "(string \<times> flag_var) list"

datatype flag_error =
    ErrHelp
  | BadFlagSyntax string
  | NotDefined string
  | NeedsArgument string
  | InvalidValue string string

fun set_var :: "flag_var \<Rightarrow> string \<Rightarrow> flag_var option" where
  "set_var (StringVar _) s = Some (StringVar s)"
| "set_var (IntVar _) s = (case ParseInt0 s of Inl _ \<Rightarrow> None | Inr n \<Rightarrow> Some (IntVar n))"

fun update_flag :: "string \<Rightarrow> flag_var \<Rightarrow> flag_set \<Rightarrow> flag_set" where
  "update_flag name v [] = []"
| "update_flag name v ((n, w) # fs) = (if n = name then (n, v) # fs else (n, w) # update_flag name v fs)"

definition set_flag :: "string \<Rightarrow> string \<Rightarrow> flag_set \<Rightarrow> flag_error + flag_set" where
  "set_flag name value fs =
     (case map_of fs name of
        None \<Rightarrow> Inl (if name = ''help'' \<or> name = ''h'' then ErrHelp else NotDefined name)
      | Some var \<Rightarrow>
          (case set_var var value of
             None \<Rightarrow> Inl (InvalidValue name value)
           | Some var \<Rightarrow> Inr (update_flag name var fs)))"

text \<open>The name and the value of \<^verbatim>\<open>name=value\<close>; the first character is not the equals sign.\<close>

definition split_value :: "string \<Rightarrow> string \<times> string option" where
  "split_value s =
     (let name = takeWhile (\<lambda>c. c \<noteq> CHR ''='') s
      in (name, if length name < length s then Some (drop (length name + 1) s) else None))"

text \<open>\<^verbatim>\<open>Parse\<close>: the flags with their new values, and the arguments that are left.\<close>

fun parse_flags :: "flag_set \<Rightarrow> string list \<Rightarrow> flag_error + flag_set \<times> string list" where
  "parse_flags fs [] = Inr (fs, [])"
| "parse_flags fs (s # args) =
     (if length s < 2 \<or> s ! 0 \<noteq> CHR ''-'' then Inr (fs, s # args)
      else if s = ''--'' then Inr (fs, args)
      else
        let body = drop (if s ! 1 = CHR ''-'' then 2 else 1) s in
        if body = [] \<or> hd body = CHR ''-'' \<or> hd body = CHR ''='' then Inl (BadFlagSyntax s)
        else case split_value body of
          (name, Some value) \<Rightarrow>
            (case set_flag name value fs of Inl e \<Rightarrow> Inl e | Inr fs \<Rightarrow> parse_flags fs args)
        | (name, None) \<Rightarrow>
            (case map_of fs name of
               None \<Rightarrow> Inl (if name = ''help'' \<or> name = ''h'' then ErrHelp else NotDefined name)
             | Some _ \<Rightarrow>
                 (case args of
                    [] \<Rightarrow> Inl (NeedsArgument name)
                  | value # args \<Rightarrow>
                      (case set_flag name value fs of Inl e \<Rightarrow> Inl e | Inr fs \<Rightarrow> parse_flags fs args))))"

definition get_string :: "flag_set \<Rightarrow> string \<Rightarrow> string" where
  "get_string fs name = (case map_of fs name of Some (StringVar s) \<Rightarrow> s | _ \<Rightarrow> [])"

definition get_int_flag :: "flag_set \<Rightarrow> string \<Rightarrow> goint" where
  "get_int_flag fs name = (case map_of fs name of Some (IntVar n) \<Rightarrow> n | _ \<Rightarrow> 0)"

section \<open>Decimal numbers\<close>

lemma base_digit_decimal [simp]: "d < 10 \<Longrightarrow> base_digit (digit_char d) = Some d"
  by (simp add: base_digit_def)

lemma digit_char_plain: "d < 10 \<Longrightarrow> digit_char d \<noteq> CHR ''_''"
proof
  assume "d < 10" "digit_char d = CHR ''_''"
  then show False
    using digit_val_digit_char [of d] by (simp add: digit_val_def)
qed

lemma base_loop_append:
  "base_loop b n u s = Inr (m, v) \<Longrightarrow> base_loop b n u (s @ t) = base_loop b m v t"
  by (induction b n u s rule: base_loop.induct) (auto split: option.splits if_splits)

lemma base_loop_show_nat: "n < 2 ^ 64 \<Longrightarrow> base_loop 10 0 False (show_nat n) = Inr (n, False)"
proof (induction n rule: show_nat.induct)
  case (1 n)
  show ?case
  proof (cases "n < 10")
    case True
    then show ?thesis
      by (subst show_nat.simps) (simp add: digit_char_plain)
  next
    case False
    with 1 have "base_loop 10 0 False (show_nat (n div 10)) = Inr (n div 10, False)"
      by simp
    moreover have "n div 10 < 1844674407370955162" "n mod 10 < 10"
      using "1.prems" by simp_all
    ultimately show ?thesis
      using base_loop_append [of 10 0 False "show_nat (n div 10)" "n div 10" False "[digit_char (n mod 10)]"] False "1.prems"
      by (subst show_nat.simps) (simp add: digit_char_plain not_le)
  qed
qed

lemma show_nat_leading: "0 < n \<Longrightarrow> hd (show_nat n) \<noteq> CHR ''0''"
proof (induction n rule: show_nat.induct)
  case (1 n)
  show ?case
  proof (cases "n < 10")
    case True
    then show ?thesis
      using "1.prems" digit_val_digit_char [of n] by (subst show_nat.simps) (auto simp: digit_val_def)
  next
    case False
    with 1 show ?thesis
      by (subst show_nat.simps) simp
  qed
qed

lemma show_nat_0: "show_nat 0 = ''0''"
  by code_simp

lemma ParseUint0_show_nat: "n < 2 ^ 64 \<Longrightarrow> ParseUint0 (show_nat n) = Inr n"
proof (cases "n = 0")
  case True
  then show ?thesis
    by (simp add: ParseUint0_def split_base_def show_nat_0)
next
  case False
  assume "n < 2 ^ 64"
  then show ?thesis
    using False show_nat_leading [of n] base_loop_show_nat [of n]
    by (simp add: ParseUint0_def split_base_def flip: hd_conv_nth)
qed

lemma ParseInt0_show_int: "in_int64 n \<Longrightarrow> ParseInt0 (show_int n) = Inr n"
proof (cases "n < 0")
  case True
  assume "in_int64 n"
  then have "nat (- n) \<le> 2 ^ 63"
    by (simp add: in_int64_def nat_le_iff)
  moreover have "strip_sign (CHR ''-'' # show_nat (nat (- n))) = (True, show_nat (nat (- n)))"
    by (simp add: strip_sign_def)
  ultimately show ?thesis
    using True by (simp add: ParseInt0_def show_int_def ParseUint0_show_nat)
next
  case False
  assume "in_int64 n"
  then have "nat n < 2 ^ 63"
    using False by (simp add: in_int64_def)
  then show ?thesis
    using False by (simp add: ParseInt0_def show_int_def strip_sign_digits ParseUint0_show_nat)
qed

interpretation flag_numbers: codec show_int ParseInt0 in_int64
  by unfold_locales (rule ParseInt0_show_int)

section \<open>Assignments\<close>

text \<open>A flag written as \<^verbatim>\<open>-name=value\<close>.\<close>

fun show_var :: "flag_var \<Rightarrow> string" where
  "show_var (StringVar s) = s"
| "show_var (IntVar n) = show_int n"

definition assignment :: "string \<times> flag_var \<Rightarrow> string" where
  "assignment p = ''-'' @ fst p @ ''='' @ show_var (snd p)"

fun same_kind :: "flag_var \<Rightarrow> flag_var \<Rightarrow> bool" where
  "same_kind (StringVar _) (StringVar _) = True"
| "same_kind (IntVar _) (IntVar n) = in_int64 n"
| "same_kind _ _ = False"

definition flag_name :: "string \<Rightarrow> bool" where
  "flag_name n \<longleftrightarrow> n \<noteq> [] \<and> CHR ''='' \<notin> set n \<and> hd n \<noteq> CHR ''-''"

lemma set_var_show: "same_kind v w \<Longrightarrow> set_var v (show_var w) = Some w"
  by (cases v; cases w) (simp_all add: ParseInt0_show_int)

lemma split_value_assignment: "CHR ''='' \<notin> set n \<Longrightarrow> split_value (n @ CHR ''='' # v) = (n, Some v)"
proof -
  assume "CHR ''='' \<notin> set n"
  then have "takeWhile (\<lambda>c. c \<noteq> CHR ''='') (n @ CHR ''='' # v) = n"
    by (induction n) auto
  then show ?thesis
    by (simp add: split_value_def)
qed

lemma parse_assignment:
  assumes "flag_name n" and "map_of fs n = Some v" and "same_kind v w"
  shows "parse_flags fs (assignment (n, w) # args) = parse_flags (update_flag n w fs) args"
proof -
  obtain c cs where n: "n = c # cs" "c \<noteq> CHR ''-''" "c \<noteq> CHR ''=''" "CHR ''='' \<notin> set n"
    using assms(1) by (cases n) (auto simp: flag_name_def)
  have "set_flag n (show_var w) fs = Inr (update_flag n w fs)"
    using assms(2,3) by (simp add: set_flag_def set_var_show)
  then show ?thesis
    using n(1-3) split_value_assignment [OF n(4), of "show_var w"] by (simp add: assignment_def)
qed

lemma update_flag_middle: "n \<notin> fst ` set xs \<Longrightarrow> update_flag n w (xs @ (n, v) # ys) = xs @ (n, w) # ys"
  by (induction xs) auto

lemma map_of_middle: "n \<notin> fst ` set xs \<Longrightarrow> map_of (xs @ (n, v) # ys) n = Some v"
  by (induction xs) auto

text \<open>Assignments to all flags in their order give the flags these values.\<close>

lemma parse_assignments:
  assumes "list_all2 (\<lambda>(n, v) (m, w). n = m \<and> flag_name n \<and> same_kind v w) fs ws" and "distinct (map fst (pre @ fs))"
  shows "parse_flags (pre @ fs) (map assignment ws) = Inr (pre @ ws, [])"
  using assms
proof (induction fs ws arbitrary: pre rule: list_all2_induct)
  case (Cons x fs y ws)
  obtain n v w where xy: "x = (n, v)" "y = (n, w)" "flag_name n" "same_kind v w"
    using Cons.hyps(1) by (cases x; cases y) auto
  have "n \<notin> fst ` set pre"
    using Cons.prems xy by auto
  then have "parse_flags (pre @ x # fs) (map assignment (y # ws)) = parse_flags ((pre @ [y]) @ fs) (map assignment ws)"
    using parse_assignment [OF xy(3) map_of_middle xy(4), of pre fs "map assignment ws"] xy(1,2)
    by (simp add: update_flag_middle del: parse_flags.simps)
  also have "\<dots> = Inr ((pre @ [y]) @ ws, [])"
    using Cons.prems xy by (intro Cons.IH) auto
  finally show ?case
    by simp
qed simp

end
