(* ===== verification/Config.thy ===== *)
theory Config
  imports Protocol NetAddr GoFloat "HOL-Library.Product_Lexorder"
begin

text \<open>
  \<^verbatim>\<open>internal/config/config.go\<close>: port specifications, validation of the client parameters, the
  sweep plan and the duration guard.
\<close>

section \<open>Errors\<close>

text \<open>One constructor per error the package returns, with the values its message quotes.\<close>

datatype config_error =
    EmptySpec
  | EmptyPort
  | InvalidPort string num_error
  | PortOutOfRange int
  | NoPortsFound string
  | InvalidRangeSpec string
  | InvalidRangeStart string num_error
  | InvalidRangeEnd string num_error
  | RangeReversed int int
  | RangeStartError int config_error
  | RangeEndError int config_error
  | NoTarget
  | InvalidAddress string string
  | NotIPv4Address string
  | NotIPv6Address string
  | ControlPortOutOfRange int
  | NoPorts
  | MinAboveMax int int
  | BadStep int
  | BadCount int
  | BadInterval int
  | BadMaxDuration int
  | DurationExceeded int int
  | InvalidPorts config_error

section \<open>Data\<close>

record ClientConfig =
  Target4 :: string
  Target6 :: string
  ControlPort :: goint
  CDirection :: Direction
  Ports :: "goint list"
  MinSize :: goint
  MaxSize :: goint
  Step :: goint
  Count :: goint
  Interval :: goint
  MaxEstimatedDuration :: goint

record SweepPlan =
  SPFamily :: Family
  SPPort :: goint
  SPDirection :: Direction
  SPPayloadSize :: goint

section \<open>Port specifications\<close>

definition validatePort :: "goint \<Rightarrow> config_error + unit" where
  "validatePort port = guard_err (port < 1 \<or> 65535 < port) (PortOutOfRange port)"

definition map_err :: "('e \<Rightarrow> 'f) \<Rightarrow> 'e + 'a \<Rightarrow> 'f + 'a" where
  "map_err f r = (case r of Inl e \<Rightarrow> Inl (f e) | Inr x \<Rightarrow> Inr x)"

text \<open>The loop \<^verbatim>\<open>for i := start; i <= end; i++\<close> runs below 65536, where nothing wraps.\<close>

definition parseRange :: "string \<Rightarrow> config_error + goint list" where
  "parseRange spec =
     (let rangeParts = split_on CHR ''-'' spec in
      rbind (guard_err (length rangeParts \<noteq> 2) (InvalidRangeSpec spec)) (\<lambda>_.
      rbind (map_err (InvalidRangeStart (rangeParts ! 0)) (Atoi (TrimSpace (rangeParts ! 0)))) (\<lambda>start.
      rbind (map_err (InvalidRangeEnd (rangeParts ! 1)) (Atoi (TrimSpace (rangeParts ! 1)))) (\<lambda>end.
      rbind (guard_err (end < start) (RangeReversed start end)) (\<lambda>_.
      rbind (map_err (RangeStartError start) (validatePort start)) (\<lambda>_.
      rbind (map_err (RangeEndError end) (validatePort end)) (\<lambda>_.
      Inr [start..end])))))))"

fun parse_parts :: "string list \<Rightarrow> goint list \<Rightarrow> config_error + goint list" where
  "parse_parts [] ports = Inr ports"
| "parse_parts (p # ps) ports =
     (let part = TrimSpace p in
      if part = [] then Inl EmptyPort
      else if contains_char CHR ''-'' part then
        rbind (parseRange part) (\<lambda>rangePorts. parse_parts ps (ports @ rangePorts))
      else
        rbind (map_err (InvalidPort part) (Atoi part)) (\<lambda>port.
        rbind (validatePort port) (\<lambda>_. parse_parts ps (ports @ [port]))))"

text \<open>\<open>prev\<close> is the preceding element of the sorted slice, absent at index 0.\<close>

fun dedupe_loop :: "goint option \<Rightarrow> goint list \<Rightarrow> goint list" where
  "dedupe_loop prev [] = []"
| "dedupe_loop prev (p # ps) =
     (if prev \<noteq> Some p then p # dedupe_loop (Some p) ps else dedupe_loop (Some p) ps)"

definition sortAndDedupe :: "goint list \<Rightarrow> goint list" where
  "sortAndDedupe ports = dedupe_loop None (sort ports)"

definition ParsePorts :: "string \<Rightarrow> config_error + goint list" where
  "ParsePorts spec =
     rbind (guard_err (spec = []) EmptySpec) (\<lambda>_.
     rbind (parse_parts (split_on CHR '','' spec) []) (\<lambda>ports.
     rbind (guard_err (ports = []) (NoPortsFound spec)) (\<lambda>_.
     Inr (sortAndDedupe ports))))"

section \<open>Validation\<close>

definition validateTargetAddress :: "string \<Rightarrow> string \<Rightarrow> config_error + unit" where
  "validateTargetAddress addr family =
     (case ParseIP addr of
        None \<Rightarrow> Inl (InvalidAddress family addr)
      | Some parsed \<Rightarrow>
          if family = ''ipv4'' \<and> To4 parsed = None then Inl (NotIPv4Address addr)
          else if family = ''ipv6'' \<and> To4 parsed \<noteq> None then Inl (NotIPv6Address addr)
          else Inr ())"

definition Config_Validate :: "ClientConfig \<Rightarrow> config_error + unit" where
  "Config_Validate c =
     rbind (guard_err (Target4 c = [] \<and> Target6 c = []) NoTarget) (\<lambda>_.
     rbind (if Target4 c \<noteq> [] then validateTargetAddress (Target4 c) ''ipv4'' else Inr ()) (\<lambda>_.
     rbind (if Target6 c \<noteq> [] then validateTargetAddress (Target6 c) ''ipv6'' else Inr ()) (\<lambda>_.
     rbind (guard_err (ControlPort c < 1 \<or> 65535 < ControlPort c) (ControlPortOutOfRange (ControlPort c))) (\<lambda>_.
     rbind (guard_err (Ports c = []) NoPorts) (\<lambda>_.
     rbind (guard_err (MaxSize c < MinSize c) (MinAboveMax (MinSize c) (MaxSize c))) (\<lambda>_.
     rbind (guard_err (Step c \<le> 0) (BadStep (Step c))) (\<lambda>_.
     rbind (guard_err (Count c \<le> 0) (BadCount (Count c))) (\<lambda>_.
     rbind (guard_err (Interval c \<le> 0) (BadInterval (Interval c))) (\<lambda>_.
     guard_err (MaxEstimatedDuration c \<le> 0) (BadMaxDuration (MaxEstimatedDuration c)))))))))))"

section \<open>The sweep plan\<close>

definition determineFamilies :: "string \<Rightarrow> string \<Rightarrow> Family list" where
  "determineFamilies target4 target6 =
     (if target4 \<noteq> [] then [FamilyIPv4] else []) @ (if target6 \<noteq> [] then [FamilyIPv6] else [])"

definition determineDirections :: "Direction \<Rightarrow> Direction list" where
  "determineDirections dir =
     (if dir = DirectionUplink then [DirectionUplink]
      else if dir = DirectionDownlink then [DirectionDownlink]
      else if dir = DirectionBoth then [DirectionUplink, DirectionDownlink]
      else [])"

text \<open>
  The loop \<^verbatim>\<open>for size := min; size <= max; size += step\<close>. The increment wraps, so the loop may run
  forever: \<open>None\<close> stands for not returning.
\<close>

partial_function (option) sizes_loop ::
  "goint \<Rightarrow> goint \<Rightarrow> goint \<Rightarrow> goint list \<Rightarrow> goint list option"
where
  "sizes_loop siz mx stp acc =
     (if siz \<le> mx then sizes_loop (wrap64 (siz + stp)) mx stp (acc @ [siz]) else Some acc)"

definition generateSizes :: "goint \<Rightarrow> goint \<Rightarrow> goint \<Rightarrow> goint list option" where
  "generateSizes mn mx stp = sizes_loop mn mx stp []"

definition expand_plans ::
  "Family list \<Rightarrow> goint list \<Rightarrow> Direction list \<Rightarrow> goint list \<Rightarrow> SweepPlan list"
where
  "expand_plans families ports directions sizes =
     concat (map (\<lambda>family. concat (map (\<lambda>port. concat (map (\<lambda>direction. map (\<lambda>siz.
       \<lparr>SPFamily = family, SPPort = port, SPDirection = direction, SPPayloadSize = siz\<rparr>)
       sizes) directions)) ports)) families)"

definition BuildSweepPlan :: "ClientConfig \<Rightarrow> (config_error + SweepPlan list) option" where
  "BuildSweepPlan c =
     (case Config_Validate c of
        Inl e \<Rightarrow> Some (Inl e)
      | Inr _ \<Rightarrow>
          let sortedPorts = sort (Ports c);
              families = determineFamilies (Target4 c) (Target6 c);
              directions = determineDirections (CDirection c)
          in case generateSizes (MinSize c) (MaxSize c) (Step c) of
               None \<Rightarrow> None
             | Some sizes \<Rightarrow> Some (Inr (expand_plans families sortedPorts directions sizes)))"

section \<open>The duration guard\<close>

text \<open>\<open>oor\<close> is the implementation's choice for a float-to-integer conversion out of range.\<close>

definition EstimateDuration :: "(f64 \<Rightarrow> int) \<Rightarrow> ClientConfig \<Rightarrow> SweepPlan list \<Rightarrow> goint" where
  "EstimateDuration oor c plans =
     (let perTestDuration = wrap64 (Interval c * Count c);
          overheadFactor = f64_const (11 / 10)
      in wrap64 (int64_of_f64 oor (f64_mul (f64_of_int perTestDuration) overheadFactor) *
                 int (length plans)))"

definition CheckDurationLimit :: "(f64 \<Rightarrow> int) \<Rightarrow> ClientConfig \<Rightarrow> SweepPlan list \<Rightarrow> config_error + unit" where
  "CheckDurationLimit oor c plans =
     (let estimated = EstimateDuration oor c plans in
      guard_err (MaxEstimatedDuration c < estimated) (DurationExceeded estimated (MaxEstimatedDuration c)))"

definition NewClientConfig ::
  "string \<Rightarrow> string \<Rightarrow> goint \<Rightarrow> Direction \<Rightarrow> string \<Rightarrow> goint \<Rightarrow> goint \<Rightarrow> goint \<Rightarrow> goint \<Rightarrow> goint \<Rightarrow> goint
     \<Rightarrow> config_error + ClientConfig"
where
  "NewClientConfig target4 target6 controlPort direction portsSpec minSize maxSize stp cnt interval
     maxEstimatedDuration =
     rbind (map_err InvalidPorts (ParsePorts portsSpec)) (\<lambda>ports.
       let cfg = \<lparr>Target4 = target4, Target6 = target6, ControlPort = controlPort,
                  CDirection = direction, Ports = ports, MinSize = minSize, MaxSize = maxSize,
                  Step = stp, Count = cnt, Interval = interval,
                  MaxEstimatedDuration = maxEstimatedDuration\<rparr>
       in rbind (Config_Validate cfg) (\<lambda>_. Inr cfg))"

section \<open>Sorting and deduplication\<close>

lemma map_err_Inr [simp]: "map_err f r = Inr x \<longleftrightarrow> r = Inr x"
  by (cases r) (auto simp: map_err_def)

lemma map_err_ok [simp]: "map_err f (Inr x) = Inr x"
  by (simp add: map_err_def)

definition valid_port :: "goint \<Rightarrow> bool" where
  "valid_port p \<longleftrightarrow> 1 \<le> p \<and> p \<le> 65535"

lemma validatePort_ok [simp]: "validatePort p = Inr u \<longleftrightarrow> valid_port p"
  by (auto simp: validatePort_def valid_port_def)

lemma validatePort_valid [simp]: "valid_port p \<Longrightarrow> validatePort p = Inr ()"
  by simp

lemma dedupe_loop_strict:
  "sorted ps \<Longrightarrow> (\<forall>q. prev = Some q \<longrightarrow> (\<forall>p\<in>set ps. q \<le> p)) \<Longrightarrow>
     sorted_wrt (<) (dedupe_loop prev ps) \<and> set (dedupe_loop prev ps) = set ps - set_option prev"
proof (induction prev ps rule: dedupe_loop.induct)
  case (2 prev p ps)
  then show ?case
    by (cases prev) force+
qed simp

lemma sortAndDedupe_spec: "sortAndDedupe ps = sorted_list_of_set (set ps)"
proof -
  have "sorted_wrt (<) (sortAndDedupe ps)" "set (sortAndDedupe ps) = set ps"
    using dedupe_loop_strict [of "sort ps" None] by (simp_all add: sortAndDedupe_def)
  then show ?thesis
    by (metis List.finite_set sorted_list_of_set.idem_if_sorted_distinct strict_sorted_iff)
qed

section \<open>Reading a port specification\<close>

lemma parseRange_valid: "parseRange s = Inr ps \<Longrightarrow> list_all valid_port ps"
  by (auto simp: parseRange_def Let_def rbind_rules list_all_iff valid_port_def split: if_splits)

lemma parse_parts_valid:
  "parse_parts parts acc = Inr ps \<Longrightarrow> list_all valid_port acc \<Longrightarrow> list_all valid_port ps"
proof (induction parts acc rule: parse_parts.induct)
  case (2 p parts acc)
  then show ?case
    by (auto simp: Let_def rbind_rules dest: parseRange_valid split: if_splits)
qed simp

datatype port_item = Single int | Range int int

fun show_item :: "port_item \<Rightarrow> string" where
  "show_item (Single p) = show_int p"
| "show_item (Range a b) = show_int a @ ''-'' @ show_int b"

fun item_ports :: "port_item \<Rightarrow> goint list" where
  "item_ports (Single p) = [p]"
| "item_ports (Range a b) = [a..b]"

fun wf_item :: "port_item \<Rightarrow> bool" where
  "wf_item (Single p) = valid_port p"
| "wf_item (Range a b) = (valid_port a \<and> valid_port b \<and> a \<le> b)"

lemma valid_port_int64: "valid_port p \<Longrightarrow> in_int64 p"
  by (simp add: valid_port_def in_int64_def)

lemma show_port:
  assumes "valid_port p"
  shows "all_digits (show_int p)" "show_int p \<noteq> []" "TrimSpace (show_int p) = show_int p"
  using assms show_nat_ends [of "nat p"]
  by (auto simp: valid_port_def show_int_nonneg intro: TrimSpace_digit_ends)

lemma port_no_char: "valid_port p \<Longrightarrow> digit_val c = None \<Longrightarrow> c \<notin> set (show_int p)"
  using show_port(1) all_digits_not_in by blast

lemma Atoi_port: "valid_port p \<Longrightarrow> Atoi (show_int p) = Inr p"
  by (simp add: valid_port_int64)

lemma parseRange_item:
  assumes "wf_item (Range a b)"
  shows "parseRange (show_item (Range a b)) = Inr [a..b]"
proof -
  have "split_on CHR ''-'' (show_item (Range a b)) = [show_int a, show_int b]"
    using assms port_no_char [of a "CHR ''-''"] port_no_char [of b "CHR ''-''"]
    by (simp add: split_on_append split_on_none)
  with assms show ?thesis
    by (simp add: parseRange_def show_port Atoi_port)
qed

lemma TrimSpace_item: "wf_item it \<Longrightarrow> TrimSpace (show_item it) = show_item it \<and> show_item it \<noteq> []"
proof (cases it)
  case (Range a b)
  assume "wf_item it"
  with Range show ?thesis
    using show_nat_ends(1) [of "nat a"] show_nat_ends(2) [of "nat b"]
    by (auto simp: valid_port_def show_int_nonneg intro!: TrimSpace_digit_ends)
qed (simp add: show_port)

lemma parse_parts_items:
  "list_all wf_item its \<Longrightarrow>
     parse_parts (map show_item its) acc = Inr (acc @ concat (map item_ports its))"
proof (induction its arbitrary: acc)
  case (Cons it its)
  then show ?case
  proof (cases it)
    case (Single p)
    with Cons show ?thesis
      by (simp add: Let_def show_port Atoi_port contains_char_def port_no_char)
  next
    case (Range a b)
    with Cons.prems have it: "wf_item (Range a b)" by simp
    show ?thesis
      using Cons TrimSpace_item [OF it] parseRange_item [OF it]
      by (simp add: Range Let_def contains_char_def)
  qed
qed simp

lemma split_join:
  "ws \<noteq> [] \<Longrightarrow> (\<And>w. w \<in> set ws \<Longrightarrow> c \<notin> set w) \<Longrightarrow> split_on c (join_with [c] ws) = ws"
proof (induction "[c]" ws rule: join_with.induct)
  case (3 w v ws)
  then show ?case
    using split_on_append [of c w] by simp
qed (simp_all add: split_on_none)

lemma ParsePorts_single: "valid_port p \<Longrightarrow> ParsePorts (show_int p) = Inr [p]"
  using parse_parts_items [of "[Single p]" "[]"]
  by (simp add: ParsePorts_def split_on_none port_no_char show_port sortAndDedupe_def)

lemma comma_not_in_item: "wf_item it \<Longrightarrow> CHR '','' \<notin> set (show_item it)"
  by (cases it) (auto simp: port_no_char)

section \<open>Payload sizes\<close>

text \<open>What the size loop is meant to produce: the arithmetic progression up to the maximum.\<close>

definition sizes_count :: "goint \<Rightarrow> goint \<Rightarrow> goint \<Rightarrow> nat" where
  "sizes_count mn mx stp = (if mn \<le> mx then nat ((mx - mn) div stp) + 1 else 0)"

definition sizes_spec :: "goint \<Rightarrow> goint \<Rightarrow> goint \<Rightarrow> goint list" where
  "sizes_spec mn mx stp = map (\<lambda>k. mn + int k * stp) [0..<sizes_count mn mx stp]"

lemma sizes_count_step: "0 < stp \<Longrightarrow> mn \<le> mx \<Longrightarrow> sizes_count mn mx stp = Suc (sizes_count (mn + stp) mx stp)"
proof (cases "mn + stp \<le> mx")
  case True
  assume "0 < stp" "mn \<le> mx"
  then have "(mx - mn) div stp = (mx - mn - stp) div stp + 1"
    using div_add_self2 [of stp "mx - mn - stp"] by simp
  moreover have "0 \<le> (mx - mn - stp) div stp"
    using True \<open>0 < stp\<close> by (simp add: pos_imp_zdiv_nonneg_iff)
  ultimately show ?thesis
    using True \<open>mn \<le> mx\<close> by (simp add: sizes_count_def algebra_simps nat_add_distrib)
next
  case False
  assume "0 < stp" "mn \<le> mx"
  then show ?thesis
    using False by (simp add: sizes_count_def)
qed

lemma sizes_spec_step: "0 < stp \<Longrightarrow> mn \<le> mx \<Longrightarrow> sizes_spec mn mx stp = mn # sizes_spec (mn + stp) mx stp"
proof -
  assume h: "0 < stp" "mn \<le> mx"
  have "[0..<Suc n] = 0 # map Suc [0..<n]" for n
    by (simp add: map_Suc_upt upt_conv_Cons del: upt_Suc)
  then show ?thesis
    by (simp add: sizes_spec_def sizes_count_step [OF h] comp_def algebra_simps del: upt_Suc)
qed

lemma sizes_spec_empty: "mx < mn \<Longrightarrow> sizes_spec mn mx stp = []"
  by (simp add: sizes_spec_def sizes_count_def)

lemma sizes_loop_spec:
  assumes "0 < stp" "mx + stp \<le> MaxInt" "MinInt \<le> mn"
  shows "sizes_loop mn mx stp acc = Some (acc @ sizes_spec mn mx stp)"
  using assms(3)
proof (induction "nat (mx + 1 - mn)" arbitrary: mn acc rule: less_induct)
  case less
  show ?case
  proof (cases "mn \<le> mx")
    case True
    have "in_int64 (mn + stp)"
      using True less.prems assms(1,2) by (simp add: in_int64_def MaxInt_def MinInt_def)
    moreover have "sizes_loop (mn + stp) mx stp (acc @ [mn]) =
        Some ((acc @ [mn]) @ sizes_spec (mn + stp) mx stp)"
      using True less.prems assms(1) by (intro less.hyps) simp_all
    ultimately show ?thesis
      using True assms(1) by (subst sizes_loop.simps) (simp add: sizes_spec_step)
  next
    case False
    then show ?thesis
      by (subst sizes_loop.simps) (simp add: sizes_spec_empty)
  qed
qed

lemma sizes_loop_diverges: "in_int64 siz \<Longrightarrow> sizes_loop siz MaxInt stp acc = None"
proof (rule ccontr)
  assume h: "in_int64 siz" and "sizes_loop siz MaxInt stp acc \<noteq> None"
  then obtain r where ret: "sizes_loop siz MaxInt stp acc = Some r" by auto
  have "\<not> (in_int64 siz \<and> MaxInt = MaxInt)"
  proof (rule sizes_loop.raw_induct [where P = "\<lambda>s mx _ _ _. \<not> (in_int64 s \<and> mx = MaxInt)", OF _ ret])
    fix f s mx st ac r'
    assume IH: "\<And>s mx st ac r. f s mx st ac = Some r \<Longrightarrow> \<not> (in_int64 s \<and> mx = MaxInt)"
      and eq: "(if s \<le> mx then f (wrap64 (s + st)) mx st (ac @ [s]) else Some ac) = Some r'"
    show "\<not> (in_int64 s \<and> mx = MaxInt)"
    proof
      assume s: "in_int64 s \<and> mx = MaxInt"
      then have "s \<le> mx"
        by (simp add: in_int64_def MaxInt_def)
      with eq IH [of "wrap64 (s + st)" mx] s show False by auto
    qed
  qed
  with h show False by simp
qed

lemma sizes_spec_strict: "0 < stp \<Longrightarrow> sorted_wrt (<) (sizes_spec mn mx stp)"
  by (auto simp: sizes_spec_def sorted_wrt_map sorted_wrt_upt intro: sorted_wrt_mono_rel [OF _ sorted_wrt_upt])

lemma le_div_iff_mult_le_int: "0 < b \<Longrightarrow> a \<le> c div b \<longleftrightarrow> a * b \<le> (c :: int)"
proof
  assume b: "0 < b"
  show "a * b \<le> c" if "a \<le> c div b"
  proof -
    have "a * b \<le> c div b * b"
      using that b by (simp add: mult_right_mono)
    also have "\<dots> \<le> c"
      using b pos_mod_sign [of b c] div_mult_mod_eq [of c b] by linarith
    finally show ?thesis .
  qed
  show "a \<le> c div b" if "a * b \<le> c"
    using zdiv_mono1 [OF that b] b by simp
qed

lemma in_sizes_spec:
  assumes "0 < stp"
  shows "s \<in> set (sizes_spec mn mx stp) \<longleftrightarrow> s \<le> mx \<and> (\<exists>k::nat. s = mn + int k * stp)"
proof -
  have "k < sizes_count mn mx stp \<longleftrightarrow> mn + int k * stp \<le> mx" for k
  proof (cases "mn \<le> mx")
    case True
    have "0 \<le> (mx - mn) div stp"
      using True assms by (simp add: pos_imp_zdiv_nonneg_iff)
    then have "k < sizes_count mn mx stp \<longleftrightarrow> int k \<le> (mx - mn) div stp"
      using True by (simp add: sizes_count_def) linarith
    also have "\<dots> \<longleftrightarrow> int k * stp \<le> mx - mn"
      using assms by (rule le_div_iff_mult_le_int)
    finally show ?thesis by (simp add: algebra_simps)
  next
    case False
    then have "\<not> mn + int k * stp \<le> mx"
      using assms by (simp add: not_le add_strict_increasing2 less_le_trans)
    with False show ?thesis by (simp add: sizes_count_def)
  qed
  moreover have "s \<in> set (sizes_spec mn mx stp) \<longleftrightarrow>
      (\<exists>k. k < sizes_count mn mx stp \<and> s = mn + int k * stp)"
    by (auto simp: sizes_spec_def)
  ultimately show ?thesis by blast
qed

section \<open>The order of the plan\<close>

definition plan_key :: "SweepPlan \<Rightarrow> Family \<times> goint \<times> Direction \<times> goint" where
  "plan_key p = (SPFamily p, SPPort p, SPDirection p, SPPayloadSize p)"

abbreviation plan_before :: "SweepPlan \<Rightarrow> SweepPlan \<Rightarrow> bool" where
  "plan_before p q \<equiv> plan_key p < plan_key q"

lemma expand_plans_strict:
  assumes "sorted_wrt (<) fs" "sorted_wrt (<) ps" "sorted_wrt (<) ds" "sorted_wrt (<) ss"
  shows "sorted_wrt plan_before (expand_plans fs ps ds ss)"
  unfolding expand_plans_def
proof (intro sorted_wrt_concat_map [OF assms(1)] sorted_wrt_concat_map [OF assms(2)]
    sorted_wrt_concat_map [OF assms(3)])
  show "sorted_wrt plan_before (map (\<lambda>s. \<lparr>SPFamily = f, SPPort = p, SPDirection = d, SPPayloadSize = s\<rparr>) ss)"
    for f p d
    using assms(4) by (simp add: sorted_wrt_map plan_key_def)
qed (auto simp: plan_key_def)

lemma in_expand_plans:
  "p \<in> set (expand_plans fs ps ds ss) \<longleftrightarrow>
     SPFamily p \<in> set fs \<and> SPPort p \<in> set ps \<and> SPDirection p \<in> set ds \<and> SPPayloadSize p \<in> set ss"
  by (cases p) (auto simp: expand_plans_def)

lemma length_expand_plans:
  "length (expand_plans fs ps ds ss) = length fs * length ps * length ds * length ss"
proof -
  have "length (expand_plans fs ps ds ss) = length fs * (length ps * (length ds * length ss))"
    unfolding expand_plans_def by (intro length_concat_map_const length_map)
  then show ?thesis by simp
qed

lemma determineFamilies_strict: "sorted_wrt (<) (determineFamilies t4 t6)"
  by (simp add: determineFamilies_def)

lemma determineDirections_strict: "sorted_wrt (<) (determineDirections d)"
  by (simp add: determineDirections_def)

section \<open>Validation\<close>

lemma Config_Validate_ok:
  "Config_Validate c = Inr () \<longleftrightarrow>
     (Target4 c \<noteq> [] \<or> Target6 c \<noteq> []) \<and>
     (Target4 c \<noteq> [] \<longrightarrow> validateTargetAddress (Target4 c) ''ipv4'' = Inr ()) \<and>
     (Target6 c \<noteq> [] \<longrightarrow> validateTargetAddress (Target6 c) ''ipv6'' = Inr ()) \<and>
     1 \<le> ControlPort c \<and> ControlPort c \<le> 65535 \<and> Ports c \<noteq> [] \<and> MinSize c \<le> MaxSize c \<and>
     0 < Step c \<and> 0 < Count c \<and> 0 < Interval c \<and> 0 < MaxEstimatedDuration c"
  by (auto simp: Config_Validate_def rbind_rules)

lemma BuildSweepPlan_ok:
  assumes "Config_Validate c = Inr ()" "in_int64 (MinSize c)" "MaxSize c + Step c \<le> MaxInt"
  shows "BuildSweepPlan c = Some (Inr (expand_plans (determineFamilies (Target4 c) (Target6 c))
      (sort (Ports c)) (determineDirections (CDirection c)) (sizes_spec (MinSize c) (MaxSize c) (Step c))))"
proof -
  have "generateSizes (MinSize c) (MaxSize c) (Step c) = Some (sizes_spec (MinSize c) (MaxSize c) (Step c))"
    unfolding generateSizes_def
    using assms by (subst sizes_loop_spec) (simp_all add: Config_Validate_ok in_int64_def MinInt_def)
  with assms(1) show ?thesis
    by (simp add: BuildSweepPlan_def)
qed

lemma ParsePorts_sound:
  assumes "ParsePorts spec = Inr ps"
  shows "ps \<noteq> []" "sorted_wrt (<) ps" "list_all valid_port ps"
proof -
  obtain ports where p: "parse_parts (split_on CHR '','' spec) [] = Inr ports" "ports \<noteq> []"
      "ps = sorted_list_of_set (set ports)"
    using assms by (auto simp: ParsePorts_def rbind_rules sortAndDedupe_spec split: if_splits)
  then have "list_all valid_port ports"
    by (auto dest: parse_parts_valid)
  with p show "ps \<noteq> []" "sorted_wrt (<) ps" "list_all valid_port ps"
    by (simp_all add: strict_sorted_list_of_set list_all_iff)
qed

lemma NewClientConfig_ok:
  assumes "NewClientConfig t4 t6 cp dir spec mn mx stp cnt iv md = Inr c"
  shows "ParsePorts spec = Inr (Ports c)" "Config_Validate c = Inr ()"
    "c = \<lparr>Target4 = t4, Target6 = t6, ControlPort = cp, CDirection = dir, Ports = Ports c, MinSize = mn,
         MaxSize = mx, Step = stp, Count = cnt, Interval = iv, MaxEstimatedDuration = md\<rparr>"
  using assms by (auto simp: NewClientConfig_def Let_def rbind_rules)

lemma address_family_unique:
  "validateTargetAddress a ''ipv4'' = Inr () \<Longrightarrow> validateTargetAddress a ''ipv6'' = Inl (NotIPv6Address a)"
  by (auto simp: validateTargetAddress_def split: option.splits if_splits)

section \<open>The duration estimate\<close>

text \<open>The factor 1.1 as a \<^verbatim>\<open>float64\<close>, and its distance from eleven tenths.\<close>

lemma overhead_factor: "f64_const (11 / 10) = F64 False (4953959590107546 / 4503599627370496)"
proof -
  have e: "expo (11 / 10) = 0"
    by (rule expo_unique) simp_all
  have u: "pow2 (expo (11 / 10) - 52) = 1 / 4503599627370496"
    by (simp add: e power_int_minus)
  have "rne (11 / 10 / (1 / 4503599627370496)) = 4953959590107546"
    by (rule rne_unique) simp
  then have "round53 (11 / 10) = 4953959590107546 * (1 / 4503599627370496)"
    by (subst round53_unit) (simp_all only: u of_int_numeral zero_less_divide_iff zero_less_numeral simp_thms)
  then show ?thesis
    by (simp add: f64_const_def)
qed

text \<open>What one test case is charged: at least its nominal time, at most 1.11 times it.\<close>

lemma charge_bounds:
  fixes oor :: "f64 \<Rightarrow> int"
  assumes "0 \<le> per" "per \<le> 9007199254740992"
  defines "t \<equiv> int64_of_f64 oor (f64_mul (f64_of_int per) (f64_const (11 / 10)))"
  shows "per \<le> t" "100 * t \<le> 111 * per"
proof -
  let ?c = "4953959590107546 / 4503599627370496 :: rat"
  let ?p = "of_int per :: rat"
  have p: "0 \<le> ?p" using assms by simp
  have c: "1 \<le> ?c" "?c * (9007199254740993 / 9007199254740992) \<le> 111 / 100"
    by simp_all
  have m: "f64_mul (f64_of_int per) (f64_const (11 / 10)) = F64 False (round53 (?p * ?c))"
    using assms by (simp add: f64_mul_def f64_of_int_small overhead_factor)
  have "?p = round53 ?p"
    using assms by (simp add: round53_of_int)
  also have "\<dots> \<le> round53 (?p * ?c)"
    using p c(1) by (intro round53_mono mult_le_cancel_left1 [THEN iffD2]) auto
  finally have lo: "?p \<le> round53 (?p * ?c)" .
  have "round53 (?p * ?c) \<le> ?p * ?c * (9007199254740993 / 9007199254740992)"
    using p by (intro round53_upper) simp
  also have "\<dots> \<le> ?p * (111 / 100)"
    using mult_left_mono [OF c(2) p] by (simp add: mult.assoc)
  finally have hi: "round53 (?p * ?c) \<le> ?p * (111 / 100)" .
  define f where "f = \<lfloor>round53 (?p * ?c)\<rfloor>"
  have f: "per \<le> f"
    using lo by (simp add: f_def le_floor_iff)
  have "of_int f \<le> round53 (?p * ?c)"
    unfolding f_def by (rule of_int_floor_le)
  then have "of_int f \<le> ?p * (111 / 100)"
    using hi by (rule order.trans)
  then have "of_int (100 * f) \<le> (of_int (111 * per) :: rat)"
    by simp
  then have f2: "100 * f \<le> 111 * per"
    by (simp only: of_int_le_iff)
  then have "in_int64 f"
    using f assms(1,2) by (simp add: in_int64_def)
  then have "t = f"
    by (simp add: t_def m int64_of_f64_def f_def Let_def)
  with f f2 show "per \<le> t" "100 * t \<le> 111 * per" by simp_all
qed

lemma EstimateDuration_bounds:
  assumes "0 \<le> Interval c * Count c" "Interval c * Count c \<le> 9007199254740992"
    and "111 * (Interval c * Count c) * int (length plans) < 100 * 2 ^ 63"
  shows "Interval c * Count c * int (length plans) \<le> EstimateDuration oor c plans"
    "100 * EstimateDuration oor c plans \<le> 111 * (Interval c * Count c) * int (length plans)"
proof -
  let ?per = "Interval c * Count c" and ?n = "int (length plans)"
  define t where "t = int64_of_f64 oor (f64_mul (f64_of_int ?per) (f64_const (11 / 10)))"
  have t: "?per \<le> t" "100 * t \<le> 111 * ?per"
    using charge_bounds [OF assms(1,2)] by (simp_all add: t_def)
  have m: "?per * ?n \<le> t * ?n" "100 * t * ?n \<le> 111 * ?per * ?n"
    using t by (simp_all only: mult_right_mono of_nat_0_le_iff)
  have "0 \<le> t * ?n"
    using t assms(1) by simp
  then have "in_int64 (t * ?n)"
    using m assms(3) by (simp add: in_int64_def)
  moreover have "wrap64 ?per = ?per"
    using assms(1,2) by (intro wrap64_id) (simp add: in_int64_def)
  ultimately have "EstimateDuration oor c plans = t * ?n"
    by (simp add: EstimateDuration_def t_def)
  with m show "?per * ?n \<le> EstimateDuration oor c plans"
    "100 * EstimateDuration oor c plans \<le> 111 * ?per * ?n" by simp_all
qed

section \<open>A sample configuration\<close>

text \<open>The defaults of the command line with one IPv4 target and one port.\<close>

definition sample_config :: ClientConfig where
  "sample_config = \<lparr>Target4 = dotted 127 0 0 1, Target6 = [], ControlPort = 18080,
     CDirection = DirectionBoth, Ports = [40000], MinSize = 1200, MaxSize = 1472, Step = 136,
     Count = 100, Interval = 10000000, MaxEstimatedDuration = 300000000000\<rparr>"

lemma dotted_nonempty [simp]: "dotted a b c d \<noteq> []"
  by (simp add: dotted_def)

lemma validate_dotted:
  assumes "a < 256" "b < 256" "c < 256" "d < 256"
  shows "validateTargetAddress (dotted a b c d) ''ipv4'' = Inr ()"
  using ParseIP_dotted [OF assms]
  by (simp add: validateTargetAddress_def To4_def v4InV6Prefix_def)

lemma sample_config_valid: "Config_Validate sample_config = Inr ()"
  by (simp add: Config_Validate_ok sample_config_def validate_dotted)

lemma NewClientConfig_sample:
  "NewClientConfig (dotted 127 0 0 1) [] 18080 DirectionBoth (show_int 40000) 1200 1472 136 100
     10000000 300000000000 = Inr sample_config"
  using sample_config_valid
  by (simp add: NewClientConfig_def ParsePorts_single valid_port_def sample_config_def)

section \<open>Properties\<close>

text \<open>
  Whatever specification is given, the ports \<^verbatim>\<open>ParsePorts\<close> accepts are at least one, strictly
  ascending (so without duplicates) and all between 1 and 65535.
\<close>

lemma parse_ports_sound:
  assumes "ParsePorts spec = Inr ps"
  shows "ps \<noteq> [] \<and> sorted_wrt (<) ps \<and> (\<forall>p \<in> set ps. 1 \<le> p \<and> p \<le> 65535)"
  using ParsePorts_sound [OF assms] by (auto simp: list_all_iff valid_port_def)

text \<open>
  C20: every specification written as a comma-separated list of ports and ranges is accepted, and the
  result is exactly the ascending list of the ports the items denote.
\<close>

theorem parse_ports_complete:
  assumes "its \<noteq> []" "list_all wf_item its"
  shows "ParsePorts (join_with '','' (map show_item its)) =
      Inr (sorted_list_of_set (set (concat (map item_ports its))))"
proof -
  have "split_on CHR '','' (join_with '','' (map show_item its)) = map show_item its"
    using assms comma_not_in_item by (intro split_join) (auto simp: list_all_iff)
  moreover have "join_with '','' (map show_item its) \<noteq> []"
    using assms TrimSpace_item by (cases its rule: remdups_adj.cases) (auto simp: list_all_iff)
  moreover have "concat (map item_ports its) \<noteq> []"
    using assms by (cases its; cases "hd its") auto
  ultimately show ?thesis
    using parse_parts_items [OF assms(2), of "[]"] by (simp add: ParsePorts_def sortAndDedupe_spec)
qed

theorem parse_ports_complete_witness:
  "ParsePorts (join_with '','' (map show_item [Range 40000 40002, Single 80])) =
     Inr (sorted_list_of_set (set (concat (map item_ports [Range 40000 40002, Single 80]))))"
  by (rule parse_ports_complete) (simp_all add: valid_port_def)

text \<open>
  C14: a configuration built by \<^verbatim>\<open>NewClientConfig\<close> whose largest size plus one step is still an \<^verbatim>\<open>int\<close> has a
  sweep plan, and the plan is complete and deterministic: strictly ascending by family, port,
  direction and size (so nothing is tested twice), with exactly the combinations of the given
  targets, ports, requested directions and sizes of the progression, as many as the product.
\<close>

theorem sweep_plan_correct:
  assumes "NewClientConfig t4 t6 cp dir spec mn mx stp cnt iv md = Inr c"
    and "in_int64 mn" "mx + stp \<le> MaxInt"
  shows "\<exists>plans. BuildSweepPlan c = Some (Inr plans) \<and>
     sorted_wrt plan_before plans \<and>
     (\<forall>p. p \<in> set plans \<longleftrightarrow>
        (SPFamily p = FamilyIPv4 \<and> t4 \<noteq> [] \<or> SPFamily p = FamilyIPv6 \<and> t6 \<noteq> []) \<and>
        SPPort p \<in> set (Ports c) \<and>
        (SPDirection p = DirectionUplink \<or> SPDirection p = DirectionDownlink) \<and>
        (dir = SPDirection p \<or> dir = DirectionBoth) \<and>
        SPPayloadSize p \<le> mx \<and> (\<exists>k::nat. SPPayloadSize p = mn + int k * stp)) \<and>
     length plans = length (determineFamilies t4 t6) * length (Ports c) *
       length (determineDirections dir) * (nat ((mx - mn) div stp) + 1)"
proof -
  note ok = NewClientConfig_ok [OF assms(1)]
  have f: "Target4 c = t4" "Target6 c = t6" "CDirection c = dir" "MinSize c = mn" "MaxSize c = mx" "Step c = stp"
    by (subst ok(3), simp)+
  have v: "0 < stp" "mn \<le> mx"
    using ok(2) by (simp_all add: Config_Validate_ok f)
  have sp: "sort (Ports c) = Ports c" "sorted_wrt (<) (Ports c)"
    using ParsePorts_sound(2) [OF ok(1)] strict_sorted_iff sorted_sort_id by blast+
  define plans where "plans = expand_plans (determineFamilies t4 t6) (Ports c)
      (determineDirections dir) (sizes_spec mn mx stp)"
  have b: "BuildSweepPlan c = Some (Inr plans)"
    using BuildSweepPlan_ok [OF ok(2)] assms(2,3) by (simp add: f sp plans_def)
  have "sorted_wrt plan_before plans"
    unfolding plans_def
    by (intro expand_plans_strict determineFamilies_strict determineDirections_strict sp
        sizes_spec_strict v)
  moreover have "p \<in> set plans \<longleftrightarrow>
        (SPFamily p = FamilyIPv4 \<and> t4 \<noteq> [] \<or> SPFamily p = FamilyIPv6 \<and> t6 \<noteq> []) \<and>
        SPPort p \<in> set (Ports c) \<and>
        (SPDirection p = DirectionUplink \<or> SPDirection p = DirectionDownlink) \<and>
        (dir = SPDirection p \<or> dir = DirectionBoth) \<and>
        SPPayloadSize p \<le> mx \<and> (\<exists>k::nat. SPPayloadSize p = mn + int k * stp)" for p
    unfolding plans_def in_expand_plans in_sizes_spec [OF v(1)]
    by (auto simp: determineFamilies_def determineDirections_def)
  moreover have "length plans = length (determineFamilies t4 t6) * length (Ports c) *
       length (determineDirections dir) * (nat ((mx - mn) div stp) + 1)"
    using v(2) by (simp add: plans_def length_expand_plans sizes_spec_def sizes_count_def)
  ultimately show ?thesis
    using b by blast
qed

theorem sweep_plan_correct_witness:
  "\<exists>plans. BuildSweepPlan sample_config = Some (Inr plans) \<and> sorted_wrt plan_before plans \<and> length plans = 6"
proof -
  obtain plans where "BuildSweepPlan sample_config = Some (Inr plans)" "sorted_wrt plan_before plans"
    "length plans = length (determineFamilies (dotted 127 0 0 1) []) * length (Ports sample_config) *
       length (determineDirections DirectionBoth) * (nat ((1472 - 1200) div 136) + 1)"
    using sweep_plan_correct [OF NewClientConfig_sample] by (auto simp: in_int64_def MaxInt_def)
  then show ?thesis
    by (auto simp: determineFamilies_def determineDirections_def sample_config_def)
qed

text \<open>
  C33: \<^verbatim>\<open>NewClientConfig\<close> succeeds exactly when the port specification parses and every documented
  constraint holds: a target, each given target of its family, a control port in range, a size
  interval that is not empty, and a positive step, count, interval and duration limit.
\<close>

theorem new_client_config_iff:
  "NewClientConfig t4 t6 cp dir spec mn mx stp cnt iv md = Inr c \<longleftrightarrow>
     ParsePorts spec = Inr (Ports c) \<and>
     c = \<lparr>Target4 = t4, Target6 = t6, ControlPort = cp, CDirection = dir, Ports = Ports c, MinSize = mn,
         MaxSize = mx, Step = stp, Count = cnt, Interval = iv, MaxEstimatedDuration = md\<rparr> \<and>
     (t4 = [] \<or> (\<exists>ip v4. ParseIP t4 = Some ip \<and> To4 ip = Some v4)) \<and>
     (t6 = [] \<or> (\<exists>ip. ParseIP t6 = Some ip \<and> To4 ip = None)) \<and>
     \<not> (t4 = [] \<and> t6 = []) \<and>
     cp \<in> {1..65535} \<and> mn \<le> mx \<and> 0 < stp \<and> 0 < cnt \<and> 0 < iv \<and> 0 < md"
proof -
  have a: "validateTargetAddress t ''ipv4'' = Inr () \<longleftrightarrow> (\<exists>ip v4. ParseIP t = Some ip \<and> To4 ip = Some v4)"
    "validateTargetAddress t ''ipv6'' = Inr () \<longleftrightarrow> (\<exists>ip. ParseIP t = Some ip \<and> To4 ip = None)" for t
    by (auto simp: validateTargetAddress_def split: option.splits)
  show ?thesis
    using ParsePorts_sound(1) [of spec "Ports c"]
    by (cases c) (auto simp: NewClientConfig_def Let_def rbind_rules Config_Validate_ok a)
qed

text \<open>
  An address is accepted for at most one family: what does not parse is invalid for both, and what
  parses is accepted for exactly one of IPv4 and IPv6; every dotted quad is an IPv4 target.
\<close>

lemma target_family_exclusive:
  "(ParseIP a = None \<longleftrightarrow> (\<exists>f. validateTargetAddress a f = Inl (InvalidAddress f a))) \<and>
   (ParseIP a \<noteq> None \<longleftrightarrow>
      (validateTargetAddress a ''ipv4'' = Inr ()) \<noteq> (validateTargetAddress a ''ipv6'' = Inr ())) \<and>
   (max (max w x) (max y z) < 256 \<longrightarrow> validateTargetAddress (dotted w x y z) ''ipv4'' = Inr ())"
  using validate_dotted [of w x y z]
  by (auto simp: validateTargetAddress_def split: option.splits if_splits)

text \<open>
  C35: the size loop ends whenever the maximum plus one step is still an \<^verbatim>\<open>int\<close>, and then yields the
  strictly ascending progression from the minimum, each size at most the maximum.
\<close>

theorem generate_sizes_correct:
  assumes "0 < stp" "in_int64 mn" "mx + stp \<le> MaxInt"
  shows "\<exists>sizes. generateSizes mn mx stp = Some sizes \<and> sorted_wrt (<) sizes \<and>
     (\<forall>s. s \<in> set sizes \<longleftrightarrow> s \<le> mx \<and> (\<exists>k::nat. s = mn + int k * stp))"
proof -
  have "generateSizes mn mx stp = Some (sizes_spec mn mx stp)"
    using sizes_loop_spec [OF assms(1,3), of mn "[]"] assms(2)
    by (simp add: generateSizes_def in_int64_def MinInt_def)
  then show ?thesis
    using sizes_spec_strict [OF assms(1)] in_sizes_spec [OF assms(1)] by blast
qed

theorem generate_sizes_correct_witness:
  "\<exists>sizes. generateSizes 1200 1472 136 = Some sizes \<and> sorted_wrt (<) sizes"
  using generate_sizes_correct [of 136 1200 1472] by (auto simp: in_int64_def MaxInt_def)

text \<open>
  C39: with the largest \<^verbatim>\<open>int\<close> as the maximum size the loop never ends, for any start and any step: a
  configuration that passes \<^verbatim>\<open>Validate\<close> can make \<^verbatim>\<open>BuildSweepPlan\<close> run forever.
\<close>

theorem build_sweep_plan_hangs:
  "Config_Validate (sample_config\<lparr>MaxSize := MaxInt\<rparr>) = Inr () \<and>
   BuildSweepPlan (sample_config\<lparr>MaxSize := MaxInt\<rparr>) = None"
proof
  show v: "Config_Validate (sample_config\<lparr>MaxSize := MaxInt\<rparr>) = Inr ()"
    using sample_config_valid by (simp add: Config_Validate_ok sample_config_def MaxInt_def)
  show "BuildSweepPlan (sample_config\<lparr>MaxSize := MaxInt\<rparr>) = None"
    using v by (simp add: BuildSweepPlan_def generateSizes_def sizes_loop_diverges sample_config_def in_int64_def)
qed

text \<open>
  C34: while the nominal time of one case stays below \<open>2\<^sup>5\<^sup>3\<close> ns and the estimate below \<open>2\<^sup>6\<^sup>3\<close> ns, the duration
  guard is sound and not over-strict: a sweep it accepts sends for at most the allowed time, and
  a sweep whose time is at most the limit divided by 1.11 is accepted.
\<close>

theorem duration_guard_sound:
  assumes "0 < Interval c" "0 < Count c" "Interval c * Count c \<le> 2 ^ 53"
    and "111 * (Interval c * Count c) * int (length plans) < 100 * 2 ^ 63"
  shows "(CheckDurationLimit oor c plans = Inr () \<longrightarrow>
            Interval c * Count c * int (length plans) \<le> MaxEstimatedDuration c) \<and>
         (111 * (Interval c * Count c) * int (length plans) \<le> 100 * MaxEstimatedDuration c \<longrightarrow>
            CheckDurationLimit oor c plans = Inr ())"
  using EstimateDuration_bounds [of c plans oor] assms
  by (auto simp: CheckDurationLimit_def Let_def)

theorem duration_guard_sound_witness:
  "\<forall>p. CheckDurationLimit (\<lambda>_. 0) sample_config (replicate 6 p) = Inr ()"
  using duration_guard_sound [of sample_config "replicate 6 _" "\<lambda>_. 0"] by (simp add: sample_config_def)

text \<open>
  C40: beyond that the multiplication wraps and the guard can be passed: with an interval and a count
  of \<open>2\<^sup>3\<^sup>2\<close> a valid configuration of any number of cases is estimated at zero and accepted.
\<close>

theorem duration_guard_overflow:
  "Config_Validate (sample_config\<lparr>Interval := 2 ^ 32, Count := 2 ^ 32\<rparr>) = Inr () \<and>
   CheckDurationLimit oor (sample_config\<lparr>Interval := 2 ^ 32, Count := 2 ^ 32\<rparr>) plans = Inr () \<and>
   MaxEstimatedDuration sample_config < 2 ^ 32 * 2 ^ 32"
proof (intro conjI)
  show "Config_Validate (sample_config\<lparr>Interval := 2 ^ 32, Count := 2 ^ 32\<rparr>) = Inr ()"
    using sample_config_valid by (simp add: Config_Validate_ok sample_config_def)
  have "wrap64 (2 ^ 32 * 2 ^ 32) = 0"
    by (simp add: wrap64_def)
  then show "CheckDurationLimit oor (sample_config\<lparr>Interval := 2 ^ 32, Count := 2 ^ 32\<rparr>) plans = Inr ()"
    by (simp add: CheckDurationLimit_def EstimateDuration_def Let_def f64_of_int_def f64_mul_def
        int64_of_f64_def sample_config_def)
qed (simp add: sample_config_def)

end
