(* ===== verification/Report.thy ===== *)
theory Report
  imports Protocol GoFloat "HOL-Library.Product_Lexorder"
begin

text \<open>
  \<^verbatim>\<open>internal/report\<close>: grouping of the test results, the critical size of a group, the totals and the
  console report.

  The order in which Go iterates a map and the order in which \<^verbatim>\<open>sort.Slice\<close>, which is not stable,
  leaves equal elements are arguments of the definitions; the locale \<open>slice_sort\<close> is the
  documented contract of the latter. Test results are held through pointers that are never nil
  and never written to, so a pointer is its value.
\<close>

section \<open>Data\<close>

record TestResult =
  tr_TargetAddress :: string
  tr_Family :: Family
  tr_Direction :: Direction
  tr_UDPPort :: goint
  tr_PayloadSize :: goint
  tr_Sent :: goint
  tr_Received :: goint
  tr_Lost :: goint

record GroupKey =
  gk_Family :: Family
  gk_Port :: goint
  gk_Direction :: Direction

record Group =
  g_Key :: GroupKey
  g_Results :: "TestResult list"

record SizeKey =
  sk_Family :: Family
  sk_Port :: goint
  sk_Direction :: Direction
  sk_PayloadSize :: goint

record CriticalSizeResult =
  cs_Key :: GroupKey
  cs_CriticalSize :: "goint option"
  cs_Threshold :: f64

record Report =
  rp_Groups :: "Group list"
  rp_CriticalSizes :: "CriticalSizeResult list"
  rp_TotalTests :: goint
  rp_TotalSent :: goint
  rp_TotalReceived :: goint
  rp_EstimatedDuration :: string

definition ThresholdPercent :: f64 where
  "ThresholdPercent = f64_const 5"

definition LossPercent :: "TestResult \<Rightarrow> f64" where
  "LossPercent r =
     (if tr_Sent r = 0 then F64 False 0
      else f64_mul (f64_div (f64_of_int (tr_Lost r)) (f64_of_int (tr_Sent r))) (f64_const 100))"

section \<open>Grouping\<close>

definition result_key :: "TestResult \<Rightarrow> GroupKey" where
  "result_key r = \<lparr>gk_Family = tr_Family r, gk_Port = tr_UDPPort r, gk_Direction = tr_Direction r\<rparr>"

text \<open>\<^verbatim>\<open>groupsMap[key] = append(groupsMap[key], r)\<close> on the map as an association list.\<close>

fun append_at :: "'k \<Rightarrow> 'v \<Rightarrow> ('k \<times> 'v list) list \<Rightarrow> ('k \<times> 'v list) list" where
  "append_at k v [] = [(k, [v])]"
| "append_at k v ((k', vs) # m) = (if k' = k then (k', vs @ [v]) # m else (k', vs) # append_at k v m)"

fun group_loop ::
  "TestResult list \<Rightarrow> (GroupKey \<times> TestResult list) list \<Rightarrow> (GroupKey \<times> TestResult list) list"
where
  "group_loop [] m = m"
| "group_loop (r # rs) m = group_loop rs (append_at (result_key r) r m)"

definition size_less :: "TestResult \<Rightarrow> TestResult \<Rightarrow> bool" where
  "size_less a b \<longleftrightarrow> tr_PayloadSize a < tr_PayloadSize b"

definition group_less :: "Group \<Rightarrow> Group \<Rightarrow> bool" where
  "group_less a b =
     (if gk_Family (g_Key a) \<noteq> gk_Family (g_Key b) then gk_Family (g_Key a) < gk_Family (g_Key b)
      else if gk_Port (g_Key a) \<noteq> gk_Port (g_Key b) then gk_Port (g_Key a) < gk_Port (g_Key b)
      else gk_Direction (g_Key a) < gk_Direction (g_Key b))"

text \<open>
  \<open>order\<close> is the iteration order of the map, \<open>sort_results\<close> and \<open>sort_groups\<close> are \<^verbatim>\<open>sort.Slice\<close> at the
  two call sites.
\<close>

definition AggregateResults ::
  "((GroupKey \<times> TestResult list) list \<Rightarrow> (GroupKey \<times> TestResult list) list) \<Rightarrow>
   ((TestResult \<Rightarrow> TestResult \<Rightarrow> bool) \<Rightarrow> TestResult list \<Rightarrow> TestResult list) \<Rightarrow>
   ((Group \<Rightarrow> Group \<Rightarrow> bool) \<Rightarrow> Group list \<Rightarrow> Group list) \<Rightarrow> TestResult list \<Rightarrow> Group list"
where
  "AggregateResults order sort_results sort_groups results =
     (let groupsMap = group_loop results [];
          groups = map (\<lambda>(key, grp). \<lparr>g_Key = key, g_Results = sort_results size_less grp\<rparr>) (order groupsMap)
      in sort_groups group_less groups)"

section \<open>Critical sizes and totals\<close>

fun FindCriticalSize :: "TestResult list \<Rightarrow> f64 \<Rightarrow> goint option" where
  "FindCriticalSize [] threshold = None"
| "FindCriticalSize (r # rs) threshold =
     (if f64_ge (LossPercent r) threshold then Some (tr_PayloadSize r) else FindCriticalSize rs threshold)"

definition ComputeCriticalSizes :: "Group list \<Rightarrow> f64 \<Rightarrow> CriticalSizeResult list" where
  "ComputeCriticalSizes groups threshold =
     map (\<lambda>g. \<lparr>cs_Key = g_Key g, cs_CriticalSize = FindCriticalSize (g_Results g) threshold,
               cs_Threshold = threshold\<rparr>) groups"

fun total_loop :: "(TestResult \<Rightarrow> goint) \<Rightarrow> TestResult list \<Rightarrow> goint \<Rightarrow> goint" where
  "total_loop field [] acc = acc"
| "total_loop field (r # rs) acc = total_loop field rs (wrap64 (acc + field r))"

definition BuildReport ::
  "((GroupKey \<times> TestResult list) list \<Rightarrow> (GroupKey \<times> TestResult list) list) \<Rightarrow>
   ((TestResult \<Rightarrow> TestResult \<Rightarrow> bool) \<Rightarrow> TestResult list \<Rightarrow> TestResult list) \<Rightarrow>
   ((Group \<Rightarrow> Group \<Rightarrow> bool) \<Rightarrow> Group list \<Rightarrow> Group list) \<Rightarrow> TestResult list \<Rightarrow> string \<Rightarrow> Report"
where
  "BuildReport order sort_results sort_groups results estimatedDuration =
     (let groups = AggregateResults order sort_results sort_groups results
      in \<lparr>rp_Groups = groups,
          rp_CriticalSizes = ComputeCriticalSizes groups ThresholdPercent,
          rp_TotalTests = int (length results),
          rp_TotalSent = total_loop tr_Sent results 0,
          rp_TotalReceived = total_loop tr_Received results 0,
          rp_EstimatedDuration = estimatedDuration\<rparr>)"

section \<open>The console report\<close>

fun joinLines_loop :: "nat \<Rightarrow> string list \<Rightarrow> string \<Rightarrow> string" where
  "joinLines_loop i [] result = result"
| "joinLines_loop i (line # lines) result =
     joinLines_loop (Suc i) lines ((if 0 < i then result @ [CHR 0x0A] else result) @ line)"

definition joinLines :: "string list \<Rightarrow> string" where
  "joinLines lines = joinLines_loop 0 lines []"

definition group_header :: "Group \<Rightarrow> string" where
  "group_header g =
     (let familyStr = (if gk_Family (g_Key g) = FamilyIPv6 then ''ipv6'' else ''ipv4'');
          dirStr = (if gk_Direction (g_Key g) = DirectionDownlink then ''downlink'' else ''uplink'');
          targetAddr = (case g_Results g of [] \<Rightarrow> [] | r # _ \<Rightarrow> tr_TargetAddress r)
      in ''target: '' @ targetAddr @ ''  family: '' @ familyStr @ ''  direction: '' @ dirStr @
         ''  port: '' @ show_int (gk_Port (g_Key g)))"

definition result_line :: "TestResult \<Rightarrow> string" where
  "result_line res =
     ''  size='' @ show_int (tr_PayloadSize res) @ ''  sent='' @ show_int (tr_Sent res) @
     ''  received='' @ show_int (tr_Received res) @ ''  lost='' @ show_int (tr_Lost res) @
     ''  loss='' @ fmt_1f (LossPercent res) @ ''%''"

definition critical_line :: "CriticalSizeResult \<Rightarrow> string" where
  "critical_line cs =
     (case cs_CriticalSize cs of
        Some sz \<Rightarrow>
          ''  critical_size='' @ show_int sz @ '' (observed threshold: '' @ fmt_1f (cs_Threshold cs) @
          ''% loss first reached at this size)''
      | None \<Rightarrow>
          ''  critical_size=none (no size reached '' @ fmt_1f (cs_Threshold cs) @ ''% observed threshold)'')"

fun critical_lines :: "CriticalSizeResult list \<Rightarrow> GroupKey \<Rightarrow> string list" where
  "critical_lines [] key = []"
| "critical_lines (cs # css) key =
     (if gk_Family (cs_Key cs) = gk_Family key \<and> gk_Port (cs_Key cs) = gk_Port key \<and>
         gk_Direction (cs_Key cs) = gk_Direction key
      then [critical_line cs] else critical_lines css key)"

definition group_section :: "CriticalSizeResult list \<Rightarrow> Group \<Rightarrow> string list" where
  "group_section css g =
     group_header g # map result_line (g_Results g) @ critical_lines css (g_Key g) @ [[]]"

definition summary_line :: "Report \<Rightarrow> string" where
  "summary_line r =
     (let totalLost = wrap64 (rp_TotalSent r - rp_TotalReceived r);
          totalLossPct = (if 0 < rp_TotalSent r
            then f64_mul (f64_div (f64_of_int totalLost) (f64_of_int (rp_TotalSent r))) (f64_const 100)
            else F64 False 0)
      in ''Total: '' @ show_int (rp_TotalTests r) @ '' tests, '' @ show_int (rp_TotalSent r) @ '' sent, '' @
         show_int (rp_TotalReceived r) @ '' received, '' @ show_int totalLost @ '' lost, overall loss='' @
         fmt_1f totalLossPct @ ''%'')"

definition report_lines :: "Report \<Rightarrow> string list" where
  "report_lines r =
     [''=== UDP Diagnostic Report ===''] @
     (if rp_EstimatedDuration r \<noteq> [] then [''Estimated duration: '' @ rp_EstimatedDuration r] else []) @
     [[]] @ [''--- Per-Size Results ---''] @
     concat (map (group_section (rp_CriticalSizes r)) (rp_Groups r)) @
     [''--- Summary ---''] @ [summary_line r]"

definition FormatReport :: "Report \<Rightarrow> string" where
  "FormatReport r = joinLines (report_lines r)"

section \<open>The contract of sort.Slice\<close>

text \<open>
  For a strict weak order \<open>lt\<close>, \<^verbatim>\<open>sort.Slice\<close> permutes the slice so that no element is less than one
  before it; nothing is said of the order of elements that are not less than each other.
\<close>

locale slice_sort =
  fixes lt :: "'a \<Rightarrow> 'a \<Rightarrow> bool"
    and srt :: "'a list \<Rightarrow> 'a list"
  assumes perm: "mset (srt xs) = mset xs"
    and ascending: "sorted_wrt (\<lambda>a b. \<not> lt b a) (srt xs)"
begin

lemma set_srt: "set (srt xs) = set xs"
  using perm by (rule mset_eq_setD)

lemma length_srt: "length (srt xs) = length xs"
  using perm by (rule mset_eq_length)

lemma sorted_key:
  fixes key :: "'a \<Rightarrow> 'k::linorder"
  assumes "\<And>a b. key a < key b \<Longrightarrow> lt a b"
  shows "sorted (map key (srt xs))"
  using ascending [of xs] assms
  by (auto simp: sorted_map not_less intro: sorted_wrt_mono_rel [rotated] leI)

text \<open>With a key that the order decides, the sorted keys are those of any other sort.\<close>

lemma keys_unique:
  fixes key :: "'a \<Rightarrow> 'k::linorder"
  assumes "\<And>a b. key a < key b \<Longrightarrow> lt a b"
  shows "map key (srt xs) = sort (map key xs)"
proof (rule properties_for_sort [symmetric])
  show "mset (map key (srt xs)) = mset (map key xs)"
    by (simp add: perm)
  show "sorted (map key (srt xs))"
    by (rule sorted_key) (rule assms)
qed

end

text \<open>
  The routine that \<^verbatim>\<open>sort.Slice\<close> runs on slices of up to twelve elements: each element moves
  towards the front while it is less than its predecessor. \<open>front\<close> is the sorted prefix, reversed.
\<close>

fun sift_down :: "('a \<Rightarrow> 'a \<Rightarrow> bool) \<Rightarrow> 'a \<Rightarrow> 'a list \<Rightarrow> 'a list" where
  "sift_down lt x [] = [x]"
| "sift_down lt x (y # front) = (if lt x y then y # sift_down lt x front else x # y # front)"

definition insertionSort :: "('a \<Rightarrow> 'a \<Rightarrow> bool) \<Rightarrow> 'a list \<Rightarrow> 'a list" where
  "insertionSort lt xs = rev (fold (sift_down lt) xs [])"

lemma mset_sift_down [simp]: "mset (sift_down lt x xs) = add_mset x (mset xs)"
  by (induction xs) auto

lemma set_sift_down [simp]: "set (sift_down lt x xs) = insert x (set xs)"
  by (induction xs) auto

lemma mset_insertion_fold: "mset (fold (sift_down lt) xs acc) = mset xs + mset acc"
  by (induction xs arbitrary: acc) auto

lemma sift_down_sorted:
  assumes "sorted_wrt (\<lambda>a b. \<not> lt a b) xs"
    and "\<And>a b. lt a b \<Longrightarrow> \<not> lt b a" and "\<And>a b c. \<not> lt a b \<Longrightarrow> \<not> lt b c \<Longrightarrow> \<not> lt a c"
  shows "sorted_wrt (\<lambda>a b. \<not> lt a b) (sift_down lt x xs)"
  using assms(1) by (induction xs) (auto dest: assms(2), metis assms(3))

lemma slice_sort_insertion:
  assumes "\<And>a b. lt a b \<Longrightarrow> \<not> lt b a" and "\<And>a b c. \<not> lt a b \<Longrightarrow> \<not> lt b c \<Longrightarrow> \<not> lt a c"
  shows "slice_sort lt (insertionSort lt)"
proof
  have "sorted_wrt (\<lambda>a b. \<not> lt a b) (fold (sift_down lt) xs acc)"
    if "sorted_wrt (\<lambda>a b. \<not> lt a b) acc" for xs acc
    using that
  proof (induction xs arbitrary: acc)
    case (Cons x xs)
    then show ?case
      using sift_down_sorted [OF Cons.prems assms] by simp
  qed simp
  then show "sorted_wrt (\<lambda>a b. \<not> lt b a) (insertionSort lt xs)" for xs
    by (simp add: insertionSort_def sorted_wrt_rev)
qed (simp add: insertionSort_def mset_insertion_fold)

definition key_triple :: "GroupKey \<Rightarrow> int \<times> int \<times> int" where
  "key_triple k = (gk_Family k, gk_Port k, gk_Direction k)"

lemma group_less_triple: "group_less a b \<longleftrightarrow> key_triple (g_Key a) < key_triple (g_Key b)"
  by (auto simp: group_less_def key_triple_def less_prod_def)

lemma key_triple_inject [simp]: "key_triple a = key_triple b \<longleftrightarrow> a = b"
  by (cases a, cases b) (auto simp: key_triple_def)

interpretation by_size: slice_sort size_less "insertionSort size_less"
  by (rule slice_sort_insertion) (auto simp: size_less_def)

interpretation by_key: slice_sort group_less "insertionSort group_less"
  by (rule slice_sort_insertion) (auto simp: group_less_triple)

section \<open>Groups\<close>

definition bucket :: "('k \<times> 'v list) list \<Rightarrow> 'k \<Rightarrow> 'v list" where
  "bucket m k = (case map_of m k of None \<Rightarrow> [] | Some vs \<Rightarrow> vs)"

lemma append_at_keys: "fst ` set (append_at k v m) = insert k (fst ` set m)"
  by (induction m rule: append_at.induct) auto

lemma append_at_distinct: "distinct (map fst m) \<Longrightarrow> distinct (map fst (append_at k v m))"
proof (induction k v m rule: append_at.induct)
  case (2 k v k' vs m)
  then show ?case
    using append_at_keys [of k v m] by auto
qed simp

lemma bucket_append_at: "bucket (append_at k v m) k' = bucket m k' @ (if k' = k then [v] else [])"
  by (induction k v m rule: append_at.induct) (auto simp: bucket_def)

lemma group_loop_distinct: "distinct (map fst m) \<Longrightarrow> distinct (map fst (group_loop rs m))"
  by (induction rs m rule: group_loop.induct) (simp_all add: append_at_distinct)

lemma group_loop_keys: "fst ` set (group_loop rs m) = fst ` set m \<union> result_key ` set rs"
  by (induction rs m rule: group_loop.induct) (auto simp: append_at_keys)

lemma bucket_group_loop: "bucket (group_loop rs m) k = bucket m k @ filter (\<lambda>r. result_key r = k) rs"
  by (induction rs m rule: group_loop.induct) (auto simp: bucket_append_at)

lemma bucket_entry: "distinct (map fst m) \<Longrightarrow> (k, vs) \<in> set m \<Longrightarrow> bucket m k = vs"
  by (simp add: bucket_def)

definition members :: "TestResult list \<Rightarrow> GroupKey \<Rightarrow> TestResult list" where
  "members results k = filter (\<lambda>r. result_key r = k) results"

lemma group_loop_entry:
  assumes "(k, vs) \<in> set (group_loop rs [])"
  shows "vs = members rs k" "k \<in> result_key ` set rs"
proof -
  have "bucket (group_loop rs []) k = vs"
    using assms by (intro bucket_entry group_loop_distinct) auto
  then show "vs = members rs k"
    unfolding bucket_group_loop by (simp add: bucket_def members_def)
  show "k \<in> result_key ` set rs"
    using assms group_loop_keys [of rs "[]"] by force
qed

text \<open>The assumptions on the arguments, and the groups they give.\<close>

definition go_library ::
  "((GroupKey \<times> TestResult list) list \<Rightarrow> (GroupKey \<times> TestResult list) list) \<Rightarrow>
   ((TestResult \<Rightarrow> TestResult \<Rightarrow> bool) \<Rightarrow> TestResult list \<Rightarrow> TestResult list) \<Rightarrow>
   ((Group \<Rightarrow> Group \<Rightarrow> bool) \<Rightarrow> Group list \<Rightarrow> Group list) \<Rightarrow> bool"
where
  "go_library order sort_results sort_groups \<longleftrightarrow>
     (\<forall>m. mset (order m) = mset m) \<and>
     slice_sort size_less (sort_results size_less) \<and> slice_sort group_less (sort_groups group_less)"

lemma go_library_insertion: "go_library rev insertionSort insertionSort"
  by (simp add: go_library_def by_size.slice_sort_axioms by_key.slice_sort_axioms)

lemma go_library_entries:
  assumes "go_library order sr sg"
  shows "mset (AggregateResults order sr sg results) =
     image_mset (\<lambda>(k, grp). \<lparr>g_Key = k, g_Results = sr size_less grp\<rparr>) (mset (group_loop results []))"
proof -
  have "mset (sg group_less gs) = mset gs" for gs
    using assms slice_sort.perm by (auto simp: go_library_def)
  then show ?thesis
    using assms by (simp add: AggregateResults_def Let_def go_library_def)
qed

lemma aggregate_member:
  assumes "go_library order sr sg" and "g \<in> set (AggregateResults order sr sg results)"
  shows "g_Results g = sr size_less (members results (g_Key g))" "g_Key g \<in> result_key ` set results"
proof -
  have "set (AggregateResults order sr sg results) =
      (\<lambda>(k, grp). \<lparr>g_Key = k, g_Results = sr size_less grp\<rparr>) ` set (group_loop results [])"
    using arg_cong [OF go_library_entries [OF assms(1), of results], of set_mset] by simp
  with assms(2) obtain k grp where g: "g = \<lparr>g_Key = k, g_Results = sr size_less grp\<rparr>"
    and k: "(k, grp) \<in> set (group_loop results [])"
    by auto
  with group_loop_entry [OF k]
  show "g_Results g = sr size_less (members results (g_Key g))" "g_Key g \<in> result_key ` set results"
    by simp_all
qed

lemma aggregate_keys:
  assumes "go_library order sr sg"
  shows "map (key_triple \<circ> g_Key) (AggregateResults order sr sg results) =
     sorted_list_of_set (key_triple ` result_key ` set results)"
proof -
  let ?gs = "AggregateResults order sr sg results" and ?f = "key_triple \<circ> g_Key"
  have "slice_sort group_less (sg group_less)"
    using assms by (simp add: go_library_def)
  then have "sorted (map ?f ?gs)"
    unfolding AggregateResults_def Let_def
    by (rule slice_sort.sorted_key) (simp add: group_less_triple)
  moreover have m: "mset (map ?f ?gs) = mset (map (key_triple \<circ> fst) (group_loop results []))"
    using go_library_entries [OF assms, of results]
    by (simp add: image_mset.compositionality comp_def case_prod_beta)
  moreover have "distinct (map (key_triple \<circ> fst) (group_loop results []))"
    using group_loop_distinct [of "[]" results] by (auto simp: distinct_map inj_on_def)
  ultimately have "sorted_list_of_set (set (map ?f ?gs)) = map ?f ?gs"
    by (intro sorted_list_of_set.idem_if_sorted_distinct) (simp_all only: mset_eq_imp_distinct_iff [OF m])
  moreover have "set (map ?f ?gs) = key_triple ` fst ` set (group_loop results [])"
    using mset_eq_setD [OF m] by (simp add: image_image)
  ultimately show ?thesis
    using group_loop_keys [of results "[]"] by simp
qed

lemma aggregate_sizes:
  assumes "go_library order sr sg" and "g \<in> set (AggregateResults order sr sg results)"
  shows "mset (g_Results g) = mset (members results (g_Key g))"
    "map tr_PayloadSize (g_Results g) = sort (map tr_PayloadSize (members results (g_Key g)))"
proof -
  have srt: "slice_sort size_less (sr size_less)"
    using assms(1) by (simp add: go_library_def)
  show "mset (g_Results g) = mset (members results (g_Key g))"
    using slice_sort.perm [OF srt] by (simp add: aggregate_member(1) [OF assms])
  show "map tr_PayloadSize (g_Results g) = sort (map tr_PayloadSize (members results (g_Key g)))"
    unfolding aggregate_member(1) [OF assms] by (rule slice_sort.keys_unique [OF srt]) (simp add: size_less_def)
qed

lemma aggregate_group:
  assumes "go_library order sr sg" and "r \<in> set results"
  shows "\<exists>g \<in> set (AggregateResults order sr sg results). g_Key g = result_key r"
proof -
  have "(key_triple \<circ> g_Key) ` set (AggregateResults order sr sg results) = key_triple ` result_key ` set results"
    using arg_cong [OF aggregate_keys [OF assms(1), of results], of set] by simp
  then have "key_triple (result_key r) \<in> (key_triple \<circ> g_Key) ` set (AggregateResults order sr sg results)"
    using assms(2) by simp
  then show ?thesis
    by auto
qed

section \<open>The critical size\<close>

lemma FindCriticalSize_first:
  "FindCriticalSize rs th =
     (case filter (\<lambda>r. f64_ge (LossPercent r) th) rs of [] \<Rightarrow> None | r # _ \<Rightarrow> Some (tr_PayloadSize r))"
  by (induction rs) simp_all

definition least_size :: "(TestResult \<Rightarrow> bool) \<Rightarrow> TestResult list \<Rightarrow> goint option" where
  "least_size P rs = (if \<exists>r \<in> set rs. P r then Some (Min (tr_PayloadSize ` set (filter P rs))) else None)"

lemma FindCriticalSize_least:
  assumes "sorted (map tr_PayloadSize rs)"
  shows "FindCriticalSize rs th = least_size (\<lambda>r. f64_ge (LossPercent r) th) rs"
  using assms
proof (induction rs)
  case (Cons r rs)
  show ?case
  proof (cases "f64_ge (LossPercent r) th")
    case True
    have "Min (insert (tr_PayloadSize r) (tr_PayloadSize ` set (filter (\<lambda>r. f64_ge (LossPercent r) th) rs))) =
        tr_PayloadSize r"
      using Cons.prems by (intro Min_eqI) auto
    with True show ?thesis
      by (simp add: least_size_def)
  qed (use Cons in \<open>simp add: least_size_def\<close>)
qed (simp add: least_size_def)

lemma least_size_cong:
  "set rs = set rs' \<Longrightarrow> (\<And>r. r \<in> set rs \<Longrightarrow> P r = Q r) \<Longrightarrow> least_size P rs = least_size Q rs'"
  unfolding least_size_def set_filter by (metis (mono_tags, lifting) Collect_cong)

lemma aggregate_critical:
  assumes "go_library order sr sg" and "g \<in> set (AggregateResults order sr sg results)"
  shows "FindCriticalSize (g_Results g) th =
     least_size (\<lambda>r. f64_ge (LossPercent r) th) (members results (g_Key g))"
proof -
  have "sorted (map tr_PayloadSize (g_Results g))"
    by (simp add: aggregate_sizes(2) [OF assms])
  then show ?thesis
    using FindCriticalSize_least [of "g_Results g" th] mset_eq_setD [OF aggregate_sizes(1) [OF assms]]
      least_size_cong [of "g_Results g" "members results (g_Key g)"] by simp
qed

section \<open>The threshold in exact arithmetic\<close>

lemma round53_twentieth: "round53 (1 / 20) = 7205759403792794 / 144115188075855872"
  using round53_eqI [of "-5" "1 / 20" 7205759403792794] by (simp add: power_int_def power_divide)

lemma round53_five: "round53 (90071992547409925 / 18014398509481984) = 5"
  using round53_eqI [of 2 "90071992547409925 / 18014398509481984" 5629499534213120]
  by (simp add: power_int_def power_divide)

definition loss_value :: "rat \<Rightarrow> rat" where
  "loss_value q = round53 (round53 q * 100)"

lemma loss_value_mono: "0 \<le> p \<Longrightarrow> p \<le> q \<Longrightarrow> loss_value p \<le> loss_value q"
  by (simp add: loss_value_def round53_mono round53_nonneg)

lemma loss_value_bounds: "0 \<le> q \<Longrightarrow> q \<le> 1 \<Longrightarrow> 0 \<le> loss_value q \<and> loss_value q \<le> 100"
  using loss_value_mono [of 0 q] loss_value_mono [of q 1] by (simp add: loss_value_def)

lemma loss_value_below:
  assumes "0 < sent" "sent \<le> 1125899906842624" "0 \<le> lost" "20 * lost < sent"
  shows "loss_value (of_int lost / of_int sent) < 5"
proof -
  let ?e = "9007199254740993 / 9007199254740992 :: rat"
  let ?q = "of_int lost / of_int sent :: rat"
  have q0: "0 \<le> ?q"
    using assms by simp
  have "(of_int (20 * lost + 1) :: rat) \<le> of_int sent"
    using assms(4) unfolding of_int_le_iff by simp
  then have "20 * of_int lost + 1 \<le> (of_int sent :: rat)"
    by simp
  then have "?q \<le> (1 - 1 / of_int sent) / 20"
    using assms(1) by (simp add: field_simps)
  also have "\<dots> \<le> (1 - 1 / 1125899906842624) / 20"
  proof -
    have "(1 :: rat) / 1125899906842624 \<le> 1 / of_int sent"
      using assms(1,2) by (simp add: frac_le)
    then show ?thesis by simp
  qed
  finally have q: "?q \<le> 1125899906842623 / 22517998136852480"
    by simp
  have "loss_value ?q \<le> round53 ?q * 100 * ?e"
    using round53_upper [of "round53 ?q * 100"] round53_nonneg [OF q0] by (simp add: loss_value_def)
  also have "\<dots> \<le> ?q * ?e * 100 * ?e"
    using round53_upper [OF q0] by simp
  also have "\<dots> \<le> 1125899906842623 / 22517998136852480 * ?e * 100 * ?e"
    using q by simp
  also have "\<dots> < 5"
    by simp
  finally show ?thesis .
qed

lemma loss_value_threshold:
  assumes "0 < sent" "sent \<le> 1125899906842624" "0 \<le> lost"
  shows "5 \<le> loss_value (of_int lost / of_int sent) \<longleftrightarrow> sent \<le> 20 * lost"
proof
  assume "sent \<le> 20 * lost"
  then have "(of_int sent :: rat) \<le> of_int (20 * lost)"
    unfolding of_int_le_iff .
  then have "1 / 20 \<le> (of_int lost / of_int sent :: rat)"
    using assms(1) by (simp add: field_simps)
  then have "loss_value (1 / 20) \<le> loss_value (of_int lost / of_int sent)"
    by (intro loss_value_mono) simp_all
  then show "5 \<le> loss_value (of_int lost / of_int sent)"
    by (simp add: loss_value_def round53_twentieth round53_five)
qed (use loss_value_below [OF assms] in \<open>force simp: not_le [symmetric]\<close>)

lemma LossPercent_value:
  assumes "0 < tr_Sent r" "tr_Sent r \<le> 1125899906842624" "0 \<le> tr_Lost r" "tr_Lost r \<le> 1125899906842624"
  shows "LossPercent r = F64 False (loss_value (of_int (tr_Lost r) / of_int (tr_Sent r)))"
  using assms
  by (simp add: LossPercent_def f64_of_int_small f64_div_def f64_mul_def f64_const_def loss_value_def)

text \<open>Counts as the program produces them: sent packets, some of which are lost.\<close>

definition counted :: "TestResult \<Rightarrow> bool" where
  "counted r \<longleftrightarrow> 0 < tr_Sent r \<and> tr_Sent r \<le> 1125899906842624 \<and> 0 \<le> tr_Lost r \<and> tr_Lost r \<le> tr_Sent r"

lemma threshold_counted:
  "counted r \<Longrightarrow> f64_ge (LossPercent r) ThresholdPercent \<longleftrightarrow> tr_Sent r \<le> 20 * tr_Lost r"
  using loss_value_threshold [of "tr_Sent r" "tr_Lost r"]
  by (simp add: counted_def LossPercent_value ThresholdPercent_def f64_ge_def f_val_def f64_const_def)

section \<open>Properties\<close>

text \<open>
  C16: the floating-point loss percentage of a test with up to \<open>2\<^sup>5\<^sup>0\<close> packets sent lies between 0 and
  100, and comparing it with the threshold of 5.0 is exact in spite of the two roundings: it
  reaches the threshold exactly when at least one packet in twenty is lost.
\<close>

theorem loss_threshold_exact:
  assumes "0 < tr_Sent r" "tr_Sent r \<le> 2 ^ 50" "0 \<le> tr_Lost r" "tr_Lost r \<le> tr_Sent r"
  shows "0 \<le> f_val (LossPercent r) \<and> f_val (LossPercent r) \<le> 100 \<and>
    (f64_ge (LossPercent r) ThresholdPercent \<longleftrightarrow> tr_Sent r \<le> 20 * tr_Lost r)"
proof -
  have "counted r"
    using assms by (simp add: counted_def)
  moreover have "0 \<le> (of_int (tr_Lost r) / of_int (tr_Sent r) :: rat)"
    "of_int (tr_Lost r) / of_int (tr_Sent r) \<le> (1 :: rat)"
    using assms by simp_all
  ultimately show ?thesis
    using threshold_counted [of r] loss_value_bounds [of "of_int (tr_Lost r) / of_int (tr_Sent r)"]
    by (simp add: LossPercent_value counted_def f_val_def)
qed

definition sample_result :: "goint \<Rightarrow> goint \<Rightarrow> goint \<Rightarrow> TestResult" where
  "sample_result psize sent lost = \<lparr>tr_TargetAddress = ''10.0.0.1'', tr_Family = FamilyIPv4,
     tr_Direction = DirectionUplink, tr_UDPPort = 9000, tr_PayloadSize = psize, tr_Sent = sent,
     tr_Received = sent - lost, tr_Lost = lost\<rparr>"

theorem loss_threshold_exact_witness:
  "f64_ge (LossPercent (sample_result 100 60 3)) ThresholdPercent \<and>
   \<not> f64_ge (LossPercent (sample_result 100 61 3)) ThresholdPercent"
  using loss_threshold_exact [of "sample_result 100 60 3"] loss_threshold_exact [of "sample_result 100 61 3"]
  by (simp add: sample_result_def)

text \<open>
  C15: whatever order the map is iterated in and however the sort orders equal elements, the groups
  come out in strictly ascending order of family, port and direction, one for each combination
  that occurs; a group is never empty, holds exactly the results of its combination, each as
  often as it was given, and is sorted by payload size.
\<close>

theorem aggregate_groups:
  assumes "go_library order sort_results sort_groups"
  shows "sorted_wrt group_less (AggregateResults order sort_results sort_groups results) \<and>
    g_Key ` set (AggregateResults order sort_results sort_groups results) = result_key ` set results \<and>
    (\<forall>g \<in> set (AggregateResults order sort_results sort_groups results).
       g_Results g \<noteq> [] \<and> sorted (map tr_PayloadSize (g_Results g)) \<and>
       mset (g_Results g) = mset (filter (\<lambda>r. result_key r = g_Key g) results))"
proof (intro conjI ballI)
  let ?gs = "AggregateResults order sort_results sort_groups results"
  have "sorted_wrt (<) (map (key_triple \<circ> g_Key) ?gs)"
    unfolding aggregate_keys [OF assms] by simp
  then show "sorted_wrt group_less ?gs"
    by (simp add: sorted_wrt_map group_less_triple [abs_def])
  show "g_Key ` set ?gs = result_key ` set results"
    using aggregate_member(2) [OF assms, of _ results] aggregate_group [OF assms, of _ results] by force
  fix g assume g: "g \<in> set ?gs"
  show m: "mset (g_Results g) = mset (filter (\<lambda>r. result_key r = g_Key g) results)"
    using aggregate_sizes(1) [OF assms g] by (simp add: members_def)
  show "sorted (map tr_PayloadSize (g_Results g))"
    by (simp add: aggregate_sizes(2) [OF assms g])
  show "g_Results g \<noteq> []"
    using aggregate_member(2) [OF assms g] mset_eq_setD [OF m] by force
qed

definition sample_results :: "TestResult list" where
  "sample_results = [sample_result 300 60 9, (sample_result 100 60 0)\<lparr>tr_Family := FamilyIPv6\<rparr>,
     sample_result 200 60 3, sample_result 100 60 1]"

theorem aggregate_groups_witness:
  "sorted_wrt group_less (AggregateResults rev insertionSort insertionSort sample_results) \<and>
   g_Key ` set (AggregateResults rev insertionSort insertionSort sample_results) = result_key ` set sample_results"
  using aggregate_groups [OF go_library_insertion, of sample_results] by blast



text \<open>
  C9: the critical size of a group is the smallest payload size, among the results of that family,
  port and direction, at which at least one packet in twenty was lost, and none when there is no
  such size; every combination that was tested has exactly one such entry.
\<close>

theorem critical_sizes_correct:
  assumes "go_library order sr sg" and "\<forall>r \<in> set results. counted r" and "r \<in> set results"
  shows "\<exists>!cs. cs \<in> set (rp_CriticalSizes (BuildReport order sr sg results dur)) \<and> cs_Key cs = result_key r \<and>
    cs_CriticalSize cs =
      (let hit = {q \<in> set results. result_key q = result_key r \<and> tr_Sent q \<le> 20 * tr_Lost q}
       in if hit = {} then None else Some (Min (tr_PayloadSize ` hit)))"
proof -
  let ?gs = "AggregateResults order sr sg results"
  let ?hit = "{q \<in> set results. result_key q = result_key r \<and> tr_Sent q \<le> 20 * tr_Lost q}"
  have cs: "rp_CriticalSizes (BuildReport order sr sg results dur) = ComputeCriticalSizes ?gs ThresholdPercent"
    by (simp add: BuildReport_def Let_def)
  have least: "FindCriticalSize (g_Results g) ThresholdPercent =
      (if ?hit = {} then None else Some (Min (tr_PayloadSize ` ?hit)))"
    if "g \<in> set ?gs" "g_Key g = result_key r" for g
  proof -
    have hit: "{q \<in> set (members results (result_key r)). f64_ge (LossPercent q) ThresholdPercent} = ?hit"
      using assms(2) threshold_counted by (auto simp: members_def)
    show ?thesis
      unfolding aggregate_critical [OF assms(1) that(1)] least_size_def that(2) set_filter hit
      using hit by auto
  qed
  obtain g where "g \<in> set ?gs" "g_Key g = result_key r"
    using aggregate_group [OF assms(1,3)] by blast
  with least show ?thesis
    unfolding cs by (intro ex1I) (auto simp: ComputeCriticalSizes_def Let_def)
qed

theorem critical_sizes_correct_witness:
  "\<exists>!cs. cs \<in> set (rp_CriticalSizes (BuildReport rev insertionSort insertionSort sample_results [])) \<and>
     cs_Key cs = result_key (sample_result 100 60 1) \<and> cs_CriticalSize cs = Some 200"
proof -
  let ?hit = "{q \<in> set sample_results. result_key q = result_key (sample_result 100 60 1) \<and> tr_Sent q \<le> 20 * tr_Lost q}"
  have "?hit = {sample_result 300 60 9, sample_result 200 60 3}"
    by (auto simp: sample_results_def sample_result_def result_key_def)
  moreover have "Min (tr_PayloadSize ` {sample_result 300 60 9, sample_result 200 60 3}) = 200"
    by (simp add: sample_result_def)
  moreover have "\<forall>r \<in> set sample_results. counted r" "sample_result 100 60 1 \<in> set sample_results"
    by (simp_all add: sample_results_def sample_result_def counted_def)
  ultimately show ?thesis
    using critical_sizes_correct [OF go_library_insertion, of sample_results "sample_result 100 60 1" "[]"]
    by (simp add: Let_def)
qed

section \<open>The text of the report\<close>

abbreviation newline :: char where
  "newline \<equiv> CHR 0x0A"

lemma joinLines_loop_eq:
  "joinLines_loop i lines acc =
     (if lines = [] then acc else if i = 0 then acc @ join_with [newline] lines
      else acc @ newline # join_with [newline] lines)"
proof (induction i lines acc rule: joinLines_loop.induct)
  case (2 i line lines result)
  then show ?case
    by (cases lines) auto
qed simp

lemma joinLines_eq: "joinLines lines = join_with [newline] lines"
  by (simp add: joinLines_def joinLines_loop_eq)

lemma show_nat_newline [simp]: "newline \<notin> set (show_nat n)"
  using show_nat_digits [of n]
  by (auto simp: all_digits_def list_all_iff digit_val_def Let_def split: if_splits)

lemma show_int_newline [simp]: "newline \<notin> set (show_int n)"
  by (simp add: show_int_def)

lemma fmt_1f_newline [simp]: "newline \<notin> set (fmt_1f x)"
  by (simp add: fmt_1f_def Let_def)

definition one_line :: "TestResult \<Rightarrow> bool" where
  "one_line r \<longleftrightarrow> newline \<notin> set (tr_TargetAddress r)"

lemma lines_newline:
  "newline \<notin> set (result_line r)" "newline \<notin> set (critical_line cs)" "newline \<notin> set (summary_line rep)"
  by (simp_all add: result_line_def critical_line_def summary_line_def Let_def split: option.split)

lemma group_header_newline: "\<forall>r \<in> set (g_Results g). one_line r \<Longrightarrow> newline \<notin> set (group_header g)"
  by (cases "g_Results g") (simp_all add: group_header_def Let_def one_line_def)

lemma critical_lines_newline: "l \<in> set (critical_lines css k) \<Longrightarrow> newline \<notin> set l"
  by (induction css k rule: critical_lines.induct) (auto simp: lines_newline split: if_splits)

lemma report_lines_newline:
  assumes "\<forall>g \<in> set (rp_Groups rep). \<forall>r \<in> set (g_Results g). one_line r" and "newline \<notin> set (rp_EstimatedDuration rep)"
    and "l \<in> set (report_lines rep)"
  shows "newline \<notin> set l"
  using assms
  by (auto simp: report_lines_def group_section_def lines_newline
      dest: critical_lines_newline group_header_newline split: if_splits)

lemma split_join_lines:
  "lines \<noteq> [] \<Longrightarrow> \<forall>l \<in> set lines. c \<notin> set l \<Longrightarrow> split_on c (join_with [c] lines) = lines"
proof (induction "[c]" lines rule: join_with.induct)
  case (3 w v ws)
  then show ?case by (simp add: split_on_append)
qed (simp_all add: split_on_none)

lemma critical_lines_own:
  assumes "distinct (map g_Key gs)" "g \<in> set gs"
  shows "critical_lines (ComputeCriticalSizes gs th) (g_Key g) =
     [critical_line \<lparr>cs_Key = g_Key g, cs_CriticalSize = FindCriticalSize (g_Results g) th, cs_Threshold = th\<rparr>]"
  using assms
proof (induction gs)
  case (Cons h gs)
  have eq: "gk_Family k = gk_Family k' \<and> gk_Port k = gk_Port k' \<and> gk_Direction k = gk_Direction k' \<longleftrightarrow> k = k'"
    for k k' :: GroupKey
    by auto
  from Cons show ?case
    by (auto simp: ComputeCriticalSizes_def eq)
qed simp

text \<open>
  C36: the printed report, read back line by line, is the header, one section per group in the
  order of the groups and the summary; a section has the group's heading, one line per result
  and exactly one critical-size line, the one of that very group, found at the threshold 5.0.
\<close>

theorem format_report_sections:
  assumes "go_library order sr sg" and "\<forall>r \<in> set results. newline \<notin> set (tr_TargetAddress r)"
    and "newline \<notin> set dur" and "dur \<noteq> []"
  shows "split_on newline (FormatReport (BuildReport order sr sg results dur)) =
    [''=== UDP Diagnostic Report ==='', ''Estimated duration: '' @ dur, [], ''--- Per-Size Results ---''] @
    concat (map (\<lambda>g. group_header g # map result_line (g_Results g) @
        [critical_line \<lparr>cs_Key = g_Key g, cs_CriticalSize = FindCriticalSize (g_Results g) ThresholdPercent,
           cs_Threshold = ThresholdPercent\<rparr>] @ [[]])
      (AggregateResults order sr sg results)) @
    [''--- Summary ---'', summary_line (BuildReport order sr sg results dur)]"
proof -
  let ?gs = "AggregateResults order sr sg results" and ?rep = "BuildReport order sr sg results dur"
  have rep: "rp_Groups ?rep = ?gs" "rp_CriticalSizes ?rep = ComputeCriticalSizes ?gs ThresholdPercent"
    "rp_EstimatedDuration ?rep = dur"
    by (simp_all add: BuildReport_def Let_def)
  have "\<forall>r \<in> set (g_Results g). one_line r" if "g \<in> set ?gs" for g
    using mset_eq_setD [OF aggregate_sizes(1) [OF assms(1) that]] assms(2) by (auto simp: one_line_def members_def)
  then have nl: "\<forall>l \<in> set (report_lines ?rep). newline \<notin> set l"
    using report_lines_newline [of ?rep] assms(3) by (auto simp: rep)
  have "distinct (map (key_triple \<circ> g_Key) ?gs)"
    unfolding aggregate_keys [OF assms(1)] by simp
  then have "distinct (map g_Key ?gs)"
    by (auto simp: distinct_map inj_on_def)
  then have sections: "map (group_section (ComputeCriticalSizes ?gs ThresholdPercent)) ?gs =
      map (\<lambda>g. group_header g # map result_line (g_Results g) @
        [critical_line \<lparr>cs_Key = g_Key g, cs_CriticalSize = FindCriticalSize (g_Results g) ThresholdPercent,
           cs_Threshold = ThresholdPercent\<rparr>] @ [[]]) ?gs"
    by (intro map_cong) (simp_all add: group_section_def critical_lines_own)
  have "split_on newline (FormatReport ?rep) = report_lines ?rep"
    unfolding FormatReport_def joinLines_eq using nl
    by (intro split_join_lines) (simp_all add: report_lines_def)
  then show ?thesis
    unfolding report_lines_def rep sections using assms(4) by simp
qed

theorem format_report_sections_witness:
  "hd (split_on newline (FormatReport (BuildReport rev insertionSort insertionSort sample_results ''1s''))) =
     ''=== UDP Diagnostic Report ===''"
  using format_report_sections [OF go_library_insertion, of sample_results "''1s''"]
  by (simp add: sample_results_def sample_result_def)

end
