(* ===== verification/Server.thy ===== *)
theory Server
  imports SessionRuns
begin

text \<open>
  \<^verbatim>\<open>internal/control/server.go\<close>: the control server, which accepts TCP connections and runs at most one
  diagnostic session at a time.

  A connection's goroutine (\<^verbatim>\<open>handleConn\<close>) is a value of type \<open>connection\<close>, cut at the atomic operations
  on the session pointer; a connection that owns the session runs it, with the steps of the
  session model. The pointer to the active session is the identity of the connection that
  created it.
\<close>

section \<open>Choosing the network\<close>

definition ListenNetwork :: "string \<Rightarrow> string" where
  "ListenNetwork addr =
     (case SplitHostPort addr of
        Inl _ \<Rightarrow> ''tcp''
      | Inr (host, _) \<Rightarrow>
          let by_text =
            (if host \<noteq> [] \<and> CHR '':'' \<in> set host then ''tcp6''
             else if CHR ''.'' \<in> set host then ''tcp4''
             else ''tcp'')
          in case ParseIP host of
               Some ip \<Rightarrow> if To4 ip \<noteq> None then ''tcp4'' else if To16 ip \<noteq> None then ''tcp6'' else by_text
             | None \<Rightarrow> by_text)"

section \<open>State\<close>

datatype listener = NoListener | Listening | ListenerClosed

datatype connection =
    Accepted "bytes option"
  | Refused
  | SendingBusy string
  | Serving world
  | Released world
  | Done "message list" "world option"

record server =
  sv_listenAddr :: string
  sv_listener :: listener
  sv_session :: "nat option"
  sv_wg :: nat
  sv_ctxDone :: bool
  sv_closed :: bool
  sv_acceptors :: nat
  sv_conns :: "nat \<Rightarrow> connection option"

definition NewServer :: "string \<Rightarrow> server" where
  "NewServer addr = \<lparr>sv_listenAddr = addr, sv_listener = NoListener, sv_session = None, sv_wg = 0,
     sv_ctxDone = False, sv_closed = False, sv_acceptors = 0, sv_conns = (\<lambda>_. None)\<rparr>"

definition Server_IsActive :: "server \<Rightarrow> bool" where
  "Server_IsActive s \<longleftrightarrow> sv_session s \<noteq> None"

definition set_conn :: "nat \<Rightarrow> connection \<Rightarrow> server \<Rightarrow> server" where
  "set_conn c x s = s\<lparr>sv_conns := (sv_conns s)(c \<mapsto> x)\<rparr>"

section \<open>Operations\<close>

text \<open>\<^verbatim>\<open>Start\<close>; \<open>listen network address\<close> says whether \<^verbatim>\<open>net.Listen\<close> succeeds.\<close>

datatype server_error = ServerClosed | ListenFailed

definition start_serving :: "server \<Rightarrow> server" where
  "start_serving s = s\<lparr>sv_wg := sv_wg s + 1, sv_acceptors := sv_acceptors s + 1\<rparr>"

definition Server_Start :: "(string \<Rightarrow> string \<Rightarrow> bool) \<Rightarrow> server \<Rightarrow> (server_error + unit) \<times> server" where
  "Server_Start listen s =
     (if sv_closed s then (Inl ServerClosed, s)
      else if sv_listener s = NoListener then
        if listen (ListenNetwork (sv_listenAddr s)) (sv_listenAddr s)
        then (Inr (), start_serving (s\<lparr>sv_listener := Listening\<rparr>))
        else (Inl ListenFailed, s)
      else (Inr (), start_serving s))"

text \<open>
  An iteration of \<^verbatim>\<open>serve\<close>: a new connection (\<open>c\<close> is a fresh identity), or an error of \<^verbatim>\<open>Accept\<close>, on which
  the goroutine returns if the server is shutting down and continues otherwise.
\<close>

definition serve_accept :: "nat \<Rightarrow> bytes option \<Rightarrow> server \<Rightarrow> server" where
  "serve_accept c remote s = (set_conn c (Accepted remote) s)\<lparr>sv_wg := sv_wg s + 1\<rparr>"

definition serve_error :: "server \<Rightarrow> server" where
  "serve_error s =
     (if sv_ctxDone s then s\<lparr>sv_acceptors := sv_acceptors s - 1, sv_wg := sv_wg s - 1\<rparr> else s)"

text \<open>
  \<^verbatim>\<open>tryAcquireSession\<close>: the compare-and-swap, and the load of the current session when it fails. Since
  the two are separate, the session may have ended in between and the loaded pointer be nil.
\<close>

definition tryAcquireSession :: "goint \<Rightarrow> bool \<Rightarrow> bytes option \<Rightarrow> nat \<Rightarrow> server \<Rightarrow> server" where
  "tryAcquireSession now wr remote c s =
     (if sv_session s = None
      then set_conn c (Serving (Run wr (new_world now remote))) (s\<lparr>sv_session := Some c\<rparr>)
      else set_conn c Refused s)"

definition current_id :: "server \<Rightarrow> string" where
  "current_id s =
     (case sv_session s of
        None \<Rightarrow> []
      | Some c \<Rightarrow> (case sv_conns s c of Some (Serving w) \<Rightarrow> ss_id (w_session w) | _ \<Rightarrow> []))"

definition busy_message :: "string \<Rightarrow> message" where
  "busy_message sid = Busy (BaseMessage.extend (new_base MsgTypeBusy sid) (Busy.fields sid))"

definition sendBusyResponse :: "bool \<Rightarrow> string \<Rightarrow> message list" where
  "sendBusyResponse wr sid = (if wr then [busy_message sid] else [])"

text \<open>\<^verbatim>\<open>tryAcquireSession\<close> never returns an error, so this reply is never sent.\<close>

definition sendErrorResponse :: "bool \<Rightarrow> ErrorCode \<Rightarrow> string \<Rightarrow> message list" where
  "sendErrorResponse wr code msg =
     (if wr then [InternalError (BaseMessage.extend (new_base MsgTypeInternalError []) (ErrorMsg.fields code msg))] else [])"

definition releaseSession :: "nat \<Rightarrow> server \<Rightarrow> server" where
  "releaseSession c s = s\<lparr>sv_session := if sv_session s = Some c then None else sv_session s\<rparr>"

definition conn_done :: "nat \<Rightarrow> message list \<Rightarrow> world option \<Rightarrow> server \<Rightarrow> server" where
  "conn_done c out w s = (set_conn c (Done out w) s)\<lparr>sv_wg := sv_wg s - 1\<rparr>"

text \<open>\<^verbatim>\<open>Close\<close> up to its wait for the goroutines; a second call does nothing.\<close>

definition Server_Close :: "server \<Rightarrow> server" where
  "Server_Close s =
     (if sv_closed s then s
      else s\<lparr>sv_closed := True, sv_ctxDone := True,
             sv_listener := if sv_listener s = NoListener then NoListener else ListenerClosed\<rparr>)"

text \<open>\<^verbatim>\<open>s.wg.Wait()\<close> lets \<^verbatim>\<open>Close\<close> return.\<close>

definition Close_returns :: "server \<Rightarrow> bool" where
  "Close_returns s \<longleftrightarrow> sv_closed s \<and> sv_wg s = 0"

section \<open>Steps\<close>

datatype server_label =
    VStart "string \<Rightarrow> string \<Rightarrow> bool"
  | VAccept nat "bytes option"
  | VAcceptError
  | VAcquire nat goint bool
  | VLoad nat
  | VBusy nat bool
  | VSession nat label
  | VRelease nat
  | VFinish nat
  | VClose

text \<open>A session step of a connection; the worker may outlive the connection's goroutine.\<close>

definition session_step :: "nat \<Rightarrow> label \<Rightarrow> server \<Rightarrow> server option" where
  "session_step c l s =
     (if l = LCtxDone \<and> \<not> sv_ctxDone s then None
      else case sv_conns s c of
        Some (Serving w) \<Rightarrow> map_option (\<lambda>w. set_conn c (Serving w) s) (exec l w)
      | Some (Released w) \<Rightarrow> map_option (\<lambda>w. set_conn c (Released w) s) (exec l w)
      | Some (Done out (Some w)) \<Rightarrow> map_option (\<lambda>w. set_conn c (Done out (Some w)) s) (exec l w)
      | _ \<Rightarrow> None)"

fun sexec :: "server_label \<Rightarrow> server \<Rightarrow> server option" where
  "sexec (VStart listen) s = Some (snd (Server_Start listen s))"
| "sexec (VAccept c remote) s =
     (if 0 < sv_acceptors s \<and> sv_listener s = Listening \<and> sv_conns s c = None
      then Some (serve_accept c remote s) else None)"
| "sexec VAcceptError s = (if 0 < sv_acceptors s then Some (serve_error s) else None)"
| "sexec (VAcquire c now wr) s =
     (case sv_conns s c of
        Some (Accepted remote) \<Rightarrow> Some (tryAcquireSession now wr remote c s)
      | _ \<Rightarrow> None)"
| "sexec (VLoad c) s =
     (if sv_conns s c = Some Refused then Some (set_conn c (SendingBusy (current_id s)) s) else None)"
| "sexec (VBusy c wr) s =
     (case sv_conns s c of
        Some (SendingBusy sid) \<Rightarrow> Some (conn_done c (sendBusyResponse wr sid) None s)
      | _ \<Rightarrow> None)"
| "sexec (VSession c l) s = session_step c l s"
| "sexec (VRelease c) s =
     (case sv_conns s c of
        Some (Serving w) \<Rightarrow>
          if w_loop w = Returned then Some (set_conn c (Released w) (releaseSession c s)) else None
      | _ \<Rightarrow> None)"
| "sexec (VFinish c) s =
     (case sv_conns s c of
        Some (Released w) \<Rightarrow> Some (conn_done c [] (Some (w\<lparr>w_open := False\<rparr>)) s)
      | _ \<Rightarrow> None)"
| "sexec VClose s = Some (Server_Close s)"

fun sexecs :: "server_label list \<Rightarrow> server \<Rightarrow> server option" where
  "sexecs [] s = Some s"
| "sexecs (l # ls) s = (case sexec l s of None \<Rightarrow> None | Some t \<Rightarrow> sexecs ls t)"

section \<open>Invariant\<close>

definition live :: "server \<Rightarrow> nat set" where
  "live s = {c. \<exists>x. sv_conns s c = Some x \<and> (\<forall>out w. x \<noteq> Done out w)}"

fun session_of :: "connection \<Rightarrow> world option" where
  "session_of (Serving w) = Some w"
| "session_of (Released w) = Some w"
| "session_of (Done out w) = w"
| "session_of _ = None"

text \<open>
  The session pointer names exactly the connection that is serving; the wait group counts the
  goroutines; and every session satisfies the invariant of the session model.
\<close>

definition owner_inv :: "server \<Rightarrow> bool" where
  "owner_inv s \<longleftrightarrow> (\<forall>c. sv_session s = Some c \<longleftrightarrow> (\<exists>w. sv_conns s c = Some (Serving w)))"

definition count_inv :: "server \<Rightarrow> bool" where
  "count_inv s \<longleftrightarrow> finite (live s) \<and> sv_wg s = sv_acceptors s + card (live s)"

definition sessions_inv :: "server \<Rightarrow> bool" where
  "sessions_inv s \<longleftrightarrow> (\<forall>c x w. sv_conns s c = Some x \<longrightarrow> session_of x = Some w \<longrightarrow> session_inv w)"

definition server_inv :: "server \<Rightarrow> bool" where
  "server_inv s \<longleftrightarrow> owner_inv s \<and> count_inv s \<and> sessions_inv s"

definition is_done :: "connection \<Rightarrow> bool" where
  "is_done x \<longleftrightarrow> (case x of Done _ _ \<Rightarrow> True | _ \<Rightarrow> False)"

lemma live_set_conn: "live (set_conn c x s) = (if is_done x then live s - {c} else insert c (live s))"
  by (auto simp: live_def set_conn_def is_done_def split: connection.splits)

lemma live_other [simp]:
  "live (s\<lparr>sv_wg := n\<rparr>) = live s" "live (s\<lparr>sv_session := p\<rparr>) = live s" "live (s\<lparr>sv_acceptors := m\<rparr>) = live s"
  "live (s\<lparr>sv_listener := l\<rparr>) = live s" "live (s\<lparr>sv_closed := b\<rparr>) = live s" "live (s\<lparr>sv_ctxDone := b\<rparr>) = live s"
  by (simp_all add: live_def)

lemma set_conn_fields [simp]:
  "sv_session (set_conn c x s) = sv_session s" "sv_wg (set_conn c x s) = sv_wg s"
  "sv_acceptors (set_conn c x s) = sv_acceptors s" "sv_conns (set_conn c x s) = (sv_conns s)(c \<mapsto> x)"
  "sv_closed (set_conn c x s) = sv_closed s" "sv_ctxDone (set_conn c x s) = sv_ctxDone s"
  by (simp_all add: set_conn_def)

lemmas server_defs = Server_Start_def start_serving_def serve_accept_def serve_error_def tryAcquireSession_def
  conn_done_def releaseSession_def Server_Close_def session_step_def

lemma owner_other [simp]:
  "owner_inv (s\<lparr>sv_wg := n\<rparr>) = owner_inv s" "owner_inv (s\<lparr>sv_acceptors := m\<rparr>) = owner_inv s"
  "owner_inv (s\<lparr>sv_listener := l\<rparr>) = owner_inv s" "owner_inv (s\<lparr>sv_closed := b\<rparr>) = owner_inv s"
  "owner_inv (s\<lparr>sv_ctxDone := b\<rparr>) = owner_inv s"
  by (simp_all add: owner_inv_def)

text \<open>A connection that does not serve, before and after.\<close>

lemma owner_idle:
  assumes "owner_inv s" and "\<And>w. sv_conns s c \<noteq> Some (Serving w)" and "\<And>w. x \<noteq> Serving w"
  shows "owner_inv (set_conn c x s)"
  using assms by (auto simp: owner_inv_def)

lemma owner_serving:
  "owner_inv s \<Longrightarrow> sv_conns s c = Some (Serving w) \<Longrightarrow> owner_inv (set_conn c (Serving z) s)"
  by (auto simp: owner_inv_def)

lemma owner_acquire:
  "owner_inv s \<Longrightarrow> sv_session s = None \<Longrightarrow> owner_inv (set_conn c (Serving w) (s\<lparr>sv_session := Some c\<rparr>))"
  by (auto simp: owner_inv_def set_conn_def)

lemma owner_release:
  assumes "owner_inv s" and "sv_conns s c = Some (Serving w)"
  shows "owner_inv (set_conn c (Released w') (releaseSession c s))" "sv_session s = Some c"
proof -
  show "sv_session s = Some c"
    using assms by (auto simp: owner_inv_def)
  with assms show "owner_inv (set_conn c (Released w') (releaseSession c s))"
    by (auto simp: owner_inv_def releaseSession_def set_conn_def)
qed

lemma owner_step:
  assumes "owner_inv s" and "sexec l s = Some t"
  shows "owner_inv t"
proof (cases l)
  case (VRelease c)
  with assms show ?thesis
    by (auto intro: owner_release split: option.splits connection.splits if_splits)
next
  case (VSession c l')
  with assms show ?thesis
    by (auto simp: session_step_def intro: owner_idle owner_serving split: option.splits connection.splits if_splits)
next
  case (VAcquire c now wr)
  with assms show ?thesis
    by (auto simp: tryAcquireSession_def owner_acquire intro: owner_idle split: option.splits connection.splits if_splits)
qed (use assms in \<open>auto simp: server_defs intro!: owner_idle split: option.splits connection.splits if_splits\<close>)

lemma count_other [simp]:
  "count_inv (s\<lparr>sv_session := p\<rparr>) = count_inv s" "count_inv (s\<lparr>sv_listener := l\<rparr>) = count_inv s"
  "count_inv (s\<lparr>sv_closed := b\<rparr>) = count_inv s" "count_inv (s\<lparr>sv_ctxDone := b\<rparr>) = count_inv s"
  by (simp_all add: count_inv_def)

lemma live_member: "sv_conns s c = Some x \<Longrightarrow> c \<in> live s \<longleftrightarrow> \<not> is_done x"
  by (auto simp: live_def is_done_def split: connection.splits)

lemma count_keep:
  assumes "count_inv s" and "sv_conns s c = Some x" and "is_done y = is_done x"
  shows "count_inv (set_conn c y s)"
  using assms live_member [OF assms(2)] by (auto simp: count_inv_def live_set_conn insert_absorb)

lemma count_done:
  assumes "count_inv s" and "sv_conns s c = Some x" and "\<not> is_done x"
  shows "count_inv (conn_done c out w s)"
proof -
  have "c \<in> live s" "finite (live s)"
    using assms live_member [OF assms(2)] by (auto simp: count_inv_def)
  then have "0 < card (live s)"
    by (auto simp: card_gt_0_iff)
  with assms(1) \<open>c \<in> live s\<close> show ?thesis
    by (simp add: conn_done_def count_inv_def live_set_conn is_done_def)
qed

lemma count_accept:
  assumes "count_inv s" and "sv_conns s c = None"
  shows "count_inv (serve_accept c remote s)"
proof -
  have "c \<notin> live s"
    using assms(2) by (simp add: live_def)
  with assms(1) show ?thesis
    by (simp add: serve_accept_def count_inv_def live_set_conn is_done_def)
qed

lemma count_step:
  assumes "count_inv s" and "sexec l s = Some t"
  shows "count_inv t"
proof (cases l)
  case (VStart listen)
  with assms show ?thesis
    by (auto simp: Server_Start_def start_serving_def count_inv_def split: if_splits)
next
  case (VAccept c remote)
  with assms show ?thesis
    by (auto simp: count_accept split: if_splits)
next
  case VAcceptError
  with assms show ?thesis
    by (auto simp: serve_error_def count_inv_def split: if_splits)
qed (use assms in \<open>auto simp: tryAcquireSession_def releaseSession_def Server_Close_def session_step_def is_done_def
      intro: count_keep count_done split: option.splits connection.splits if_splits\<close>)

lemma sessions_other [simp]:
  "sessions_inv (s\<lparr>sv_session := p\<rparr>) = sessions_inv s" "sessions_inv (s\<lparr>sv_listener := l\<rparr>) = sessions_inv s"
  "sessions_inv (s\<lparr>sv_closed := b\<rparr>) = sessions_inv s" "sessions_inv (s\<lparr>sv_ctxDone := b\<rparr>) = sessions_inv s"
  "sessions_inv (s\<lparr>sv_wg := n\<rparr>) = sessions_inv s" "sessions_inv (s\<lparr>sv_acceptors := m\<rparr>) = sessions_inv s"
  by (simp_all add: sessions_inv_def)

lemma sessions_set:
  "sessions_inv s \<Longrightarrow> (\<And>w. session_of x = Some w \<Longrightarrow> session_inv w) \<Longrightarrow> sessions_inv (set_conn c x s)"
  by (auto simp: sessions_inv_def)

lemma sessions_member:
  "sessions_inv s \<Longrightarrow> sv_conns s c = Some x \<Longrightarrow> session_of x = Some w \<Longrightarrow> session_inv w"
  by (simp add: sessions_inv_def)

lemma session_inv_close: "session_inv w \<Longrightarrow> session_inv (w\<lparr>w_open := False\<rparr>)"
  by (simp add: session_inv_def life_inv_def result_inv_def)

lemma sessions_step:
  assumes "sessions_inv s" and "sexec l s = Some t"
  shows "sessions_inv t"
proof (cases l)
  case (VSession c l')
  have "session_inv w'" if "sv_conns s c = Some x" "session_of x = Some w" "exec l' w = Some w'" for x w w'
    using sessions_member [OF assms(1) that(1,2)] that(3) by (rule sessions.inv_step)
  with VSession assms show ?thesis
    by (auto simp: session_step_def intro!: sessions_set split: option.splits connection.splits if_splits)
next
  case (VAcquire c now wr)
  with assms show ?thesis
    using sessions.inv_start [OF session_start_Run]
    by (auto simp: tryAcquireSession_def intro!: sessions_set split: option.splits connection.splits if_splits)
next
  case (VRelease c)
  with assms show ?thesis
    using sessions_member [OF assms(1), of c]
    by (auto simp: releaseSession_def intro!: sessions_set split: option.splits connection.splits if_splits)
next
  case (VFinish c)
  with assms show ?thesis
    using sessions_member [OF assms(1), of c]
    by (auto simp: conn_done_def intro!: sessions_set session_inv_close split: option.splits connection.splits if_splits)
qed (use assms in \<open>auto simp: server_defs intro!: sessions_set split: option.splits connection.splits if_splits\<close>)

definition server_start :: "server \<Rightarrow> bool" where
  "server_start s \<longleftrightarrow> (\<exists>addr. s = NewServer addr)"

interpretation servers: transition_system server_start "\<lambda>s l t. sexec l s = Some t" server_inv
proof
  show "server_inv s" if "server_start s" for s
    using that
    by (auto simp: server_start_def NewServer_def server_inv_def owner_inv_def count_inv_def sessions_inv_def live_def)
  show "server_inv t" if "server_inv s" "sexec l s = Some t" for s l t
    using that owner_step count_step sessions_step unfolding server_inv_def by blast
qed

lemma run_sexecs: "servers.run s ls t \<longleftrightarrow> sexecs ls s = Some t"
proof
  show "servers.run s ls t \<Longrightarrow> sexecs ls s = Some t"
    by (induction rule: servers.run.induct) simp_all
  show "sexecs ls s = Some t \<Longrightarrow> servers.run s ls t"
    by (induction ls arbitrary: s) (auto intro: servers.run.intros split: option.splits)
qed

lemma reachable_server: "sexecs ls (NewServer addr) = Some s \<Longrightarrow> server_inv s"
  using servers.reach_inv [of "NewServer addr" ls s] by (auto simp: run_sexecs server_start_def)

section \<open>Specification\<close>

text \<open>
  What the server promises: one slot that a connection takes when it is free, gives back when its
  session is over, and that nobody else can take meanwhile.
\<close>

datatype slot_event = Take nat | Give nat | Internal

fun slot_step :: "nat option \<Rightarrow> slot_event \<Rightarrow> nat option \<Rightarrow> bool" where
  "slot_step p (Take c) q = (p = None \<and> q = Some c)"
| "slot_step p (Give c) q = (p = Some c \<and> q = None)"
| "slot_step p Internal q = (q = p)"

fun slot_event_of :: "server_label \<Rightarrow> server \<Rightarrow> slot_event" where
  "slot_event_of (VAcquire c now wr) s = (if sv_session s = None then Take c else Internal)"
| "slot_event_of (VRelease c) s = Give c"
| "slot_event_of _ s = Internal"

section \<open>Properties\<close>

text \<open>
  C6: at most one session at a time. In every state that the server reaches, under any interleaving
  of its goroutines, the session pointer names exactly the connection that is being served, so
  two connections are never served at once; and every session under the server satisfies the
  invariant of the session model.
\<close>

theorem single_session:
  assumes "sexecs ls (NewServer addr) = Some s"
    and "sv_conns s c = Some (Serving w)" and "sv_conns s d = Some (Serving v)"
  shows "c = d \<and> sv_session s = Some c \<and> Server_IsActive s \<and> session_inv w"
proof -
  have "sv_session s = Some c" "sv_session s = Some d" "sessions_inv s"
    using reachable_server [OF assms(1)] assms(2,3) by (auto simp: server_inv_def owner_inv_def)
  then show ?thesis
    using sessions_member [of s c "Serving w" w] assms(2) by (simp add: Server_IsActive_def)
qed

lemma sample_server:
  "sexecs [VStart (\<lambda>n a. True), VAccept 0 None, VAccept 1 None, VAcquire 0 5 True] (NewServer '':9'') =
   Some ((NewServer '':9'')\<lparr>sv_listener := Listening, sv_acceptors := 1, sv_wg := 3, sv_session := Some 0,
     sv_conns := [1 \<mapsto> Accepted None, 0 \<mapsto> Serving (Run True (new_world 5 None))]\<rparr>)"
  by (simp add: NewServer_def Server_Start_def start_serving_def serve_accept_def set_conn_def tryAcquireSession_def
      fun_upd_twist)

theorem single_session_witness:
  "\<exists>s. sexecs [VStart (\<lambda>n a. True), VAccept 0 None, VAccept 1 None, VAcquire 0 5 True] (NewServer '':9'') = Some s \<and>
     sv_session s = Some 0 \<and> session_inv (Run True (new_world 5 None))"
  using single_session [OF sample_server, of 0 "Run True (new_world 5 None)" 0 "Run True (new_world 5 None)"]
    sample_server by simp

text \<open>
  C10: the server refines the slot specification: every step of every reachable state takes the
  free slot, gives back the slot of the session that ended, or leaves it alone. In particular
  the compare-and-swap with which a session is released never fails, and while a session is
  active every other connection is refused.
\<close>

theorem server_refines_slot:
  assumes "sexecs ls (NewServer addr) = Some s" and "sexec l s = Some t"
  shows "slot_step (sv_session s) (slot_event_of l s) (sv_session t)"
proof -
  have own: "owner_inv s"
    using reachable_server [OF assms(1)] by (simp add: server_inv_def)
  show ?thesis
    using assms(2) owner_release(2) [OF own]
    by (cases l) (auto simp: server_defs split: option.splits connection.splits if_splits)
qed

theorem server_refines_slot_witness:
  "\<exists>s. sexec (VAcquire 1 6 True) s \<noteq> None \<and> slot_step (sv_session s) Internal (Some 0)"
proof -
  let ?s = "(NewServer '':9'')\<lparr>sv_listener := Listening, sv_acceptors := 1, sv_wg := 3, sv_session := Some 0,
     sv_conns := [1 \<mapsto> Accepted None, 0 \<mapsto> Serving (Run True (new_world 5 None))]\<rparr>"
  have "sexec (VAcquire 1 6 True) ?s = Some (set_conn 1 Refused ?s)"
    by (simp add: tryAcquireSession_def)
  from server_refines_slot [OF sample_server this] this show ?thesis
    by (intro exI [of _ ?s]) simp
qed




lemma sample_closed:
  "sexecs [VStart (\<lambda>n a. True), VClose, VAcceptError] (NewServer '':9'') =
   Some ((NewServer '':9'')\<lparr>sv_listener := ListenerClosed, sv_closed := True, sv_ctxDone := True\<rparr>)"
  by (simp add: NewServer_def Server_Start_def start_serving_def Server_Close_def serve_error_def)


text \<open>
  The network that \<^verbatim>\<open>Start\<close> listens on follows the address: \<^verbatim>\<open>tcp4\<close> for a dotted IPv4 address with
  any port, \<^verbatim>\<open>tcp\<close> for a port alone and for an address without a port.
\<close>

lemma listen_network_ipv4:
  assumes "a < 256" "b < 256" "c < 256" "d < 256" and "list_all plain_char port"
  shows "ListenNetwork (dotted a b c d @ '':'' @ port) = ''tcp4'' \<and> ListenNetwork ('':'' @ port) = ''tcp'' \<and>
    ListenNetwork port = ''tcp''"
proof (intro conjI)
  have dp: "list_all plain_char (dotted a b c d)"
    by (simp add: dotted_def show_nat_plain) (simp add: plain_char_def)
  have "SplitHostPort (dotted a b c d @ '':'' @ port) = Inr (dotted a b c d, port)"
    using plain_no_brackets [OF dp] plain_no_brackets [OF assms(5)] by (intro SplitHostPort_plain) blast+
  then show "ListenNetwork (dotted a b c d @ '':'' @ port) = ''tcp4''"
    using ParseIP_dotted [OF assms(1-4)]
    by (simp add: ListenNetwork_def To4_def v4InV6Prefix_def numeral_eq_Suc)
  have "SplitHostPort ([] @ '':'' @ port) = Inr ([], port)"
    using plain_no_brackets [OF assms(5)] by (intro SplitHostPort_plain) (simp_all add: no_brackets_def)
  moreover have "ParseIP [] = None"
    by (simp add: ParseIP_def)
  ultimately show "ListenNetwork ('':'' @ port) = ''tcp''"
    by (simp add: ListenNetwork_def)
  show "ListenNetwork port = ''tcp''"
    using SplitHostPort_no_colon plain_no_brackets [OF assms(5)] by (simp add: ListenNetwork_def)
qed

end
