(* ===== verification/Cli.thy ===== *)
theory Cli
  imports GoTime GoFlag Config Report Server Client
begin

text \<open>
  \<^verbatim>\<open>cmd/udpdiag/main.go\<close>: the command line. What the program prints is a list of outputs; the texts of errors
  and of the help are not spelled out, an error is the value it was made from. What the operating
  system and the server answer to the \<open>i\<close>-th test is its \<open>test_env\<close>.
\<close>

section \<open>Flags\<close>

definition server_flags :: flag_set where
  "server_flags = [(''listen'', StringVar '':18080'')]"

definition client_flags :: flag_set where
  "client_flags =
     [(''target4'', StringVar []), (''target6'', StringVar []), (''control-port'', IntVar 18080),
      (''direction'', StringVar ''both''), (''ports'', StringVar []), (''min-size'', IntVar 1200),
      (''max-size'', IntVar 1472), (''step'', IntVar 136), (''count'', IntVar 100), (''interval'', StringVar ''10ms''),
      (''max-estimated-duration'', StringVar ''5m'')]"

datatype cli_error =
    FlagErr flag_error
  | UnexpectedArgs "string list"
  | DirectionErr string
  | IntervalErr duration_error
  | MaxDurationErr duration_error
  | ConfigErr config_error
  | ConnectErr client_error
  | TestErr client_error
  | StartErr server_error
  | UnknownSubcommand string

datatype cli_output = Stdout string | Stderr cli_error | Usage | TopLevelHelp

text \<open>Outputs and exit status of a program that ends.\<close>

type_synonym exit = "cli_output list \<times> goint"

text \<open>
  Parsing the flags: the values, or the end of the program. The package reports an error and prints the usage
  itself; the program then prints the error again.
\<close>

definition parse_args :: "flag_set \<Rightarrow> string list \<Rightarrow> exit + flag_set" where
  "parse_args defaults args =
     (case parse_flags defaults args of
        Inl e \<Rightarrow>
          if e = ErrHelp then Inl ([Usage], 0)
          else Inl ([Stderr (FlagErr e), Usage, Stderr (FlagErr e)], 1)
      | Inr (fs, rest) \<Rightarrow> if rest \<noteq> [] then Inl ([Stderr (UnexpectedArgs rest), Usage], 1) else Inr fs)"

section \<open>The server\<close>

datatype outcome = Exits exit | Serves "cli_output list" server

definition serverMain :: "(string \<Rightarrow> string \<Rightarrow> bool) \<Rightarrow> string list \<Rightarrow> outcome" where
  "serverMain listen args =
     (case parse_args server_flags args of
        Inl x \<Rightarrow> Exits x
      | Inr fs \<Rightarrow>
          let addr = get_string fs ''listen'' in
          (case Server_Start listen (NewServer addr) of
             (Inl e, _) \<Rightarrow> Exits ([Stderr (StartErr e)], 1)
           | (Inr _, server) \<Rightarrow> Serves [Stdout (''Server listening on '' @ addr)] server))"

section \<open>The client\<close>

definition client_config :: "flag_set \<Rightarrow> cli_error + ClientConfig" where
  "client_config fs =
     rbind (map_err DirectionErr (ParseDirection (get_string fs ''direction''))) (\<lambda>dir.
     rbind (map_err IntervalErr (ParseDuration (get_string fs ''interval''))) (\<lambda>intervalDur.
     rbind (map_err MaxDurationErr (ParseDuration (get_string fs ''max-estimated-duration''))) (\<lambda>maxEstDur.
     map_err ConfigErr (NewClientConfig (get_string fs ''target4'') (get_string fs ''target6'')
       (get_int_flag fs ''control-port'') dir (get_string fs ''ports'') (get_int_flag fs ''min-size'')
       (get_int_flag fs ''max-size'') (get_int_flag fs ''step'') (get_int_flag fs ''count'') intervalDur maxEstDur))))"

definition control_target :: "ClientConfig \<Rightarrow> SweepPlan \<Rightarrow> string" where
  "control_target cfg plan =
     (let controlTarget = (if SPFamily plan = FamilyIPv6 then Target6 cfg else Target4 cfg)
      in if controlTarget = [] then if Target4 cfg \<noteq> [] then Target4 cfg else Target6 cfg
         else controlTarget)"

definition server_addr :: "ClientConfig \<Rightarrow> SweepPlan \<Rightarrow> string" where
  "server_addr cfg plan = JoinHostPort (control_target cfg plan) (show_int (ControlPort cfg))"

text \<open>\<^verbatim>\<open>Duration.Milliseconds\<close>: integer division truncates towards zero.\<close>

definition Milliseconds :: "goint \<Rightarrow> goint" where
  "Milliseconds d = (if d < 0 then - ((- d) div 1000000) else d div 1000000)"

definition test_params :: "ClientConfig \<Rightarrow> SweepPlan \<Rightarrow> ClientParams" where
  "test_params cfg plan = \<lparr>cp_Direction = SPDirection plan, cp_Family = SPFamily plan, cp_Target4 = Target4 cfg,
     cp_Target6 = Target6 cfg, cp_Port = SPPort plan, cp_PayloadSize = SPPayloadSize plan, cp_PacketCount = Count cfg,
     cp_IntervalMs = Milliseconds (Interval cfg)\<rparr>"

record test_env = both_env +
  te_dial :: "string \<Rightarrow> bool"
  te_wr :: "bool list"
  te_in :: "(frame_error + json option) list"

text \<open>
  One test. The outer error is a connection that cannot be opened; the connections are returned as
  the test leaves them.
\<close>

definition run_plan ::
  "test_env \<Rightarrow> ClientConfig \<Rightarrow> SweepPlan \<Rightarrow> client_error + (client_error + ClientResult list) \<times> client_io list"
where
  "run_plan te cfg plan =
     (let params = test_params cfg plan;
          conn = NewClientConn (te_dial te) (te_wr te) (te_in te) (server_addr cfg plan)
      in if SPDirection plan = DirectionUplink then
           rbind conn (\<lambda>client.
             case RunUplink (be_now te) (be_udp te) params client of
               (Inl e, io) \<Rightarrow> Inr (Inl e, [Client_Close io])
             | (Inr r, io) \<Rightarrow> Inr (Inr [r], [Client_Close io]))
         else if SPDirection plan = DirectionDownlink then
           rbind conn (\<lambda>client.
             case RunDownlink (be_now' te) (be_udp' te) params client of
               (Inl e, io) \<Rightarrow> Inr (Inl e, [Client_Close io])
             | (Inr r, io) \<Rightarrow> Inr (Inr [r], [Client_Close io]))
         else if SPDirection plan = DirectionBoth then
           rbind conn (\<lambda>client.
             case RunBoth (both_env.truncate te) params client of
               (r, io, second) \<Rightarrow> Inr (r, Client_Close io # (case second of None \<Rightarrow> [] | Some io \<Rightarrow> [io])))
         else Inr (Inr [], []))"

definition running_line :: "nat \<Rightarrow> nat \<Rightarrow> SweepPlan \<Rightarrow> string" where
  "running_line i n plan =
     ''Running test '' @ show_nat i @ ''/'' @ show_nat n @ '': family='' @ Family_String (SPFamily plan) @
     '' port='' @ show_int (SPPort plan) @ '' direction='' @ Direction_String (SPDirection plan) @
     '' size='' @ show_int (SPPayloadSize plan)"

definition progress_line :: "ClientResult \<Rightarrow> string" where
  "progress_line r =
     (let dirStr = (if cr_Direction r = DirectionDownlink then ''downlink'' else ''uplink'');
          lossPct = (if 0 < cr_Sent r
                     then f64_mul (f64_div (f64_of_int (cr_Lost r)) (f64_of_int (cr_Sent r))) (f64_const 100)
                     else F64 False 0)
      in ''  ['' @ dirStr @ ''] sent='' @ show_int (cr_Sent r) @ '' received='' @ show_int (cr_Received r) @
         '' lost='' @ show_int (cr_Lost r) @ '' loss='' @ fmt_1f lossPct @ ''%'')"

definition report_result :: "ClientConfig \<Rightarrow> SweepPlan \<Rightarrow> ClientResult \<Rightarrow> TestResult" where
  "report_result cfg plan r = \<lparr>
     tr_TargetAddress = (if SPFamily plan = FamilyIPv6 then Target6 cfg else Target4 cfg),
     tr_Family = SPFamily plan, tr_Direction = cr_Direction r, tr_UDPPort = SPPort plan,
     tr_PayloadSize = SPPayloadSize plan, tr_Sent = cr_Sent r, tr_Received = cr_Received r, tr_Lost = cr_Lost r\<rparr>"

text \<open>The loop over the plans: outputs, the results for the report and \<^verbatim>\<open>hasFailure\<close>, or \<open>None\<close> on \<^verbatim>\<open>os.Exit(1)\<close>.\<close>

fun plan_loop ::
  "(nat \<Rightarrow> test_env) \<Rightarrow> ClientConfig \<Rightarrow> nat \<Rightarrow> nat \<Rightarrow> SweepPlan list \<Rightarrow> cli_output list \<Rightarrow> TestResult list \<Rightarrow> bool \<Rightarrow>
     cli_output list \<times> (TestResult list \<times> bool) option"
where
  "plan_loop envs cfg n i [] out rs hasFailure = (out, Some (rs, hasFailure))"
| "plan_loop envs cfg n i (plan # plans) out rs hasFailure =
     (let out = out @ [Stdout (running_line (i + 1) n plan)] in
      case run_plan (envs i) cfg plan of
        Inl e \<Rightarrow> (out @ [Stderr (ConnectErr e)], None)
      | Inr (Inl e, _) \<Rightarrow> plan_loop envs cfg n (i + 1) plans (out @ [Stderr (TestErr e)]) rs True
      | Inr (Inr results, _) \<Rightarrow>
          plan_loop envs cfg n (i + 1) plans (out @ map (\<lambda>r. Stdout (progress_line r)) results)
            (rs @ map (report_result cfg plan) results) hasFailure)"

text \<open>The parts of the Go library whose results are not determined: see \<open>Report\<close> and \<open>GoFloat\<close>.\<close>

record runtime =
  rt_oor :: "f64 \<Rightarrow> int"
  rt_order :: "(GroupKey \<times> TestResult list) list \<Rightarrow> (GroupKey \<times> TestResult list) list"
  rt_sort_results :: "(TestResult \<Rightarrow> TestResult \<Rightarrow> bool) \<Rightarrow> TestResult list \<Rightarrow> TestResult list"
  rt_sort_groups :: "(Group \<Rightarrow> Group \<Rightarrow> bool) \<Rightarrow> Group list \<Rightarrow> Group list"

definition final_report :: "runtime \<Rightarrow> string \<Rightarrow> TestResult list \<Rightarrow> cli_output list" where
  "final_report rt estimatedDuration rs =
     (if rs \<noteq> []
      then [Stdout [], Stdout (FormatReport (BuildReport (rt_order rt) (rt_sort_results rt) (rt_sort_groups rt) rs
              estimatedDuration))]
      else [])"

definition run_sweep :: "runtime \<Rightarrow> (nat \<Rightarrow> test_env) \<Rightarrow> ClientConfig \<Rightarrow> SweepPlan list \<Rightarrow> exit" where
  "run_sweep rt envs cfg plans =
     (let estimatedDuration = Duration_String (EstimateDuration (rt_oor rt) cfg plans) in
      case plan_loop envs cfg (length plans) 0 plans [] [] False of
        (out, None) \<Rightarrow> (out, 1)
      | (out, Some (rs, hasFailure)) \<Rightarrow>
          let out = out @ final_report rt estimatedDuration rs in
          if hasFailure then (out @ [Stdout ''Client completed with failures''], 1)
          else (out @ [Stdout ''Client completed successfully''], 0))"

text \<open>After the flags: \<open>None\<close> when building the plan does not end.\<close>

definition client_run :: "runtime \<Rightarrow> (nat \<Rightarrow> test_env) \<Rightarrow> cli_error + ClientConfig \<Rightarrow> exit option" where
  "client_run rt envs config =
     (case config of
        Inl e \<Rightarrow> Some ([Stderr e, Usage], 1)
      | Inr cfg \<Rightarrow>
          (case BuildSweepPlan cfg of
             None \<Rightarrow> None
           | Some (Inl e) \<Rightarrow> Some ([Stderr (ConfigErr e), Usage], 1)
           | Some (Inr plans) \<Rightarrow>
               (case CheckDurationLimit (rt_oor rt) cfg plans of
                  Inl e \<Rightarrow> Some ([Stderr (ConfigErr e), Usage], 1)
                | Inr _ \<Rightarrow> Some (run_sweep rt envs cfg plans))))"

definition clientMain :: "runtime \<Rightarrow> (nat \<Rightarrow> test_env) \<Rightarrow> string list \<Rightarrow> exit option" where
  "clientMain rt envs args =
     (case parse_args client_flags args of
        Inl x \<Rightarrow> Some x
      | Inr fs \<Rightarrow> client_run rt envs (client_config fs))"

text \<open>\<^verbatim>\<open>main\<close> on the arguments after the program's name.\<close>

definition main ::
  "(string \<Rightarrow> string \<Rightarrow> bool) \<Rightarrow> runtime \<Rightarrow> (nat \<Rightarrow> test_env) \<Rightarrow> string list \<Rightarrow> outcome option"
where
  "main listen rt envs args =
     (case args of
        [] \<Rightarrow> Some (Exits ([TopLevelHelp], 1))
      | cmd # rest \<Rightarrow>
          if cmd = ''server'' then Some (serverMain listen rest)
          else if cmd = ''client'' then map_option Exits (clientMain rt envs rest)
          else if cmd \<in> {''help'', ''--help'', ''-h''} then Some (Exits ([TopLevelHelp], 0))
          else Some (Exits ([Stderr (UnknownSubcommand cmd), TopLevelHelp], 1)))"

section \<open>The arguments\<close>

text \<open>The client's command line that states every flag.\<close>

definition flag_values ::
  "string \<Rightarrow> string \<Rightarrow> goint \<Rightarrow> Direction \<Rightarrow> string \<Rightarrow> goint \<Rightarrow> goint \<Rightarrow> goint \<Rightarrow> goint \<Rightarrow> goint \<Rightarrow> goint \<Rightarrow> flag_set"
where
  "flag_values target4 target6 controlPort dir ports minSize maxSize stp cnt interval maxDur =
     [(''target4'', StringVar target4), (''target6'', StringVar target6), (''control-port'', IntVar controlPort),
      (''direction'', StringVar (Direction_String dir)), (''ports'', StringVar ports), (''min-size'', IntVar minSize),
      (''max-size'', IntVar maxSize), (''step'', IntVar stp), (''count'', IntVar cnt),
      (''interval'', StringVar (Duration_String interval)),
      (''max-estimated-duration'', StringVar (Duration_String maxDur))]"

lemma parse_args_assignments:
  assumes "list_all2 (\<lambda>(n, v) (m, w). n = m \<and> flag_name n \<and> same_kind v w) fs ws" and "distinct (map fst fs)"
  shows "parse_args fs (map assignment ws) = Inr ws"
  using parse_assignments [OF assms(1), of "[]"] assms(2) by (simp add: parse_args_def)

lemma client_config_values:
  assumes "ValidateDirection dir" "in_int64 interval" "in_int64 maxDur"
  shows "client_config (flag_values target4 target6 controlPort dir ports minSize maxSize stp cnt interval maxDur) =
     map_err ConfigErr (NewClientConfig target4 target6 controlPort dir ports minSize maxSize stp cnt interval maxDur)"
  using direction_text.dec_enc [OF assms(1)] durations.dec_enc [OF assms(2)] durations.dec_enc [OF assms(3)]
  by (simp add: client_config_def flag_values_def get_string_def get_int_flag_def)

section \<open>The sweep\<close>

text \<open>What one test contributes: its outputs, its results for the report, whether it failed.\<close>

definition connects :: "(nat \<Rightarrow> test_env) \<Rightarrow> ClientConfig \<Rightarrow> nat \<times> SweepPlan \<Rightarrow> bool" where
  "connects envs cfg kp = (\<exists>x. run_plan (envs (fst kp)) cfg (snd kp) = Inr x)"

definition test_outputs :: "(nat \<Rightarrow> test_env) \<Rightarrow> ClientConfig \<Rightarrow> nat \<Rightarrow> nat \<times> SweepPlan \<Rightarrow> cli_output list" where
  "test_outputs envs cfg n kp =
     Stdout (running_line (fst kp + 1) n (snd kp)) #
     (case run_plan (envs (fst kp)) cfg (snd kp) of
        Inl e \<Rightarrow> [Stderr (ConnectErr e)]
      | Inr (Inl e, _) \<Rightarrow> [Stderr (TestErr e)]
      | Inr (Inr results, _) \<Rightarrow> map (\<lambda>r. Stdout (progress_line r)) results)"

definition test_results :: "(nat \<Rightarrow> test_env) \<Rightarrow> ClientConfig \<Rightarrow> nat \<times> SweepPlan \<Rightarrow> TestResult list" where
  "test_results envs cfg kp =
     (case run_plan (envs (fst kp)) cfg (snd kp) of
        Inr (Inr results, _) \<Rightarrow> map (report_result cfg (snd kp)) results
      | _ \<Rightarrow> [])"

definition test_fails :: "(nat \<Rightarrow> test_env) \<Rightarrow> ClientConfig \<Rightarrow> nat \<times> SweepPlan \<Rightarrow> bool" where
  "test_fails envs cfg kp = (\<exists>e ios. run_plan (envs (fst kp)) cfg (snd kp) = Inr (Inl e, ios))"

lemma plan_loop_spec:
  "plan_loop envs cfg n i plans out rs failed =
     (let ps = enumerate i plans; ran = takeWhile (connects envs cfg) ps in
      if ran = ps
      then (out @ concat (map (test_outputs envs cfg n) ps),
            Some (rs @ concat (map (test_results envs cfg) ps), failed \<or> (\<exists>kp \<in> set ps. test_fails envs cfg kp)))
      else (out @ concat (map (test_outputs envs cfg n) (take (length ran + 1) ps)), None))"
proof (induction plans arbitrary: i out rs failed)
  case (Cons plan plans)
  consider (dial) e where "run_plan (envs i) cfg plan = Inl e"
    | (fail) e ios where "run_plan (envs i) cfg plan = Inr (Inl e, ios)"
    | (ok) results ios where "run_plan (envs i) cfg plan = Inr (Inr results, ios)"
    by (metis sum.exhaust surj_pair)
  then show ?case
  proof cases
    case dial
    then show ?thesis
      by (simp add: connects_def test_outputs_def)
  next
    case fail
    then have "connects envs cfg (i, plan)" "test_fails envs cfg (i, plan)"
      "test_outputs envs cfg n (i, plan) = [Stdout (running_line (i + 1) n plan), Stderr (TestErr e)]"
      "test_results envs cfg (i, plan) = []"
      by (simp_all add: connects_def test_fails_def test_outputs_def test_results_def)
    with fail show ?thesis
      by (simp add: Cons.IH Let_def)
  next
    case ok
    then have "connects envs cfg (i, plan)" "\<not> test_fails envs cfg (i, plan)"
      "test_outputs envs cfg n (i, plan) =
         Stdout (running_line (i + 1) n plan) # map (\<lambda>r. Stdout (progress_line r)) results"
      "test_results envs cfg (i, plan) = map (report_result cfg plan) results"
      by (simp_all add: connects_def test_fails_def test_outputs_def test_results_def)
    with ok show ?thesis
      by (simp add: Cons.IH Let_def)
  qed
qed simp

section \<open>Properties\<close>

text \<open>
  C27: the command line round trip. A command line that states every flag as \<open>-name=value\<close>, with the
  direction and the durations as the program itself prints them, makes the client run exactly with the
  configuration that \<^verbatim>\<open>NewClientConfig\<close> builds from these values, whatever they are; a rejected
  configuration ends the program with its error, the usage and status 1.
\<close>

theorem client_args_accepted:
  assumes "ValidateDirection dir" and "in_int64 controlPort" and "in_int64 minSize" and "in_int64 maxSize" and "in_int64 stp"
    and "in_int64 cnt" and "in_int64 interval" and "in_int64 maxDur"
  shows "clientMain rt envs
      (map assignment (flag_values target4 target6 controlPort dir ports minSize maxSize stp cnt interval maxDur)) =
    client_run rt envs (map_err ConfigErr
      (NewClientConfig target4 target6 controlPort dir ports minSize maxSize stp cnt interval maxDur))"
proof -
  have "parse_args client_flags
      (map assignment (flag_values target4 target6 controlPort dir ports minSize maxSize stp cnt interval maxDur)) =
    Inr (flag_values target4 target6 controlPort dir ports minSize maxSize stp cnt interval maxDur)"
    using assms by (intro parse_args_assignments) (simp_all add: client_flags_def flag_values_def flag_name_def)
  then show ?thesis
    using client_config_values [OF assms(1,7,8)] by (simp add: clientMain_def)
qed

theorem client_args_accepted_witness:
  "\<forall>rt envs. clientMain rt envs
       (map assignment (flag_values ''10.0.0.1'' [] 18080 DirectionBoth [] 1200 1472 136 100 10000000 300000000000)) =
     Some ([Stderr (ConfigErr (InvalidPorts EmptySpec)), Usage], 1)"
proof (intro allI)
  fix rt envs
  show "clientMain rt envs
       (map assignment (flag_values ''10.0.0.1'' [] 18080 DirectionBoth [] 1200 1472 136 100 10000000 300000000000)) =
     Some ([Stderr (ConfigErr (InvalidPorts EmptySpec)), Usage], 1)"
    using client_args_accepted [of DirectionBoth 18080 1200 1472 136 100 10000000 300000000000 rt envs "''10.0.0.1''" "[]" "[]"]
    by (simp add: ValidateDirection_def in_int64_def NewClientConfig_def ParsePorts_def client_run_def map_err_def)
qed

text \<open>
  C4: the sweep runs the planned tests in their order. If every connection opens, each test prints its
  announcement and its results, a failed test only its error; the report is made of exactly
  the results of the tests that succeeded, in their order, and the exit status is 0 if none failed
  and 1 otherwise. A connection that cannot be opened ends the program with status 1 at once,
  without a report.
\<close>

theorem sweep_outcome:
  "run_sweep rt envs cfg plans =
     (let ps = enumerate 0 plans; ran = takeWhile (connects envs cfg) ps; n = length plans;
          estimate = Duration_String (EstimateDuration (rt_oor rt) cfg plans)
      in if ran = ps
         then (concat (map (test_outputs envs cfg n) ps) @
               final_report rt estimate (concat (map (test_results envs cfg) ps)) @
               [Stdout (if \<exists>kp \<in> set ps. test_fails envs cfg kp then ''Client completed with failures''
                        else ''Client completed successfully'')],
               if \<exists>kp \<in> set ps. test_fails envs cfg kp then 1 else 0)
         else (concat (map (test_outputs envs cfg n) (take (length ran + 1) ps)), 1))"
  by (simp add: run_sweep_def plan_loop_spec Let_def)

text \<open>
  C28: the pause between packets is cut to whole milliseconds. The interval that the tests use is the
  configured one rounded down to a millisecond; an interval below a millisecond, which the
  configuration accepts and the duration estimate counts, is no pause at all.
\<close>

theorem interval_truncated:
  assumes "Config_Validate cfg = Inr ()" and "in_int64 (Interval cfg)"
  shows "sc_Interval (uplink_sender_config (test_params cfg plan)) \<le> Interval cfg \<and>
    Interval cfg < sc_Interval (uplink_sender_config (test_params cfg plan)) + Millisecond \<and>
    (sc_Interval (uplink_sender_config (test_params cfg plan)) = 0) = (Interval cfg < Millisecond)"
proof -
  have pos: "0 < Interval cfg"
    using assms(1) by (simp add: Config_Validate_ok)
  define k r where "k = Interval cfg div 1000000" and "r = Interval cfg mod 1000000"
  have kr: "Interval cfg = k * 1000000 + r" "0 \<le> r" "r < 1000000"
    by (simp_all add: k_def r_def)
  have "0 \<le> k"
    using pos by (simp add: k_def pos_imp_zdiv_nonneg_iff)
  then have "wrap64 (k * 1000000) = k * 1000000"
    using assms(2) kr by (intro wrap64_id) (simp add: in_int64_def)
  then have "sc_Interval (uplink_sender_config (test_params cfg plan)) = k * 1000000"
    using pos by (simp add: uplink_sender_config_def test_params_def Milliseconds_def Millisecond_def k_def)
  then show ?thesis
    using kr pos \<open>0 \<le> k\<close> by (auto simp: Millisecond_def)
qed

theorem interval_truncated_witness:
  "sc_Interval (uplink_sender_config (test_params (sample_config\<lparr>Interval := 500000\<rparr>)
     \<lparr>SPFamily = FamilyIPv4, SPPort = 40000, SPDirection = DirectionUplink, SPPayloadSize = 1200\<rparr>)) = 0"
  using interval_truncated [of "sample_config\<lparr>Interval := 500000\<rparr>"
      "\<lparr>SPFamily = FamilyIPv4, SPPort = 40000, SPDirection = DirectionUplink, SPPayloadSize = 1200\<rparr>"]
  by (simp add: sample_config_def Config_Validate_ok in_int64_def Millisecond_def validate_dotted)

text \<open>
  C29: sizes are not limited to what a packet can have. A probe carries the planned payload size modulo
  65536 while the report states the planned one; and a configuration with a size beyond that
  range is accepted and planned, here 70000, for which 4464 bytes are sent.
\<close>

theorem payload_size_wraps:
  "uint (sc_PayloadSize (uplink_sender_config (test_params cfg plan))) = SPPayloadSize plan mod 65536 \<and>
   tr_PayloadSize (report_result cfg plan r) = SPPayloadSize plan \<and>
   (\<exists>plans p. BuildSweepPlan (sample_config\<lparr>MinSize := 70000, MaxSize := 70000\<rparr>) = Some (Inr plans) \<and> p \<in> set plans \<and>
      SPPayloadSize p = 70000 \<and>
      uint (sc_PayloadSize (uplink_sender_config (test_params (sample_config\<lparr>MinSize := 70000, MaxSize := 70000\<rparr>) p))) = 4464)"
proof -
  let ?c = "sample_config\<lparr>MinSize := 70000, MaxSize := 70000\<rparr>"
  let ?p = "\<lparr>SPFamily = FamilyIPv4, SPPort = 40000, SPDirection = DirectionUplink, SPPayloadSize = 70000\<rparr>"
  have cut: "uint (sc_PayloadSize (uplink_sender_config (test_params c q))) = SPPayloadSize q mod 65536" for c q
    by (simp add: uplink_sender_config_def test_params_def uint_word_of_int)
  have valid: "Config_Validate ?c = Inr ()"
    by (simp add: Config_Validate_ok sample_config_def validate_dotted)
  obtain plans where "BuildSweepPlan ?c = Some (Inr plans)" "?p \<in> set plans"
    using BuildSweepPlan_ok [OF valid]
    by (simp add: sample_config_def in_int64_def MaxInt_def in_expand_plans in_sizes_spec determineFamilies_def
        determineDirections_def)
  then show ?thesis
    using cut [of ?c ?p] cut [of cfg plan] by (auto simp: report_result_def intro!: exI [of _ ?p])
qed

end
