(* ===== verification/System.thy ===== *)
theory System
  imports EndToEnd Cli
begin

text \<open>
  The whole program: a sweep of the command line in which every test is served by a session.
\<close>

section \<open>The planned tests\<close>

lemma plan_shape:
  assumes "BuildSweepPlan cfg = Some (Inr plans)"
  shows "Config_Validate cfg = Inr ()"
    "\<exists>sizes. plans = expand_plans (determineFamilies (Target4 cfg) (Target6 cfg)) (sort (Ports cfg))
       (determineDirections (CDirection cfg)) sizes"
  using assms by (auto simp: BuildSweepPlan_def split: sum.splits option.splits)

lemma plan_members:
  assumes "BuildSweepPlan cfg = Some (Inr plans)" and "p \<in> set plans"
  shows "SPDirection p \<in> {DirectionUplink, DirectionDownlink}" "SPFamily p \<in> {FamilyIPv4, FamilyIPv6}"
    "SPPort p \<in> set (Ports cfg)"
    "SPFamily p = FamilyIPv4 \<Longrightarrow> Target4 cfg \<noteq> []" "SPFamily p = FamilyIPv6 \<Longrightarrow> Target6 cfg \<noteq> []"
  using plan_shape(2) [OF assms(1)] assms(2)
  by (auto simp: in_expand_plans determineDirections_def determineFamilies_def split: if_splits)

text \<open>The control connection goes to the target of the test's family, which is an address of that family.\<close>

lemma plan_target:
  assumes "BuildSweepPlan cfg = Some (Inr plans)" and "p \<in> set plans"
  shows "control_target cfg p = (if SPFamily p = FamilyIPv6 then Target6 cfg else Target4 cfg)"
    "control_target cfg p \<noteq> []"
    "validateTargetAddress (control_target cfg p) (if SPFamily p = FamilyIPv6 then ''ipv6'' else ''ipv4'') = Inr ()"
  using plan_members(2,4,5) [OF assms] plan_shape(1) [OF assms(1)]
  by (auto simp: control_target_def Config_Validate_ok)

lemma no_brackets_digits: "all_digits s \<Longrightarrow> no_brackets s"
  by (simp add: no_brackets_def all_digits_not_in)

lemma show_int_port: "0 \<le> n \<Longrightarrow> no_brackets (show_int n) \<and> CHR '':'' \<notin> set (show_int n)"
  by (simp add: show_int_nonneg no_brackets_digits all_digits_not_in)

lemma server_addr_splits:
  assumes "BuildSweepPlan cfg = Some (Inr plans)" and "p \<in> set plans"
  shows "SplitHostPort (server_addr cfg p) = Inr (control_target cfg p, show_int (ControlPort cfg))"
proof -
  have "0 \<le> ControlPort cfg"
    using plan_shape(1) [OF assms(1)] by (simp add: Config_Validate_ok)
  moreover have "no_brackets (control_target cfg p)"
    using plan_target(3) [OF assms] ParseIP_no_brackets
    by (auto simp: validateTargetAddress_def split: option.splits)
  ultimately show ?thesis
    unfolding server_addr_def by (intro Split_Join) (simp add: wf_host_port_def show_int_port)
qed

section \<open>Served tests\<close>

text \<open>
  A test of the sweep that a session serves: the connection opens, the writes succeed, what the client
  reads is what the session wrote, and \<open>as\<close> is what arrived over UDP.
\<close>

definition served_test :: "ClientConfig \<Rightarrow> SweepPlan \<Rightarrow> test_env \<Rightarrow> arrival list \<Rightarrow> bool" where
  "served_test cfg plan te as \<longleftrightarrow>
     te_dial te (server_addr cfg plan) \<and>
     (\<exists>w now remote. te_in te = map response (w_out w) \<and>
        (if SPDirection plan = DirectionUplink
         then te_wr te = replicate 5 True \<and>
           (\<exists>listen es.
              uplink_setting (be_now te) now remote listen (be_udp te) (test_params cfg plan) (nat (Count cfg)) es as \<and>
              execs (uplink_exchange listen es (written (uplink_trace (be_now te) (be_udp te) (test_params cfg plan))))
                (Run True (new_world now remote)) = Some w)
         else te_wr te = replicate 4 True \<and>
           (\<exists>listen resolve clk udp_wr.
              downlink_setting remote listen resolve clk udp_wr (be_udp' te) (test_params cfg plan) (nat (Count cfg)) as \<and>
              execs (downlink_exchange listen resolve clk udp_wr
                  (written (downlink_trace (be_now' te) (be_udp' te) (test_params cfg plan))))
                (Run True (new_world now remote)) = Some w)))"

lemma dial_conn_to:
  "dial addr \<Longrightarrow> NewClientConn dial (replicate n True) (map response ms) addr = Inr (conn_to addr n ms)"
  by (simp add: NewClientConn_def conn_to_def)

lemma run_plan_served:
  assumes "served_test cfg plan te as" and "SPDirection plan \<in> {DirectionUplink, DirectionDownlink}"
  shows "\<exists>ios. run_plan te cfg plan = Inr (Inr [measured (SPDirection plan) (nat (Count cfg)) as], ios)"
proof -
  let ?params = "test_params cfg plan" and ?addr = "server_addr cfg plan"
  obtain w now remote where te: "te_dial te ?addr" "te_in te = map response (w_out w)" and
    rest: "if SPDirection plan = DirectionUplink
         then te_wr te = replicate 5 True \<and>
           (\<exists>listen es. uplink_setting (be_now te) now remote listen (be_udp te) ?params (nat (Count cfg)) es as \<and>
              execs (uplink_exchange listen es (written (uplink_trace (be_now te) (be_udp te) ?params)))
                (Run True (new_world now remote)) = Some w)
         else te_wr te = replicate 4 True \<and>
           (\<exists>listen resolve clk udp_wr.
              downlink_setting remote listen resolve clk udp_wr (be_udp' te) ?params (nat (Count cfg)) as \<and>
              execs (downlink_exchange listen resolve clk udp_wr (written (downlink_trace (be_now' te) (be_udp' te) ?params)))
                (Run True (new_world now remote)) = Some w)"
    using assms(1) unfolding served_test_def by blast
  show ?thesis
  proof (cases "SPDirection plan = DirectionUplink")
    case True
    with rest obtain listen es where s: "te_wr te = replicate 5 True"
        "uplink_setting (be_now te) now remote listen (be_udp te) ?params (nat (Count cfg)) es as"
        "execs (uplink_exchange listen es (written (uplink_trace (be_now te) (be_udp te) ?params)))
          (Run True (new_world now remote)) = Some w"
      by auto
    from uplink_joint [OF s(2), of ?addr] s(3)
    have "fst (RunUplink (be_now te) (be_udp te) ?params (conn_to ?addr 5 (w_out w))) =
        Inr (measured DirectionUplink (nat (Count cfg)) as)"
      by simp
    then show ?thesis
      using True te(1) unfolding run_plan_def te(2) s(1)
      by (cases "RunUplink (be_now te) (be_udp te) ?params (conn_to ?addr 5 (w_out w))") (simp add: dial_conn_to Let_def)
  next
    case False
    with rest obtain listen resolve clk udp_wr where s: "te_wr te = replicate 4 True"
        "downlink_setting remote listen resolve clk udp_wr (be_udp' te) ?params (nat (Count cfg)) as"
        "execs (downlink_exchange listen resolve clk udp_wr (written (downlink_trace (be_now' te) (be_udp' te) ?params)))
          (Run True (new_world now remote)) = Some w"
      by auto
    from downlink_joint [OF s(2), of "be_now' te" now ?addr] s(3)
    have "fst (RunDownlink (be_now' te) (be_udp' te) ?params (conn_to ?addr 4 (w_out w))) =
        Inr (measured DirectionDownlink (nat (Count cfg)) as)"
      by simp
    then show ?thesis
      using False assms(2) te(1) unfolding run_plan_def te(2) s(1)
      by (cases "RunDownlink (be_now' te) (be_udp' te) ?params (conn_to ?addr 4 (w_out w))") (simp add: dial_conn_to Let_def)
  qed
qed

text \<open>A sweep in which every test is served.\<close>

lemma plan_loop_served:
  assumes "\<forall>k < length plans. \<exists>ios. run_plan (envs k) cfg (plans ! k) = Inr (Inr [r k], ios)"
  shows "takeWhile (connects envs cfg) (enumerate 0 plans) = enumerate 0 plans"
    "\<not> (\<exists>kp \<in> set (enumerate 0 plans). test_fails envs cfg kp)"
    "concat (map (test_results envs cfg) (enumerate 0 plans)) =
       map (\<lambda>k. report_result cfg (plans ! k) (r k)) [0..<length plans]"
proof -
  have en: "enumerate 0 plans = map (\<lambda>k. (k, plans ! k)) [0..<length plans]"
    by (rule nth_equalityI) (simp_all add: nth_enumerate_eq)
  have one: "test_results envs cfg (k, plans ! k) = [report_result cfg (plans ! k) (r k)]" if "k < length plans" for k
    using assms that by (auto simp: test_results_def)
  show "takeWhile (connects envs cfg) (enumerate 0 plans) = enumerate 0 plans"
    using assms by (auto simp: takeWhile_eq_all_conv en connects_def)
  show "\<not> (\<exists>kp \<in> set (enumerate 0 plans). test_fails envs cfg kp)"
    using assms by (fastforce simp: en test_fails_def)
  have "map (test_results envs cfg \<circ> (\<lambda>k. (k, plans ! k))) [0..<length plans] =
      map (\<lambda>k. [report_result cfg (plans ! k) (r k)]) [0..<length plans]"
    using one by (intro map_cong) simp_all
  then have "concat (map (test_results envs cfg) (enumerate 0 plans)) =
      concat (map (\<lambda>k. [report_result cfg (plans ! k) (r k)]) [0..<length plans])"
    unfolding en by (simp only: map_map)
  then show "concat (map (test_results envs cfg) (enumerate 0 plans)) =
       map (\<lambda>k. report_result cfg (plans ! k) (r k)) [0..<length plans]"
    by simp
qed

lemma run_sweep_served:
  assumes "\<forall>k < length plans. \<exists>ios. run_plan (envs k) cfg (plans ! k) = Inr (Inr [r k], ios)"
  shows "run_sweep rt envs cfg plans =
     (concat (map (test_outputs envs cfg (length plans)) (enumerate 0 plans)) @
      final_report rt (Duration_String (EstimateDuration (rt_oor rt) cfg plans))
        (map (\<lambda>k. report_result cfg (plans ! k) (r k)) [0..<length plans]) @
      [Stdout ''Client completed successfully''], 0)"
  using plan_loop_served [OF assms] by (simp add: run_sweep_def plan_loop_spec Let_def)

end
