(* ===== verification/Spec2Isabelle.thy ===== *)
theory Spec2Isabelle
  imports System
begin

text \<open>
  A verification development of udpdiag, a Go program that measures the loss of UDP packets between a client
  and a server, per address family, port, direction and payload size, and finds the critical payload
  size from which packets are lost.

  \<^bold>\<open>The program.\<close> \<^verbatim>\<open>udpdiag server\<close> accepts TCP control connections and serves one session at a
  time. \<^verbatim>\<open>udpdiag client\<close> turns its flags into a configuration, the configuration into a plan of
  tests, and runs each test over a control connection: hello, prepare, start, the probes over
  UDP (sent by the client on the uplink, by the server on the downlink), send-complete, and the
  result. The results are grouped and printed as a report. Control messages are JSON in
  length-prefixed frames; probes are datagrams with a 48-byte binary header.

  \<^bold>\<open>Theories and sources\<close> (under \<^verbatim>\<open>src/\<close>; definitions keep the names of the source).
  \<^item> \<open>Prelude\<close>: 64-bit wrap-around of \<^verbatim>\<open>int\<close>, results as sums, and the contracts \<open>codec\<close> (an encoder with
    its decoder) and \<open>transition_system\<close> (a start, steps, an invariant).
  \<^item> \<open>GoText\<close>, \<open>GoFloat\<close>, \<open>GoTime\<close>, \<open>GoFlag\<close>, \<open>NetAddr\<close>: what the program uses of Go's library: decimal
    numbers, splitting and trimming; \<^verbatim>\<open>float64\<close> as rationals rounded to 53 bits; the text of durations;
    command line flags; IP addresses and host-port pairs.
  \<^item> \<open>Protocol\<close>, \<open>Messages\<close>, \<open>ProbeHeader\<close>: \<^verbatim>\<open>internal/protocol/types.go\<close>, \<^verbatim>\<open>state_machine.go\<close>,
    \<^verbatim>\<open>probe_header.go\<close>. Messages are marshalled to JSON syntax trees by the rules of \<^verbatim>\<open>encoding/json\<close>.
  \<^item> \<open>UdpEngine\<close>: \<^verbatim>\<open>internal/udp/sender.go\<close>, \<^verbatim>\<open>receiver.go\<close>, \<^verbatim>\<open>types.go\<close>.
  \<^item> \<open>Framing\<close>: \<^verbatim>\<open>readMessage\<close> and \<^verbatim>\<open>writeMessage\<close> of \<^verbatim>\<open>internal/control/session.go\<close>, over a connection that
    delivers its bytes in segments.
  \<^item> \<open>Session\<close>, \<open>SessionRuns\<close>: \<^verbatim>\<open>internal/control/session.go\<close>. The record \<open>world\<close> holds a session and what its
    message loop and its worker goroutine share; every handler is a function on it, \<open>exec\<close> performs one step of
    either goroutine, \<open>execs\<close> a sequence, that is, an interleaving.
  \<^item> \<open>Server\<close>: \<^verbatim>\<open>internal/control/server.go\<close>. Accepting and connection goroutines, the atomic session
    pointer and shutdown as steps \<open>sexec\<close> on a \<open>server\<close>.
  \<^item> \<open>Client\<close>: \<^verbatim>\<open>internal/control/client.go\<close>. Operations on a connection that records what the client did and
    holds what it will be answered, chained by a bind that stops at the first error.
  \<^item> \<open>Config\<close>: \<^verbatim>\<open>internal/config/config.go\<close>. \<open>Report\<close>: \<^verbatim>\<open>internal/report/report.go\<close>.
  \<^item> \<open>Cli\<close>: \<^verbatim>\<open>cmd/udpdiag/main.go\<close>. Outputs as a list of values, the exit status, and \<open>None\<close> for a
    program that does not end.
  \<^item> \<open>EndToEnd\<close>, \<open>System\<close> and this theory: the composition of client and session, and of the sweep.

  \<^bold>\<open>What is shown.\<close>
  \<^item> End to end (this theory): an uplink and a downlink test between client and session report exactly the
    probes sent, arrived and lost; every planned test has parameters for which that holds; a sweep
    whose tests are all served ends with status 0 and reports these numbers.
  \<^item> Command line: the flags give the configuration they state; the sweep loop has its declarative
    description; the interval is cut to milliseconds and the payload size to 16 bits.
  \<^item> Configuration: parsing of port lists, exactly which configurations are accepted, the plan, termination
    of the size loop, soundness of the duration guard and its overflow.
  \<^item> Messages, header, frames: round trips, totality and bounds of the decoders, and the truncation of a frame
    that arrives in two segments.
  \<^item> UDP: the sender emits the specified datagrams; the receiver counts exactly those of its test.
  \<^item> Session: all state changes of all interleavings, at most one result, behaviour once closed, time-outs, the
    start race, the target address. Invariants by induction over runs, through the interpretation
    \<open>sessions\<close> of \<open>transition_system\<close>.
  \<^item> Server: at most one session in every interleaving, refinement of a one-slot specification,
    replies to a busy client, shutdown (interpretation \<open>servers\<close>).
  \<^item> Client: whatever fails, a prefix of one fixed protocol sequence, sockets closed.
  \<^item> Report: grouping, critical sizes, exactness of the floating-point threshold, independence
    of map order and of the instability of the sort.

  \<^bold>\<open>Parameters.\<close> The operating system and the peer are arguments: which addresses can be opened or
  resolved, the clock, which writes succeed, what a read returns, which datagrams arrive and when. Map
  iteration order and \<^verbatim>\<open>sort.Slice\<close> are arguments with their documented contract (\<open>go_library\<close>,
  locale \<open>slice_sort\<close>), as is the conversion of an out-of-range \<^verbatim>\<open>float64\<close>. Integers are \<^verbatim>\<open>int64\<close> with
  explicit wrap-around; words model the fixed-width fields. No fuel is used: loops are structural or have a
  measure, and the size loop, which can run forever, is a partial function.

  \<^bold>\<open>Not modelled.\<close> The characters of JSON text (a message is a syntax tree; text that does not parse is
  \<open>None\<close>); the fixed texts of help, usage and errors; log output; the durations of deadlines (a
  time-out is a possible outcome of every read); data races on fields that the source accesses without
  its lock. Accessors that only return a field have no definition of their own.
\<close>

section \<open>Tests from end to end\<close>

text \<open>
  C2: an uplink test from end to end. When the client's operations succeed and the server can bind
  its port, client and session run to the end of the protocol together: the session completes
  on the very messages that the client wrote, and the client returns what it made of the
  session's replies. The client sent \<open>n\<close> probes; it reports \<open>n\<close> as sent, as received the number of its probes that
  reached the server before the receiver was told to stop (mixed with any datagrams that are no valid
  probes), and the difference as lost; without duplication that is the number of probes that never arrived.
\<close>

theorem uplink_end_to_end:
  assumes "wf_params params" and "cp_Direction params = DirectionUplink" and "cp_Family params \<in> {FamilyIPv4, FamilyIPv6}"
    and "cp_Family params = FamilyIPv6 \<longrightarrow> remote_is_IPv6 remote"
    and "cp_PacketCount params = int n" and "0 < n"
    and "ue_listen env (udp_network (cp_Family params)) '':0''"
    and "ue_resolve env (udp_network (cp_Family params)) (send_address (uplink_sender_config params))"
    and "\<forall>k < n. ue_wr env k" and "\<forall>k. in_int64 (ue_clk env k)"
    and "listen (udp_network (cp_Family params))
      (uplink_bind (store_prepare (prepare_message (client_session_id now') params 0) (NewSession now)))"
    and "fst (Receive (uplink_receiver now (prepare_message (client_session_id now') params 0)) es) \<noteq> None"
    and "read_before_exit es = map (arrival_datagram (uplink_sender_config params) (ue_clk env)) as"
    and "\<forall>a \<in> set as. noise (r_config (uplink_receiver now (prepare_message (client_session_id now') params 0))) a"
    and "int (length (probes_in as)) < 2 ^ 62"
  shows "\<exists>w io. RunUplink now' env params (conn_to addr 5 (w_out w)) =
      (Inr \<lparr>cr_Direction = DirectionUplink, cr_Sent = int n, cr_Received = int (length (probes_in as)),
            cr_Lost = int n - int (length (probes_in as))\<rparr>, io) \<and>
    execs (uplink_exchange listen es (written (io_trace io))) (Run True (new_world now remote)) = Some w \<and>
    sent_datagrams (io_trace io) = map (probe (uplink_sender_config params) (ue_clk env)) [0..<n] \<and>
    state_of w = StateCompleted \<and>
    (distinct (probes_in as) \<and> set (probes_in as) \<subseteq> {..<n} \<longrightarrow>
       int n - int (length (probes_in as)) = int (card {k. k < n \<and> k \<notin> set (probes_in as)}))"
proof -
  have "uplink_setting now' now remote listen env params n es as"
    using assms by (simp add: uplink_setting_def)
  from uplink_joint [OF this, of addr] obtain w where
    w: "execs (uplink_exchange listen es (written (uplink_trace now' env params))) (Run True (new_world now remote)) = Some w"
      "state_of w = StateCompleted"
    and up: "fst (RunUplink now' env params (conn_to addr 5 (w_out w))) = Inr (measured DirectionUplink n as)"
    and sent: "packets_of (probe_events env params) = map (probe (uplink_sender_config params) (ue_clk env)) [0..<n]"
    by blast
  have "io_trace (snd (RunUplink now' env params (conn_to addr 5 (w_out w)))) = uplink_trace now' env params"
    using client_trace [OF follows_uplink up] by (simp add: conn_to_def)
  then show ?thesis
    using w up sent lost_probes [of "probes_in as" n]
    by (intro exI [of _ w] exI [of _ "snd (RunUplink now' env params (conn_to addr 5 (w_out w)))"])
      (auto simp: uplink_written prod_eq_iff measured_def)
qed

definition sample_params :: "Direction \<Rightarrow> ClientParams" where
  "sample_params d = \<lparr>cp_Direction = d, cp_Family = FamilyIPv4, cp_Target4 = ''192.0.2.1'', cp_Target6 = [], cp_Port = 9000,
     cp_PayloadSize = 64, cp_PacketCount = 3, cp_IntervalMs = 20\<rparr>"

definition sample_env :: "recv_event list \<Rightarrow> udp_env" where
  "sample_env es = \<lparr>ue_listen = \<lambda>_ _. True, ue_resolve = \<lambda>_ _. True, ue_t0 = 0, ue_clk = \<lambda>_. 5, ue_wr = \<lambda>_. True,
     ue_elapsed = 60, ue_port = 40000, ue_events = es\<rparr>"

theorem uplink_end_to_end_witness:
  "\<exists>w io. RunUplink 7 (sample_env []) (sample_params DirectionUplink) (conn_to [] 5 (w_out w)) =
      (Inr \<lparr>cr_Direction = DirectionUplink, cr_Sent = 3, cr_Received = 1, cr_Lost = 2\<rparr>, io) \<and>
    state_of w = StateCompleted"
  using uplink_end_to_end [of "sample_params DirectionUplink" None 3 "sample_env []" "\<lambda>_ _. True" 7 1
      "[Datagram (probe (uplink_sender_config (sample_params DirectionUplink)) (\<lambda>_. 5) 2) 8, Datagram [1] 9, QuitClosed]"
      "[Probe 2 8, Foreign [1] 9]" "[]"]
  by (auto simp: sample_params_def sample_env_def wf_params_def in_int64_def accept_def ProbeHeaderSize_def)

text \<open>
  C3: a downlink test from end to end, likewise. The server sends \<open>n\<close> probes to the port that the
  client announced; the client reports \<open>n\<close> as sent (as the session's result says) and as received
  the number of these probes that its receiver had read when the statistics were taken, whatever
  other datagrams, also probes of other tests, arrived.
\<close>

theorem downlink_end_to_end:
  assumes "wf_params params" and "cp_Direction params = DirectionDownlink" and "cp_Family params \<in> {FamilyIPv4, FamilyIPv6}"
    and "cp_Family params = FamilyIPv6 \<longrightarrow> remote_is_IPv6 remote"
    and "cp_PacketCount params = int n" and "0 < n" and "in_int64 (ue_port env)"
    and "ue_listen env (udp_network (cp_Family params)) '':0''"
    and "listen (udp_network (cp_Family params)) '':0''"
    and "resolve (udp_network (cp_Family params)) (send_address (serving_config remote params (ue_port env)))"
    and "\<forall>k < n. udp_wr k" and "\<forall>k. in_int64 (clk k)"
    and "read_before_exit (ue_events env) = map (arrival_datagram (serving_config remote params (ue_port env)) clk) as"
    and "\<forall>a \<in> set as. foreign_ok (downlink_receiver_config params) a"
    and "int (length as) < 2 ^ 62" 
  shows "\<exists>w io. RunDownlink now' env params (conn_to addr 4 (w_out w)) =
      (Inr \<lparr>cr_Direction = DirectionDownlink, cr_Sent = int n, cr_Received = int (length (probes_in as)),
            cr_Lost = int n - int (length (probes_in as))\<rparr>, io) \<and>
    execs (downlink_exchange listen resolve clk udp_wr (written (io_trace io))) (Run True (new_world now remote)) = Some w \<and>
    packets_of (w_probes w) = map (probe (serving_config remote params (ue_port env)) clk) [0..<n] \<and>
    state_of w = StateCompleted \<and>
    (distinct (probes_in as) \<and> set (probes_in as) \<subseteq> {..<n} \<longrightarrow>
       int n - int (length (probes_in as)) = int (card {k. k < n \<and> k \<notin> set (probes_in as)}))"
proof -
  have "downlink_setting remote listen resolve clk udp_wr env params n as"
    using assms by (simp add: downlink_setting_def)
  from downlink_joint [OF this, of now' now addr] obtain w where
    w: "execs (downlink_exchange listen resolve clk udp_wr (written (downlink_trace now' env params)))
        (Run True (new_world now remote)) = Some w"
      "state_of w = StateCompleted"
      "packets_of (w_probes w) = map (probe (serving_config remote params (ue_port env)) clk) [0..<n]"
    and down: "fst (RunDownlink now' env params (conn_to addr 4 (w_out w))) = Inr (measured DirectionDownlink n as)"
    by blast
  have "io_trace (snd (RunDownlink now' env params (conn_to addr 4 (w_out w)))) = downlink_trace now' env params"
    using client_trace [OF follows_downlink down] by (simp add: conn_to_def)
  then show ?thesis
    using w down lost_probes [of "probes_in as" n]
    by (intro exI [of _ w] exI [of _ "snd (RunDownlink now' env params (conn_to addr 4 (w_out w)))"])
      (auto simp: prod_eq_iff measured_def)
qed

theorem downlink_end_to_end_witness:
  "\<exists>w io. RunDownlink 7 (sample_env [ReadTimeout, Datagram (probe (serving_config (Some [192, 0, 2, 7])
        (sample_params DirectionDownlink) 40000) (\<lambda>_. 5) 2) 8, Datagram [1] 9]) (sample_params DirectionDownlink) (conn_to [] 4 (w_out w)) =
      (Inr \<lparr>cr_Direction = DirectionDownlink, cr_Sent = 3, cr_Received = 1, cr_Lost = 2\<rparr>, io) \<and>
    state_of w = StateCompleted"
  using downlink_end_to_end [of "sample_params DirectionDownlink" "Some [192, 0, 2, 7]" 3 "sample_env [ReadTimeout,
        Datagram (probe (serving_config (Some [192, 0, 2, 7]) (sample_params DirectionDownlink) 40000) (\<lambda>_. 5) 2) 8, Datagram [1] 9]"
      "\<lambda>_ _. True" "\<lambda>_ _. True" "\<lambda>_. True" "\<lambda>_. 5" "[Probe 2 8, Foreign [1] 9]" 7 "[]" 1]
  by (auto simp: sample_params_def sample_env_def wf_params_def in_int64_def UnmarshalBinary_def ProbeHeaderSize_def)

section \<open>Sweeps\<close>

text \<open>
  C5: what the command line asks of the client is what the client can do. Every test that is planned for an
  accepted configuration has parameters for which the tests are made: a single direction,
  so that a test in both directions is never run as one, a family, port and count in range, and a
  control address that splits into the target of that family and the control port. The
  port of the probes is the planned one, not cut to 16 bits.
\<close>

theorem plan_parameters:
  assumes "NewClientConfig t4 t6 cp dir spec mn mx stp cnt iv md = Inr cfg"
    and "in_int64 mn" "in_int64 mx" "mx + stp \<le> MaxInt" "in_int64 cnt" "in_int64 iv"
    and "BuildSweepPlan cfg = Some (Inr plans)" and "p \<in> set plans"
  shows "wf_params (test_params cfg p) \<and>
    cp_Direction (test_params cfg p) \<in> {DirectionUplink, DirectionDownlink} \<and>
    cp_Family (test_params cfg p) \<in> {FamilyIPv4, FamilyIPv6} \<and>
    0 < cp_PacketCount (test_params cfg p) \<and> mn \<le> cp_PayloadSize (test_params cfg p) \<and> cp_PayloadSize (test_params cfg p) \<le> mx \<and>
    1 \<le> cp_Port (test_params cfg p) \<and> cp_Port (test_params cfg p) \<le> 65535 \<and>
    uint (sc_UDPPort (uplink_sender_config (test_params cfg p))) = cp_Port (test_params cfg p) \<and>
    SplitHostPort (server_addr cfg p) = Inr (if cp_Family (test_params cfg p) = FamilyIPv6 then t6 else t4, show_int cp) \<and>
    validateTargetAddress (if cp_Family (test_params cfg p) = FamilyIPv6 then t6 else t4)
      (if cp_Family (test_params cfg p) = FamilyIPv6 then ''ipv6'' else ''ipv4'') = Inr ()"
proof -
  note c = NewClientConfig_ok [OF assms(1)]
  have f: "MinSize cfg = mn" "MaxSize cfg = mx" "Step cfg = stp" "Count cfg = cnt" "Interval cfg = iv" "ControlPort cfg = cp"
      "Target4 cfg = t4" "Target6 cfg = t6"
    using c(3) by (metis ClientConfig.select_convs)+
  have v: "0 < stp" "0 < cnt" "0 < iv"
    using c(2) f by (simp_all add: Config_Validate_ok)
  note m = plan_members [OF assms(7,8)] and t = plan_target [OF assms(7,8)]
  have port: "1 \<le> SPPort p \<and> SPPort p \<le> 65535"
    using m(3) ParsePorts_sound(3) [OF c(1)] by (auto simp: list_all_iff valid_port_def)
  have "SPPayloadSize p \<in> set (sizes_spec mn mx stp)"
    using BuildSweepPlan_ok [OF c(2)] assms(2,4,7,8) f by (auto simp: in_expand_plans)
  then have size: "mn \<le> SPPayloadSize p" "SPPayloadSize p \<le> mx"
    using v(1) by (auto simp: in_sizes_spec)
  have "0 \<le> iv div 1000000" "iv div 1000000 \<le> iv"
    using v(3) by (simp_all add: pos_imp_zdiv_nonneg_iff int_div_le_self)
  then have "wf_params (test_params cfg p)"
    using m(1,2) port size assms(2,3,5,6) v f
    by (auto simp: wf_params_def test_params_def in_int64_def Milliseconds_def)
  moreover have "uint (sc_UDPPort (uplink_sender_config (test_params cfg p))) = cp_Port (test_params cfg p)"
    using port by (simp add: uplink_sender_config_def test_params_def uint_to_uint16)
  ultimately show ?thesis
    using m(1,2) port size v f t server_addr_splits [OF assms(7,8)]
    by (cases "SPFamily p = FamilyIPv6") (auto simp: test_params_def)
qed

definition small_config :: ClientConfig where
  "small_config = sample_config\<lparr>CDirection := DirectionUplink, MaxSize := 1200, Count := 3\<rparr>"

definition small_plan :: SweepPlan where
  "small_plan = \<lparr>SPFamily = FamilyIPv4, SPPort = 40000, SPDirection = DirectionUplink, SPPayloadSize = 1200\<rparr>"

lemma small_config_new:
  "NewClientConfig (dotted 127 0 0 1) [] 18080 DirectionUplink (show_int 40000) 1200 1200 136 3
     10000000 300000000000 = Inr small_config"
proof -
  have "Config_Validate small_config = Inr ()"
    by (simp add: Config_Validate_ok small_config_def sample_config_def validate_dotted)
  then show ?thesis
    by (simp add: NewClientConfig_def ParsePorts_single valid_port_def small_config_def sample_config_def)
qed

lemma small_plans: "BuildSweepPlan small_config = Some (Inr [small_plan])"
proof -
  have "sizes_spec 1200 1200 136 = [1200]"
    by (simp add: sizes_spec_def sizes_count_def)
  then show ?thesis
    using BuildSweepPlan_ok [OF NewClientConfig_ok(2) [OF small_config_new]]
    by (simp add: small_config_def sample_config_def in_int64_def MaxInt_def determineFamilies_def determineDirections_def
        expand_plans_def small_plan_def)
qed

theorem plan_parameters_witness:
  "wf_params (test_params small_config small_plan) \<and>
   SplitHostPort (server_addr small_config small_plan) = Inr (dotted 127 0 0 1, show_int 18080)"
  using plan_parameters [OF small_config_new _ _ _ _ _ small_plans, of small_plan]
  by (simp add: in_int64_def MaxInt_def test_params_def small_plan_def)

text \<open>
  C1: the measurement of a whole sweep. When every planned test is served by a session, the program ends
  with status 0 and its report is made of one result per test, in the order of the plan: the
  configured count as sent, the probes that arrived as received, the others as lost, each
  under the family, port, direction and payload size of its test.
\<close>

theorem sweep_end_to_end:
  assumes "BuildSweepPlan cfg = Some (Inr plans)" and "CheckDurationLimit (rt_oor rt) cfg plans = Inr ()"
    and "\<forall>k < length plans. served_test cfg (plans ! k) (envs k) (arrived k)"
  shows "\<exists>progress. client_run rt envs (Inr cfg) =
    Some (progress @
      final_report rt (Duration_String (EstimateDuration (rt_oor rt) cfg plans))
        (map (\<lambda>k. \<lparr>tr_TargetAddress = control_target cfg (plans ! k), tr_Family = SPFamily (plans ! k),
                  tr_Direction = SPDirection (plans ! k), tr_UDPPort = SPPort (plans ! k),
                  tr_PayloadSize = SPPayloadSize (plans ! k), tr_Sent = Count cfg,
                  tr_Received = int (length (probes_in (arrived k))),
                  tr_Lost = Count cfg - int (length (probes_in (arrived k)))\<rparr>) [0..<length plans]) @
      [Stdout ''Client completed successfully''], 0)"
proof -
  let ?r = "\<lambda>k. measured (SPDirection (plans ! k)) (nat (Count cfg)) (arrived k)"
  have "\<forall>k < length plans. \<exists>ios. run_plan (envs k) cfg (plans ! k) = Inr (Inr [?r k], ios)"
  proof (intro allI impI)
    fix k assume "k < length plans"
    then show "\<exists>ios. run_plan (envs k) cfg (plans ! k) = Inr (Inr [?r k], ios)"
      using assms(3) plan_members(1) [OF assms(1), of "plans ! k"] by (intro run_plan_served) simp_all
  qed
  note sweep = run_sweep_served [of plans envs cfg ?r rt, OF this]
  have "0 < Count cfg"
    using plan_shape(1) [OF assms(1)] by (simp add: Config_Validate_ok)
  then have row: "report_result cfg (plans ! k) (?r k) =
      \<lparr>tr_TargetAddress = control_target cfg (plans ! k), tr_Family = SPFamily (plans ! k),
       tr_Direction = SPDirection (plans ! k), tr_UDPPort = SPPort (plans ! k),
       tr_PayloadSize = SPPayloadSize (plans ! k), tr_Sent = Count cfg,
       tr_Received = int (length (probes_in (arrived k))),
       tr_Lost = Count cfg - int (length (probes_in (arrived k)))\<rparr>" if "k < length plans" for k
    using plan_target(1) [OF assms(1), of "plans ! k"] that by (simp add: report_result_def measured_def)
  have rows: "map (\<lambda>k. report_result cfg (plans ! k) (?r k)) [0..<length plans] =
      map (\<lambda>k. \<lparr>tr_TargetAddress = control_target cfg (plans ! k), tr_Family = SPFamily (plans ! k),
                tr_Direction = SPDirection (plans ! k), tr_UDPPort = SPPort (plans ! k),
                tr_PayloadSize = SPPayloadSize (plans ! k), tr_Sent = Count cfg,
                tr_Received = int (length (probes_in (arrived k))),
                tr_Lost = Count cfg - int (length (probes_in (arrived k)))\<rparr>) [0..<length plans]"
    using row by (intro map_cong) simp_all
  show ?thesis
    unfolding client_run_def using assms(1,2) sweep [unfolded rows] by auto
qed

definition sample_runtime :: runtime where
  "sample_runtime = \<lparr>rt_oor = \<lambda>_. 0, rt_order = rev, rt_sort_results = insertionSort, rt_sort_groups = insertionSort\<rparr>"

definition small_events :: "recv_event list" where
  "small_events = [Datagram (probe (uplink_sender_config (test_params small_config small_plan)) (\<lambda>_. 5) 2) 8,
     Datagram [1] 9, QuitClosed]"

lemma small_setting:
  "uplink_setting 7 1 None (\<lambda>_ _. True) (sample_env []) (test_params small_config small_plan) 3 small_events
     [Probe 2 8, Foreign [1] 9]"
  by (simp add: uplink_setting_def wf_params_def test_params_def small_config_def sample_config_def small_plan_def sample_env_def
      small_events_def in_int64_def Milliseconds_def accept_def ProbeHeaderSize_def)

lemma small_limit: "CheckDurationLimit oor small_config [small_plan] = Inr ()"
proof -
  have "100 * EstimateDuration oor small_config [small_plan] \<le> 111 * 30000000"
    using EstimateDuration_bounds(2) [of small_config "[small_plan]" oor] by (simp add: small_config_def sample_config_def)
  then show ?thesis
    by (simp add: CheckDurationLimit_def Let_def small_config_def sample_config_def)
qed

theorem sweep_end_to_end_witness:
  "\<exists>envs progress estimate. client_run sample_runtime envs (Inr small_config) =
    Some (progress @ final_report sample_runtime estimate
      [\<lparr>tr_TargetAddress = dotted 127 0 0 1, tr_Family = FamilyIPv4, tr_Direction = DirectionUplink, tr_UDPPort = 40000,
        tr_PayloadSize = 1200, tr_Sent = 3, tr_Received = 1, tr_Lost = 2\<rparr>] @
      [Stdout ''Client completed successfully''], 0)"
proof -
  let ?params = "test_params small_config small_plan"
  from uplink_joint [OF small_setting] obtain w where
    w: "execs (uplink_exchange (\<lambda>_ _. True) small_events (written (uplink_trace 7 (sample_env []) ?params)))
        (Run True (new_world 1 None)) = Some w"
    by blast
  define te where "te = \<lparr>be_now = 7, be_now' = 7, be_udp = sample_env [], be_udp' = sample_env [], be_dial = \<lambda>_. True, be_wr = [],
      be_in = [], te_dial = \<lambda>_. True, te_wr = replicate 5 True, te_in = map response (w_out w)\<rparr>"
  have dir: "SPDirection small_plan = DirectionUplink" and cnt: "nat (Count small_config) = 3"
    by (simp_all add: small_plan_def small_config_def)
  have "served_test small_config small_plan te [Probe 2 8, Foreign [1] 9]"
    unfolding served_test_def dir cnt if_P [OF refl] te_def
    using w small_setting by simp blast
  then show ?thesis
    using sweep_end_to_end [OF small_plans small_limit, of "\<lambda>_. te" "\<lambda>_. [Probe 2 8, Foreign [1] 9]" sample_runtime]
    by (simp add: control_target_def small_plan_def small_config_def sample_config_def) blast
qed

end
